(* ===== verification/Misbah_Prelude.thy ===== *)
theory Misbah_Prelude
  imports Main "HOL-Library.Word" "HOL-Library.Sublist"
begin

text \<open>
  What the components share: the parts of Go's standard library that the sources call
  (\<open>strings\<close>, \<open>strconv\<close>, \<open>path/filepath\<close> and \<open>net.SplitHostPort\<close>), the way Go's
  \<open>error\<close> results are sequenced, and the generic lemmas about them.  A Go string is a
  sequence of bytes, so it is a \<^typ>\<open>string\<close> (a \<^typ>\<open>char\<close> is eight bits).
  A function that returns only an \<open>error\<close> returns an \<open>'e option\<close> here, with \<open>None\<close>
  for \<open>nil\<close>; a function that returns \<open>(value, error)\<close> returns \<open>'e + 'a\<close>.
\<close>

named_theorems go_string_simps \<open>rewriting for the string functions of the Go library\<close>
named_theorems validate_defs \<open>the definitions of the specification's validators\<close>

type_synonym go_error = string
type_synonym i64 = "64 word"

section \<open>Errors in sequence\<close>

text \<open>
  \<open>if err := f(); err != nil { return wrap(err) }\<close> repeated: the first error wins.
\<close>

fun err_seq :: "'e option list \<Rightarrow> 'e option" where
  "err_seq [] = None"
| "err_seq (None # es) = err_seq es"
| "err_seq (Some e # es) = Some e"

definition fail_if :: "bool \<Rightarrow> 'e \<Rightarrow> 'e option" where
  "fail_if c e = (if c then Some e else None)"

text \<open>\<open>if p != nil { return p.Validate() }\<close>: an absent part raises no error.\<close>

definition on_some :: "('a \<Rightarrow> 'e option) \<Rightarrow> 'a option \<Rightarrow> 'e option" where
  "on_some f p = (case p of None \<Rightarrow> None | Some x \<Rightarrow> f x)"

section \<open>Package strings\<close>

fun index_byte :: "char \<Rightarrow> string \<Rightarrow> nat option" where
  "index_byte c [] = None"
| "index_byte c (x # xs) = (if x = c then Some 0 else map_option Suc (index_byte c xs))"

definition last_index_byte :: "char \<Rightarrow> string \<Rightarrow> nat option" where
  "last_index_byte c s = map_option (\<lambda>i. length s - Suc i) (index_byte c (rev s))"

definition has_prefix :: "string \<Rightarrow> string \<Rightarrow> bool" where
  "has_prefix s p = (take (length p) s = p)"

fun str_join :: "string \<Rightarrow> string list \<Rightarrow> string" where
  "str_join sep [] = []"
| "str_join sep [x] = x"
| "str_join sep (x # y # ys) = x @ sep @ str_join sep (y # ys)"

text \<open>\<open>strings.ReplaceAll\<close> for a pattern of one byte.\<close>

definition replace_byte :: "char \<Rightarrow> string \<Rightarrow> string \<Rightarrow> string" where
  "replace_byte c r s = concat (map (\<lambda>x. if x = c then r else [x]) s)"

text \<open>\<open>strings.SplitN(s, sep, 2)\<close> for a separator of one byte: one part or two.\<close>

definition split_n2 :: "char \<Rightarrow> string \<Rightarrow> string list" where
  "split_n2 c s = (case index_byte c s of
     None \<Rightarrow> [s]
   | Some i \<Rightarrow> [take i s, drop (Suc i) s])"

text \<open>\<open>strings.Split\<close> for a separator of one byte.\<close>

fun split_on :: "char \<Rightarrow> string \<Rightarrow> string list" where
  "split_on c [] = [[]]"
| "split_on c (x # xs) =
     (if x = c then [] # split_on c xs
      else (case split_on c xs of [] \<Rightarrow> [[x]] | w # ws \<Rightarrow> (x # w) # ws))"

definition byte_in :: "char \<Rightarrow> char \<Rightarrow> char \<Rightarrow> bool" where
  "byte_in lo hi c \<longleftrightarrow> (of_char lo :: nat) \<le> of_char c \<and> (of_char c :: nat) \<le> of_char hi"

definition is_digit :: "char \<Rightarrow> bool" where
  "is_digit c = byte_in (CHR ''0'') (CHR ''9'') c"

definition digit_val :: "char \<Rightarrow> nat" where
  "digit_val c = of_char c - 48"

definition upper_byte :: "char \<Rightarrow> char" where
  "upper_byte c = (if byte_in (CHR ''a'') (CHR ''z'') c then char_of (of_char c - 32 :: nat) else c)"

definition lower_byte :: "char \<Rightarrow> char" where
  "lower_byte c = (if byte_in (CHR ''A'') (CHR ''Z'') c then char_of (of_char c + 32 :: nat) else c)"

text \<open>
  \<open>strings.ToUpper\<close> and \<open>strings.ToLower\<close> on ASCII letters.  The sources compare the
  result with words made of letters that no character outside ASCII maps to, so the
  comparison has the same outcome on every input.
\<close>

definition to_upper :: "string \<Rightarrow> string" where
  "to_upper s = map upper_byte s"

definition to_lower :: "string \<Rightarrow> string" where
  "to_lower s = map lower_byte s"

text \<open>
  \<open>strings.TrimSpace\<close>: white space is \<open>unicode.IsSpace\<close>, here by its UTF-8 encodings.
\<close>

definition space_encodings :: "string list" where
  "space_encodings =
     [[CHR 0x09], [CHR 0x0A], [CHR 0x0B], [CHR 0x0C], [CHR 0x0D], [CHR 0x20],
      [CHR 0xC2, CHR 0x85], [CHR 0xC2, CHR 0xA0], [CHR 0xE1, CHR 0x9A, CHR 0x80],
      [CHR 0xE2, CHR 0x80, CHR 0x80], [CHR 0xE2, CHR 0x80, CHR 0x81], [CHR 0xE2, CHR 0x80, CHR 0x82],
      [CHR 0xE2, CHR 0x80, CHR 0x83], [CHR 0xE2, CHR 0x80, CHR 0x84], [CHR 0xE2, CHR 0x80, CHR 0x85],
      [CHR 0xE2, CHR 0x80, CHR 0x86], [CHR 0xE2, CHR 0x80, CHR 0x87], [CHR 0xE2, CHR 0x80, CHR 0x88],
      [CHR 0xE2, CHR 0x80, CHR 0x89], [CHR 0xE2, CHR 0x80, CHR 0x8A], [CHR 0xE2, CHR 0x80, CHR 0xA8],
      [CHR 0xE2, CHR 0x80, CHR 0xA9], [CHR 0xE2, CHR 0x80, CHR 0xAF], [CHR 0xE2, CHR 0x81, CHR 0x9F],
      [CHR 0xE3, CHR 0x80, CHR 0x80]]"

text \<open>Drop a leading encoding of the list, again and again; the fuel is the length.\<close>

fun strip_leading :: "string list \<Rightarrow> nat \<Rightarrow> string \<Rightarrow> string" where
  "strip_leading ws 0 s = s"
| "strip_leading ws (Suc n) s =
     (case find (\<lambda>w. has_prefix s w) ws of
        None \<Rightarrow> s
      | Some w \<Rightarrow> strip_leading ws n (drop (length w) s))"

definition trim_space :: "string \<Rightarrow> string" where
  "trim_space s =
     (let l = strip_leading space_encodings (length s) s
      in rev (strip_leading (map rev space_encodings) (length l) (rev l)))"

section \<open>Package strconv\<close>

text \<open>\<open>strconv.Itoa\<close> and the verb \<open>%d\<close>.\<close>

fun itoa_nat :: "nat \<Rightarrow> string" where
  "itoa_nat n =
     (if n < 10 then [char_of (48 + n)] else itoa_nat (n div 10) @ [char_of (48 + n mod 10)])"

declare itoa_nat.simps [simp del]

definition itoa :: "int \<Rightarrow> string" where
  "itoa i = (if i < 0 then ''-'' @ itoa_nat (nat (- i)) else itoa_nat (nat i))"

text \<open>The value of a string of digits, most significant first.\<close>

definition digits_val :: "string \<Rightarrow> nat" where
  "digits_val s = foldl (\<lambda>n c. n * 10 + digit_val c) 0 s"

text \<open>\<open>strconv.ParseInt(s, 10, 64)\<close>: \<open>None\<close> for a syntax error or a value out of range.\<close>

definition parse_int64 :: "string \<Rightarrow> int option" where
  "parse_int64 s =
     (let (neg, ds) = (case s of
          [] \<Rightarrow> (False, [])
        | c # cs \<Rightarrow> if c = CHR ''-'' then (True, cs)
                   else if c = CHR ''+'' then (False, cs) else (False, s))
      in if ds = [] \<or> \<not> list_all is_digit ds then None
         else let v = (if neg then - int (digits_val ds) else int (digits_val ds))
              in if - (2 ^ 63) \<le> v \<and> v < 2 ^ 63 then Some v else None)"

section \<open>Package path/filepath on Unix\<close>

definition is_abs :: "string \<Rightarrow> bool" where
  "is_abs p = has_prefix p ''/''"

text \<open>
  \<open>filepath.Clean\<close>: empty and \<open>.\<close> elements go, \<open>..\<close> removes the element before it, and
  is dropped at the root.  \<open>acc\<close> holds the elements kept so far, last one first.
\<close>

fun clean_elems :: "bool \<Rightarrow> string list \<Rightarrow> string list \<Rightarrow> string list" where
  "clean_elems rooted acc [] = rev acc"
| "clean_elems rooted acc (e # es) =
     (if e = [] \<or> e = ''.'' then clean_elems rooted acc es
      else if e = ''..'' then
        (case acc of
           [] \<Rightarrow> if rooted then clean_elems rooted [] es else clean_elems rooted [''..''] es
         | a # as \<Rightarrow> if a = ''..'' then clean_elems rooted (''..'' # acc) es
                     else clean_elems rooted as es)
      else clean_elems rooted (e # acc) es)"

definition clean_path :: "string \<Rightarrow> string" where
  "clean_path p =
     (let es = clean_elems (is_abs p) [] (split_on (CHR ''/'') p)
      in if is_abs p then ''/'' @ str_join ''/'' es
         else if es = [] then ''.'' else str_join ''/'' es)"

definition join_path :: "string list \<Rightarrow> string" where
  "join_path es =
     (case dropWhile (\<lambda>e. e = []) es of [] \<Rightarrow> [] | fs \<Rightarrow> clean_path (str_join ''/'' fs))"

definition base_path :: "string \<Rightarrow> string" where
  "base_path p =
     (if p = [] then ''.''
      else let q = rev (dropWhile (\<lambda>c. c = CHR ''/'') (rev p))
           in let b = (case last_index_byte (CHR ''/'') q of
                         None \<Rightarrow> q | Some i \<Rightarrow> drop (Suc i) q)
              in if b = [] then ''/'' else b)"

definition dir_path :: "string \<Rightarrow> string" where
  "dir_path p =
     clean_path (case last_index_byte (CHR ''/'') p of
                   None \<Rightarrow> [] | Some i \<Rightarrow> take (Suc i) p)"

section \<open>Package net: SplitHostPort\<close>

text \<open>\<open>net.SplitHostPort\<close>: the host and the port of \<open>host:port\<close> or \<open>[host]:port\<close>.\<close>

definition split_host_port :: "string \<Rightarrow> (go_error + string \<times> string)" where
  "split_host_port hp =
     (case last_index_byte (CHR '':'') hp of
        None \<Rightarrow> Inl ''missing port in address''
      | Some i \<Rightarrow>
        if has_prefix hp ''['' then
          (case index_byte (CHR '']'') hp of
             None \<Rightarrow> Inl ''missing ']' in address''
           | Some e \<Rightarrow>
             if e + 1 = length hp then Inl ''missing port in address''
             else if e + 1 \<noteq> i then
               (if hp ! (e + 1) = CHR '':'' then Inl ''too many colons in address''
                else Inl ''missing port in address'')
             else if CHR ''['' \<in> set (drop 1 hp) then Inl ''unexpected '[' in address''
             else if CHR '']'' \<in> set (drop (e + 1) hp) then Inl ''unexpected ']' in address''
             else Inr (take (e - 1) (drop 1 hp), drop (i + 1) hp))
        else if CHR '':'' \<in> set (take i hp) then Inl ''too many colons in address''
        else if CHR ''['' \<in> set hp then Inl ''unexpected '[' in address''
        else if CHR '']'' \<in> set hp then Inl ''unexpected ']' in address''
        else Inr (take i hp, drop (i + 1) hp))"

section \<open>Package encoding/json: strings\<close>

text \<open>
  What a string becomes through \<open>json.Marshal\<close> and \<open>json.Unmarshal\<close>: valid UTF-8 is kept
  (escapes are undone), and every byte that starts no valid sequence turns into the
  encoding of U+FFFD.  \<open>utf8_len\<close> is the length of the sequence at the front, 0 if invalid.
\<close>

definition cont_byte :: "string \<Rightarrow> nat \<Rightarrow> bool" where
  "cont_byte s i \<longleftrightarrow> i < length s \<and> byte_in (CHR 0x80) (CHR 0xBF) (s ! i)"

definition second_in :: "char \<Rightarrow> char \<Rightarrow> string \<Rightarrow> bool" where
  "second_in lo hi s \<longleftrightarrow> 1 < length s \<and> byte_in lo hi (s ! 1)"

definition utf8_len :: "string \<Rightarrow> nat" where
  "utf8_len s = (case s of [] \<Rightarrow> 0 | c # _ \<Rightarrow>
     if byte_in (CHR 0x00) (CHR 0x7F) c then 1
     else if byte_in (CHR 0xC2) (CHR 0xDF) c \<and> cont_byte s 1 then 2
     else if cont_byte s 2 \<and>
       (c = CHR 0xE0 \<and> second_in (CHR 0xA0) (CHR 0xBF) s \<or>
        c = CHR 0xED \<and> second_in (CHR 0x80) (CHR 0x9F) s \<or>
        c \<noteq> CHR 0xE0 \<and> c \<noteq> CHR 0xED \<and> byte_in (CHR 0xE1) (CHR 0xEF) c \<and> cont_byte s 1) then 3
     else if cont_byte s 2 \<and> cont_byte s 3 \<and>
       (c = CHR 0xF0 \<and> second_in (CHR 0x90) (CHR 0xBF) s \<or>
        c = CHR 0xF4 \<and> second_in (CHR 0x80) (CHR 0x8F) s \<or>
        byte_in (CHR 0xF1) (CHR 0xF3) c \<and> cont_byte s 1) then 4
     else 0)"

function json_text :: "string \<Rightarrow> string" where
  "json_text [] = []"
| "json_text (c # cs) =
     (if utf8_len (c # cs) = 0 then [CHR 0xEF, CHR 0xBF, CHR 0xBD] @ json_text cs
      else take (utf8_len (c # cs)) (c # cs) @ json_text (drop (utf8_len (c # cs)) (c # cs)))"
  by pat_completeness auto
termination by (relation "measure length") auto

section \<open>Lemmas on errors in sequence\<close>

lemma err_seq_None_iff [simp]: "err_seq es = None \<longleftrightarrow> set es \<subseteq> {None}"
  by (induction es rule: err_seq.induct) auto

lemma err_seq_Some_in: "err_seq es = Some e \<Longrightarrow> Some e \<in> set es"
  by (induction es rule: err_seq.induct) auto

lemma fail_if_None_iff [simp]: "fail_if c e = None \<longleftrightarrow> \<not> c"
  by (simp add: fail_if_def)

lemma fail_if_simps [simp]: "fail_if True e = Some e" "fail_if False e = None"
  by (simp_all add: fail_if_def)

lemma on_some_None_iff [simp]: "on_some f p = None \<longleftrightarrow> pred_option (\<lambda>x. f x = None) p"
  by (cases p) (simp_all add: on_some_def)

lemma on_some_simps [simp]: "on_some f None = None" "on_some f (Some x) = f x"
  by (simp_all add: on_some_def)

section \<open>Lemmas on strings\<close>

lemma index_byte_None_iff [simp]: "index_byte c s = None \<longleftrightarrow> c \<notin> set s"
  by (induction s) auto

lemma index_byte_SomeD:
  "index_byte c s = Some i \<Longrightarrow> i < length s \<and> s ! i = c \<and> c \<notin> set (take i s)"
  by (induction s arbitrary: i) (auto split: if_splits)

lemma index_byte_append [go_string_simps]:
  "c \<notin> set s \<Longrightarrow> index_byte c (s @ c # t) = Some (length s)"
  by (induction s) auto

lemma last_index_byte_None_iff [simp]: "last_index_byte c s = None \<longleftrightarrow> c \<notin> set s"
  by (simp add: last_index_byte_def)

lemma last_index_byte_append [go_string_simps]:
  "c \<notin> set t \<Longrightarrow> last_index_byte c (s @ c # t) = Some (length s)"
  using index_byte_append [of c "rev t" "rev s"] by (simp add: last_index_byte_def)

lemma has_prefix_iff: "has_prefix s p \<longleftrightarrow> (\<exists>t. s = p @ t)"
  by (auto simp: has_prefix_def) (metis append_take_drop_id)

lemma has_prefix_append [simp]: "has_prefix (p @ t) p"
  by (simp add: has_prefix_def)

lemma has_prefix_single [simp]: "has_prefix s [c] \<longleftrightarrow> s \<noteq> [] \<and> hd s = c"
  by (cases s) (auto simp: has_prefix_def)

lemma split_n2_append [go_string_simps]: "c \<notin> set k \<Longrightarrow> split_n2 c (k @ c # v) = [k, v]"
  by (simp add: split_n2_def index_byte_append)

lemma split_n2_no_sep [go_string_simps]: "c \<notin> set k \<Longrightarrow> split_n2 c k = [k]"
  by (simp add: split_n2_def index_byte_None_iff [THEN iffD2])

lemma split_on_not_Nil [simp]: "split_on c s \<noteq> []"
  by (cases s) (auto split: list.splits)

lemma split_on_no_sep [go_string_simps]: "c \<notin> set s \<Longrightarrow> split_on c s = [s]"
  by (induction s) auto

lemma split_on_append [go_string_simps]: "split_on c (s @ c # t) = split_on c s @ split_on c t"
proof (induction s)
  case (Cons x xs)
  then show ?case by (cases "split_on c xs") auto
qed simp

lemma split_on_elems: "e \<in> set (split_on c s) \<Longrightarrow> c \<notin> set e"
proof (induction s arbitrary: e)
  case (Cons x xs)
  then show ?case by (cases "split_on c xs") (auto split: if_splits)
qed simp

lemma str_join_Cons: "ys \<noteq> [] \<Longrightarrow> str_join sep (x # ys) = x @ sep @ str_join sep ys"
  by (cases ys) auto

lemma str_join_append:
  "xs \<noteq> [] \<Longrightarrow> ys \<noteq> [] \<Longrightarrow> str_join sep (xs @ ys) = str_join sep xs @ sep @ str_join sep ys"
proof (induction xs)
  case (Cons x xs)
  then show ?case by (cases "xs = []") (simp_all add: str_join_Cons)
qed simp

lemma split_on_str_join:
  "es \<noteq> [] \<Longrightarrow> \<forall>e\<in>set es. c \<notin> set e \<Longrightarrow> split_on c (str_join [c] es) = es"
proof (induction es rule: list_nonempty_induct)
  case (cons x xs)
  then show ?case by (simp add: str_join_Cons split_on_append split_on_no_sep)
qed (simp add: split_on_no_sep)

lemma str_join_split_on [simp]: "str_join [c] (split_on c s) = s"
proof (induction s)
  case (Cons x xs)
  then show ?case
  proof (cases "split_on c xs")
    case (Cons w ws)
    with Cons.IH show ?thesis by (cases ws) auto
  qed simp
qed simp

lemma replace_byte_simps [simp]:
  "replace_byte c r [] = []"
  "replace_byte c r (x # xs) = (if x = c then r else [x]) @ replace_byte c r xs"
  by (simp_all add: replace_byte_def)

text \<open>JSON keeps ASCII, and nothing but itself becomes an ASCII string.\<close>

lemma json_text_kept: "CHR 0xEF \<notin> set (json_text s) \<Longrightarrow> json_text s = s"
proof (induction s rule: json_text.induct)
  case (2 c cs)
  then show ?case by (cases "utf8_len (c # cs) = 0") simp_all
qed simp

lemma json_text_ascii: "list_all (byte_in (CHR 0x00) (CHR 0x7F)) s \<Longrightarrow> json_text s = s"
  by (induction s) (simp_all add: utf8_len_def)

lemma json_text_eq_ascii:
  assumes "list_all (byte_in (CHR 0x00) (CHR 0x7F)) a"
  shows "json_text s = a \<longleftrightarrow> s = a"
proof
  assume eq: "json_text s = a"
  have "CHR 0xEF \<notin> set a" using assms by (auto simp: list_all_iff byte_in_def)
  with eq json_text_kept [of s] show "s = a" by simp
qed (simp add: json_text_ascii assms)

declare json_text.simps(2) [simp del]

section \<open>Lemmas on numbers\<close>

lemma digit_val_char [simp]: "d < 10 \<Longrightarrow> digit_val (char_of (48 + d :: nat)) = d"
  by (simp add: digit_val_def)

lemma is_digit_char [simp]: "d < 10 \<Longrightarrow> is_digit (char_of (48 + d :: nat))"
  by (simp add: is_digit_def byte_in_def)

lemma digit_val_bound: "is_digit c \<Longrightarrow> digit_val c < 10"
  by (simp add: is_digit_def byte_in_def digit_val_def less_diff_conv2)

lemma digits_val_append [simp]: "digits_val (s @ [c]) = digits_val s * 10 + digit_val c"
  by (simp add: digits_val_def)

lemma itoa_nat_digits: "list_all is_digit (itoa_nat n) \<and> itoa_nat n \<noteq> []"
proof (induction n rule: itoa_nat.induct)
  case (1 n)
  then show ?case by (subst (1 2) itoa_nat.simps) auto
qed

lemma digits_val_itoa_nat [simp]: "digits_val (itoa_nat n) = n"
proof (induction n rule: itoa_nat.induct)
  case (1 n)
  then show ?case
    by (subst itoa_nat.simps) (auto simp: digits_val_def)
qed

lemma itoa_nat_inj: "itoa_nat m = itoa_nat n \<longleftrightarrow> m = n"
  by (metis digits_val_itoa_nat)

section \<open>Lemmas on paths\<close>

text \<open>An element that names a file below its directory: neither empty, \<open>.\<close> nor \<open>..\<close>.\<close>

definition plain_elem :: "string \<Rightarrow> bool" where
  "plain_elem e \<longleftrightarrow> e \<noteq> [] \<and> e \<noteq> ''.'' \<and> e \<noteq> ''..'' \<and> CHR ''/'' \<notin> set e"

lemma clean_elems_plain:
  "\<forall>e\<in>set es. plain_elem e \<Longrightarrow> clean_elems r acc es = rev acc @ es"
  by (induction es arbitrary: acc) (auto simp: plain_elem_def)

lemma clean_elems_append_plain:
  "\<forall>e\<in>set fs. plain_elem e \<Longrightarrow> clean_elems r acc (es @ fs) = clean_elems r acc es @ fs"
proof (induction r acc es rule: clean_elems.induct)
  case (1 r acc)
  then show ?case by (simp add: clean_elems_plain)
next
  case (2 r acc e es)
  then show ?case by (auto split: list.splits)
qed

lemma clean_elems_rooted_plain:
  "\<forall>e\<in>set acc. plain_elem e \<Longrightarrow> \<forall>e\<in>set es. CHR ''/'' \<notin> set e \<Longrightarrow>
   \<forall>e\<in>set (clean_elems True acc es). plain_elem e"
proof (induction es arbitrary: acc)
  case (Cons e es)
  have es: "\<forall>x\<in>set es. CHR ''/'' \<notin> set x" and e: "CHR ''/'' \<notin> set e"
    using Cons.prems(2) by simp_all
  consider "e = [] \<or> e = ''.''" | "e = ''..''" | "plain_elem e"
    using e by (auto simp: plain_elem_def)
  then show ?case
  proof cases
    case 1
    then show ?thesis using Cons.IH [OF Cons.prems(1) es] by simp
  next
    case 2
    show ?thesis
    proof (cases acc)
      case Nil
      then show ?thesis using Cons.IH [of "[]"] es 2 by simp
    next
      case acc: (Cons a rest)
      then have a: "a \<noteq> ''..''" and rest: "\<forall>x\<in>set rest. plain_elem x"
        using Cons.prems(1) by (simp_all add: plain_elem_def)
      have "clean_elems True acc (e # es) = clean_elems True rest es"
        using a by (simp add: 2 acc)
      then show ?thesis using Cons.IH [OF rest es] by simp
    qed
  next
    case 3
    then have eq: "clean_elems True acc (e # es) = clean_elems True (e # acc) es"
      by (simp add: plain_elem_def)
    show ?thesis unfolding eq by (rule Cons.IH) (use 3 Cons.prems(1) es in simp_all)
  qed
qed simp

text \<open>
  The elements of a cleaned absolute path are plain: it has no \<open>..\<close> left in it.
\<close>

definition path_elems :: "string \<Rightarrow> string list" where
  "path_elems p = clean_elems (is_abs p) [] (split_on (CHR ''/'') p)"

lemma path_elems_plain: "is_abs p \<Longrightarrow> e \<in> set (path_elems p) \<Longrightarrow> plain_elem e"
  unfolding path_elems_def
  using clean_elems_rooted_plain [of "[]" "split_on (CHR ''/'') p"]
  by (auto dest: split_on_elems)

lemma clean_path_abs: "is_abs p \<Longrightarrow> clean_path p = ''/'' @ str_join ''/'' (path_elems p)"
  by (simp add: clean_path_def path_elems_def Let_def)

lemma is_abs_append: "is_abs p \<Longrightarrow> is_abs (p @ q)"
  by (cases p) (auto simp: is_abs_def)

lemma path_elems_join:
  "is_abs d \<Longrightarrow> plain_elem e \<Longrightarrow> path_elems (d @ ''/'' @ e) = path_elems d @ [e]"
  by (simp add: path_elems_def is_abs_append split_on_append split_on_no_sep
      clean_elems_append_plain plain_elem_def)

lemma path_elems_abs_join:
  "\<forall>e\<in>set es. plain_elem e \<Longrightarrow> path_elems (''/'' @ str_join ''/'' es) = es"
proof (cases "es = []")
  case True
  then show ?thesis by (simp add: path_elems_def is_abs_def)
next
  case False
  assume plain: "\<forall>e\<in>set es. plain_elem e"
  then have "split_on (CHR ''/'') (''/'' @ str_join ''/'' es) = [] # es"
    using False by (simp add: split_on_str_join plain_elem_def)
  then show ?thesis using plain by (simp add: path_elems_def clean_elems_plain)
qed

lemma path_elems_clean: "is_abs p \<Longrightarrow> path_elems (clean_path p) = path_elems p"
  by (simp only: clean_path_abs) (rule path_elems_abs_join, auto dest: path_elems_plain)

text \<open>Joining a plain element to an absolute directory stays in that directory.\<close>

lemma join_path_plain:
  assumes "is_abs d" and "plain_elem e"
  shows "path_elems (join_path [d, e]) = path_elems d @ [e]"
    and "join_path [d, e] = ''/'' @ str_join ''/'' (path_elems d @ [e])"
proof -
  from assms(1) have d: "d \<noteq> []" by (auto simp: is_abs_def)
  have j: "join_path [d, e] = clean_path (d @ ''/'' @ e)"
    using d by (simp add: join_path_def)
  have abs: "is_abs (d @ ''/'' @ e)" by (rule is_abs_append [OF assms(1)])
  show "join_path [d, e] = ''/'' @ str_join ''/'' (path_elems d @ [e])"
    unfolding j clean_path_abs [OF abs] path_elems_join [OF assms] ..
  show "path_elems (join_path [d, e]) = path_elems d @ [e]"
    unfolding j path_elems_clean [OF abs] by (rule path_elems_join [OF assms])
qed

lemma is_abs_clean_path [simp]: "is_abs p \<Longrightarrow> is_abs (clean_path p)"
  by (simp add: clean_path_abs is_abs_def)

lemma not_is_abs_Nil [simp]: "\<not> is_abs []"
  by (simp add: is_abs_def)

lemma is_abs_join: "is_abs a \<Longrightarrow> is_abs (join_path (a # es))"
proof -
  assume a: "is_abs a"
  then have "is_abs (str_join ''/'' (a # es))" by (cases es) (simp_all add: is_abs_append)
  with a show ?thesis by (auto simp: join_path_def)
qed

end
