(* ===== verification/Permission.thy ===== *)
theory Permission
  imports Misbah_Prelude
begin

text \<open>
  The permission protocol of \<open>proxy/permission.go\<close>: resource types, decisions, requests,
  responses and the interface \<open>PermissionChecker\<close>, with the rule key of
  \<open>daemon/whitelist.go\<close>.  \<open>ResourceType\<close> and \<open>Decision\<close> are Go string types: any string
  is a value of them, since requests and whitelist files come from outside.
\<close>

type_synonym ResourceType = string
type_synonym Decision = string

definition ResourceNetwork :: ResourceType where "ResourceNetwork = ''network''"
definition ResourceMCP :: ResourceType where "ResourceMCP = ''mcp''"
definition ResourcePackage :: ResourceType where "ResourcePackage = ''package''"

definition DecisionDeny :: Decision where "DecisionDeny = ''deny''"
definition DecisionOnce :: Decision where "DecisionOnce = ''once''"
definition DecisionAlways :: Decision where "DecisionAlways = ''always''"
definition DecisionUnknown :: Decision where "DecisionUnknown = ''unknown''"

lemmas resource_defs = ResourceNetwork_def ResourceMCP_def ResourcePackage_def
lemmas decision_defs = DecisionDeny_def DecisionOnce_def DecisionAlways_def DecisionUnknown_def

record PermissionRequest =
  req_Container :: string
  req_ResourceType :: ResourceType
  req_ResourceID :: string
  req_Description :: string

definition demo_req :: PermissionRequest where
  "demo_req = \<lparr>req_Container = ''demo'', req_ResourceType = ResourceNetwork,
     req_ResourceID = ''api.test'', req_Description = []\<rparr>"

record PermissionResponse =
  resp_Decision :: Decision
  resp_Reason :: string

text \<open>
  The interface: both operations may fail and may change the state \<open>'s\<close> behind it.
\<close>

record 's PermissionChecker =
  pc_Check :: "PermissionRequest \<Rightarrow> 's \<Rightarrow> (go_error + PermissionResponse) \<times> 's"
  pc_Request :: "PermissionRequest \<Rightarrow> 's \<Rightarrow> (go_error + PermissionResponse) \<times> 's"

text \<open>\<open>ruleKey\<close>: the key of a resource in the rule table.\<close>

definition ruleKey :: "ResourceType \<Rightarrow> string \<Rightarrow> string" where
  "ruleKey t i = t @ '':'' @ i"

abbreviation req_key :: "PermissionRequest \<Rightarrow> string" where
  "req_key r \<equiv> ruleKey (req_ResourceType r) (req_ResourceID r)"

text \<open>The decisions that are kept (ALWAYS and DENY) and those that let a request through.\<close>

definition final :: "Decision \<Rightarrow> bool" where
  "final d \<longleftrightarrow> d = DecisionAlways \<or> d = DecisionDeny"

definition grants :: "Decision \<Rightarrow> bool" where
  "grants d \<longleftrightarrow> \<not> (d \<noteq> DecisionAlways \<and> d \<noteq> DecisionOnce)"

lemma decisions_distinct [simp]:
  "DecisionDeny \<noteq> DecisionOnce" "DecisionDeny \<noteq> DecisionAlways" "DecisionDeny \<noteq> DecisionUnknown"
  "DecisionOnce \<noteq> DecisionAlways" "DecisionOnce \<noteq> DecisionUnknown" "DecisionAlways \<noteq> DecisionUnknown"
  "DecisionOnce \<noteq> DecisionDeny" "DecisionAlways \<noteq> DecisionDeny" "DecisionUnknown \<noteq> DecisionDeny"
  "DecisionAlways \<noteq> DecisionOnce" "DecisionUnknown \<noteq> DecisionOnce" "DecisionUnknown \<noteq> DecisionAlways"
  by (simp_all add: decision_defs)

lemma final_simps [simp]:
  "final DecisionAlways" "final DecisionDeny" "\<not> final DecisionOnce" "\<not> final DecisionUnknown"
  by (simp_all add: final_def)

lemma grants_simps [simp]:
  "grants DecisionAlways" "grants DecisionOnce" "\<not> grants DecisionDeny" "\<not> grants DecisionUnknown"
  by (simp_all add: grants_def)

lemma grants_final: "grants d \<Longrightarrow> final d \<Longrightarrow> d = DecisionAlways"
  by (auto simp: grants_def final_def)

lemma ruleKey_inj_id [simp]: "ruleKey t i = ruleKey t j \<longleftrightarrow> i = j"
  by (simp add: ruleKey_def)

lemma append_sep_inject:
  "c \<notin> set s \<Longrightarrow> c \<notin> set t \<Longrightarrow> s @ c # i = t @ c # j \<longleftrightarrow> s = t \<and> i = j"
proof (induction s arbitrary: t)
  case Nil
  then show ?case by (cases t) auto
next
  case (Cons x s)
  then show ?case by (cases t) auto
qed

text \<open>
  Keys of different resources differ as long as the resource types hold no colon,
  as the three types of the code do not: a rule for one resource never answers for another.
\<close>

theorem ruleKey_injective:
  assumes "t \<in> {ResourceNetwork, ResourceMCP, ResourcePackage}"
    and "t' \<in> {ResourceNetwork, ResourceMCP, ResourcePackage}"
  shows "ruleKey t i = ruleKey t' i' \<longleftrightarrow> t = t' \<and> i = i'"
proof -
  have "CHR '':'' \<notin> set t" and "CHR '':'' \<notin> set t'" using assms by (auto simp: resource_defs)
  then show ?thesis using append_sep_inject [of "CHR '':''" t t' i i'] by (simp add: ruleKey_def)
qed

theorem ruleKey_injective_witness:
  "ruleKey ResourceNetwork ''x'' \<noteq> ruleKey ResourceMCP ''x''"
  using ruleKey_injective [of ResourceNetwork ResourceMCP "''x''" "''x''"] by (simp add: resource_defs)

text \<open>
  The resource type of a request is whatever string the client sent, and with a colon
  in it two different resources share one rule: a request of the made-up type
  \<open>mcp:fs\<close> for \<open>read\<close> is answered by the rule of the MCP tool \<open>fs:read\<close>.
\<close>

theorem ruleKey_collision:
  "\<exists>t i t' i'. (t, i) \<noteq> (t', i') \<and> t = ResourceMCP \<and> ruleKey t i = ruleKey t' i'"
  by (intro exI [of _ ResourceMCP] exI [of _ "''fs:read''"] exI [of _ "''mcp:fs''"] exI [of _ "''read''"])
    (simp add: ruleKey_def resource_defs)

section \<open>The contract of a checker\<close>

text \<open>
  What the proxies rely on: over the rule table behind the checker and the key under which
  it files a request, \<open>Check\<close> reports the table and changes nothing; \<open>Request\<close> answers a
  kept decision from the table, and otherwise either leaves the rules alone or files
  exactly the kept decision it returns.
\<close>

locale permission_checker =
  fixes Check :: "PermissionRequest \<Rightarrow> 's \<Rightarrow> (go_error + PermissionResponse) \<times> 's"
    and Request :: "PermissionRequest \<Rightarrow> 's \<Rightarrow> (go_error + PermissionResponse) \<times> 's"
    and rules :: "'s \<Rightarrow> string \<rightharpoonup> Decision"
    and key :: "PermissionRequest \<Rightarrow> string"
  assumes Check_pure: "snd (Check r s) = s"
    and Check_final: "fst (Check r s) = Inr p \<Longrightarrow> final d \<Longrightarrow>
      resp_Decision p = d \<longleftrightarrow> rules s (key r) = Some d"
    and Request_kept: "rules s (key r) = Some d \<Longrightarrow> final d \<Longrightarrow>
      rules (snd (Request r s)) = rules s \<and> (\<forall>p. fst (Request r s) = Inr p \<longrightarrow> resp_Decision p = d)"
    and Request_new: "\<forall>d. rules s (key r) = Some d \<longrightarrow> \<not> final d \<Longrightarrow>
      rules (snd (Request r s)) = rules s \<and>
        (\<forall>p. fst (Request r s) = Inr p \<longrightarrow> \<not> final (resp_Decision p)) \<or>
      (\<exists>d. final d \<and> rules (snd (Request r s)) = (rules s)(key r \<mapsto> d) \<and>
        (\<forall>p. fst (Request r s) = Inr p \<longrightarrow> resp_Decision p = d))"
begin

text \<open>A kept decision stays as it is, whatever is requested afterwards.\<close>

lemma Request_keeps_final:
  assumes "rules s k = Some d" and "final d"
  shows "rules (snd (Request r s)) k = Some d"
proof (cases "\<exists>d'. rules s (key r) = Some d' \<and> final d'")
  case True
  then show ?thesis using Request_kept assms(1) by metis
next
  case False
  then have "\<forall>d'. rules s (key r) = Some d' \<longrightarrow> \<not> final d'" by blast
  from Request_new [OF this] False assms show ?thesis by (cases "k = key r") auto
qed

lemma Requests_keep_final:
  assumes "rules s k = Some d" and "final d"
  shows "rules (foldl (\<lambda>s r. snd (Request r s)) s rs) k = Some d"
  using assms(1) by (induction rs arbitrary: s) (simp_all add: Request_keeps_final assms(2))

text \<open>A kept decision that \<open>Request\<close> returns is in the table afterwards.\<close>

lemma Request_files_final:
  assumes "fst (Request r s) = Inr p" and "final (resp_Decision p)"
  shows "rules (snd (Request r s)) (key r) = Some (resp_Decision p)"
proof (cases "\<exists>d'. rules s (key r) = Some d' \<and> final d'")
  case True
  then show ?thesis using Request_kept assms by metis
next
  case False
  then have "\<forall>d'. rules s (key r) = Some d' \<longrightarrow> \<not> final d'" by blast
  from Request_new [OF this] assms show ?thesis by auto
qed

text \<open>A denied resource is never granted, by \<open>Check\<close> or by \<open>Request\<close>.\<close>

lemma denied_not_granted:
  assumes "rules s (key r) = Some DecisionDeny" and "fst (Request r s) = Inr p"
  shows "resp_Decision p = DecisionDeny"
  using Request_kept [OF assms(1)] assms(2) by simp

end

end
