(* ===== verification/Container_Spec.thy ===== *)
theory Container_Spec
  imports Misbah_Prelude
begin

text \<open>
  The container specification of \<open>model/container.go\<close>: its data types with their
  fields, and the validators in the order the code runs their checks.  An error value
  names the check that failed and the path of wrapping \<open>fmt.Errorf\<close> calls around it;
  the rendering of the message text is left out.  A Go pointer is an \<open>option\<close>.
\<close>

section \<open>Constants\<close>

definition MountTypeBind :: string where "MountTypeBind = ''bind''"
definition MountTypeTmpfs :: string where "MountTypeTmpfs = ''tmpfs''"
definition MountTypeProc :: string where "MountTypeProc = ''proc''"
definition MountTypeGitClone :: string where "MountTypeGitClone = ''git-clone''"
definition MountTypeOverlay :: string where "MountTypeOverlay = ''overlay''"

definition RuntimeNamespace :: string where "RuntimeNamespace = ''namespace''"
definition RuntimeKata :: string where "RuntimeKata = ''kata''"

lemmas mount_type_defs =
  MountTypeBind_def MountTypeTmpfs_def MountTypeProc_def MountTypeGitClone_def MountTypeOverlay_def

lemmas runtime_defs = RuntimeNamespace_def RuntimeKata_def

section \<open>Data\<close>

record ContainerInfo =
  ci_ID :: string
  ci_Name :: string
  ci_State :: string
  ci_SandboxID :: string
  ci_CreatedAt :: i64
  ci_ExitCode :: "32 word"

record NetworkConfig =
  net_Mode :: string
  net_DNSServers :: "string list"
  net_DNSSearch :: "string list"
  net_Hostname :: string

record NestingConfig =
  nest_Enabled :: bool
  nest_MaxDepth :: int
  nest_PermissionPolicy :: string

record TierConfig =
  tc_Tier :: string
  tc_WritablePaths :: "string list"

record VsockForwarderConfig =
  vf_Port :: "32 word"
  vf_BinDir :: string

record PermissionConfig =
  perm_NetworkWhitelist :: "string list"
  perm_MCPWhitelist :: "string list"
  perm_PackageWhitelist :: "string list"
  perm_DefaultPolicy :: string

record ContainerMetadata =
  md_Name :: string
  md_Description :: string
  md_Labels :: "string \<rightharpoonup> string"

record ProcessSpec =
  proc_Command :: "string list"
  proc_Env :: "string list"
  proc_Cwd :: string
  proc_NetNsName :: string

record NamespaceSpec =
  ns_User :: bool
  ns_Mount :: bool
  ns_PID :: bool
  ns_Network :: bool
  ns_IPC :: bool
  ns_UTS :: bool

record OverlaySpec =
  ov_Lower :: string
  ov_Upper :: string
  ov_Work :: string

record GitCloneSpec =
  gc_Repository :: string
  gc_Ref :: string
  gc_Depth :: int

record MountSpec =
  mnt_Type :: string
  mnt_Source :: string
  mnt_Destination :: string
  mnt_Options :: "string list"
  mnt_GitClone :: "GitCloneSpec option"
  mnt_Overlay :: "OverlaySpec option"

record ResourceSpec =
  res_Memory :: string
  res_CPUShares :: int
  res_IOWeight :: int

record ContainerSpec =
  spec_Version :: string
  spec_Metadata :: ContainerMetadata
  spec_Process :: ProcessSpec
  spec_Namespaces :: NamespaceSpec
  spec_Mounts :: "MountSpec list"
  spec_Resources :: "ResourceSpec option"
  spec_Image :: string
  spec_Runtime :: string
  spec_Network :: "NetworkConfig option"
  spec_TierConfig :: "TierConfig option"
  spec_Nesting :: "NestingConfig option"
  spec_Permissions :: "PermissionConfig option"
  spec_VsockForwarder :: "VsockForwarderConfig option"

section \<open>Errors\<close>

datatype spec_error =
    UnsupportedVersion string
  | InvalidMetadata spec_error
  | InvalidProcess spec_error
  | InvalidNamespaces spec_error
  | InvalidMount nat spec_error
  | InvalidResources spec_error
  | ImageRequired
  | UnsupportedRuntime string
  | InvalidNetwork spec_error
  | InvalidTier spec_error
  | InvalidNesting spec_error
  | InvalidPermissions spec_error
  | MaxDepthOutOfRange int
  | BadNestingPolicy string
  | BadTier string
  | EcoWritable
  | BadDefaultPolicy string
  | BadNetworkMode string
  | NameRequired
  | InvalidContainerName spec_error
  | NameBadStart string
  | NameBadChar
  | NameIndexPanic
  | CommandRequired
  | CwdRequired
  | CwdNotAbsolute string
  | UserNamespaceRequired
  | MountNamespaceRequired
  | GitCloneSpecRequired
  | GitCloneRepositoryRequired
  | GitCloneSourceGiven
  | OverlaySpecRequired
  | OverlayLowerRequired
  | OverlayUpperRequired
  | OverlayWorkRequired
  | BadMountType string
  | DestinationRequired
  | DestinationNotAbsolute string
  | BindSourceRequired
  | BadMountOption string
  | ConflictingOptions
  | BadMemory string
  | CPUSharesOutOfRange int
  | IOWeightOutOfRange int

section \<open>Validators\<close>

definition NestingConfig_Validate :: "NestingConfig \<Rightarrow> spec_error option" where
  "NestingConfig_Validate n =
     (if \<not> nest_Enabled n then None
      else err_seq
        [fail_if (nest_MaxDepth n < 1 \<or> nest_MaxDepth n > 10) (MaxDepthOutOfRange (nest_MaxDepth n)),
         fail_if (nest_PermissionPolicy n \<notin> {'''', ''inherit'', ''restrict'', ''deny''})
           (BadNestingPolicy (nest_PermissionPolicy n))])"

definition TierConfig_Validate :: "TierConfig \<Rightarrow> spec_error option" where
  "TierConfig_Validate t =
     err_seq
       [fail_if (tc_Tier t \<notin> {''eco'', ''sys'', ''com'', ''mod''}) (BadTier (tc_Tier t)),
        fail_if (tc_Tier t = ''eco'' \<and> length (tc_WritablePaths t) > 0) EcoWritable]"

definition PermissionConfig_Validate :: "PermissionConfig \<Rightarrow> spec_error option" where
  "PermissionConfig_Validate p =
     fail_if (perm_DefaultPolicy p \<notin> {'''', ''deny'', ''prompt''}) (BadDefaultPolicy (perm_DefaultPolicy p))"

definition NetworkConfig_Validate :: "NetworkConfig \<Rightarrow> spec_error option" where
  "NetworkConfig_Validate n =
     fail_if (net_Mode n \<notin> {'''', ''pod'', ''none'', ''host''}) (BadNetworkMode (net_Mode n))"

definition name_byte :: "char \<Rightarrow> bool" where
  "name_byte c \<longleftrightarrow>
     byte_in (CHR ''a'') (CHR ''z'') c \<or> byte_in (CHR ''A'') (CHR ''Z'') c \<or>
     byte_in (CHR ''0'') (CHR ''9'') c \<or> c = CHR ''-'' \<or> c = CHR ''_''"

text \<open>
  The code ranges over the runes of the name; a rune outside ASCII fails the test, and
  so does every byte of its encoding.  \<open>name[0]\<close> panics on an empty name.
\<close>

definition validateContainerName :: "string \<Rightarrow> spec_error option" where
  "validateContainerName name =
     (case name of
        [] \<Rightarrow> Some NameIndexPanic
      | c # _ \<Rightarrow>
        if c = CHR ''-'' \<or> c = CHR ''_'' then Some (NameBadStart name)
        else fail_if (\<not> list_all name_byte name) NameBadChar)"

definition ContainerMetadata_Validate :: "ContainerMetadata \<Rightarrow> spec_error option" where
  "ContainerMetadata_Validate m =
     (if md_Name m = [] then Some NameRequired
      else map_option InvalidContainerName (validateContainerName (md_Name m)))"

definition ProcessSpec_Validate :: "ProcessSpec \<Rightarrow> spec_error option" where
  "ProcessSpec_Validate p =
     err_seq
       [fail_if (length (proc_Command p) = 0) CommandRequired,
        fail_if (proc_Cwd p = []) CwdRequired,
        fail_if (\<not> is_abs (proc_Cwd p)) (CwdNotAbsolute (proc_Cwd p))]"

definition NamespaceSpec_Validate :: "NamespaceSpec \<Rightarrow> spec_error option" where
  "NamespaceSpec_Validate n =
     err_seq
       [fail_if (\<not> ns_User n) UserNamespaceRequired,
        fail_if (\<not> ns_Mount n) MountNamespaceRequired]"

definition validOptions :: "string list" where
  "validOptions = [''ro'', ''rw'', ''nosuid'', ''nodev'', ''noexec'', MountTypeBind, ''rbind'']"

definition mount_type_check :: "MountSpec \<Rightarrow> spec_error option" where
  "mount_type_check m =
     (if mnt_Type m \<in> {MountTypeBind, MountTypeTmpfs, MountTypeProc} then None
      else if mnt_Type m = MountTypeGitClone then
        (case mnt_GitClone m of
           None \<Rightarrow> Some GitCloneSpecRequired
         | Some g \<Rightarrow> err_seq
             [fail_if (gc_Repository g = []) GitCloneRepositoryRequired,
              fail_if (mnt_Source m \<noteq> []) GitCloneSourceGiven])
      else if mnt_Type m = MountTypeOverlay then
        (case mnt_Overlay m of
           None \<Rightarrow> Some OverlaySpecRequired
         | Some v \<Rightarrow> err_seq
             [fail_if (ov_Lower v = []) OverlayLowerRequired,
              fail_if (ov_Upper v = []) OverlayUpperRequired,
              fail_if (ov_Work v = []) OverlayWorkRequired])
      else Some (BadMountType (mnt_Type m)))"

definition MountSpec_Validate :: "MountSpec \<Rightarrow> spec_error option" where
  "MountSpec_Validate m =
     err_seq
       ([mount_type_check m,
         fail_if (mnt_Destination m = []) DestinationRequired,
         fail_if (\<not> is_abs (mnt_Destination m)) (DestinationNotAbsolute (mnt_Destination m)),
         fail_if (mnt_Type m = MountTypeBind \<and> mnt_Source m = []) BindSourceRequired]
        @ map (\<lambda>opt. fail_if (opt \<notin> set validOptions) (BadMountOption opt)) (mnt_Options m)
        @ [fail_if (''ro'' \<in> set (mnt_Options m) \<and> ''rw'' \<in> set (mnt_Options m)) ConflictingOptions])"

definition isValidMemorySpec :: "string \<Rightarrow> bool" where
  "isValidMemorySpec s =
     (if length s < 3 then False
      else let suffix = drop (length s - 2) s; numPart = take (length s - 2) s
           in if suffix \<noteq> ''MB'' \<and> suffix \<noteq> ''GB'' \<and> suffix \<noteq> ''KB'' then False
              else if length numPart = 0 then False
              else list_all is_digit numPart)"

definition ResourceSpec_Validate :: "ResourceSpec \<Rightarrow> spec_error option" where
  "ResourceSpec_Validate r =
     err_seq
       [fail_if (res_Memory r \<noteq> [] \<and> \<not> isValidMemorySpec (res_Memory r)) (BadMemory (res_Memory r)),
        fail_if (res_CPUShares r \<noteq> 0 \<and> (res_CPUShares r < 1 \<or> res_CPUShares r > 10000))
          (CPUSharesOutOfRange (res_CPUShares r)),
        fail_if (res_IOWeight r \<noteq> 0 \<and> (res_IOWeight r < 1 \<or> res_IOWeight r > 10000))
          (IOWeightOutOfRange (res_IOWeight r))]"

definition runtime_check :: "ContainerSpec \<Rightarrow> spec_error option" where
  "runtime_check j =
     (if spec_Runtime j = [] \<or> spec_Runtime j = RuntimeNamespace then None
      else if spec_Runtime j = RuntimeKata then fail_if (spec_Image j = []) ImageRequired
      else Some (UnsupportedRuntime (spec_Runtime j)))"

definition ContainerSpec_Validate :: "ContainerSpec \<Rightarrow> spec_error option" where
  "ContainerSpec_Validate j =
     err_seq
       ([fail_if (spec_Version j \<noteq> ''1.0'') (UnsupportedVersion (spec_Version j)),
         map_option InvalidMetadata (ContainerMetadata_Validate (spec_Metadata j)),
         map_option InvalidProcess (ProcessSpec_Validate (spec_Process j)),
         map_option InvalidNamespaces (NamespaceSpec_Validate (spec_Namespaces j))]
        @ map (\<lambda>(i, m). map_option (InvalidMount i) (MountSpec_Validate m)) (enumerate 0 (spec_Mounts j))
        @ [map_option InvalidResources (on_some ResourceSpec_Validate (spec_Resources j)),
           runtime_check j,
           map_option InvalidNetwork (on_some NetworkConfig_Validate (spec_Network j)),
           map_option InvalidTier (on_some TierConfig_Validate (spec_TierConfig j)),
           map_option InvalidNesting (on_some NestingConfig_Validate (spec_Nesting j)),
           map_option InvalidPermissions (on_some PermissionConfig_Validate (spec_Permissions j))])"

section \<open>What a valid specification is\<close>

text \<open>
  The contract, stated without the order of the checks: each part by what it allows.
\<close>

definition valid_name :: "string \<Rightarrow> bool" where
  "valid_name n \<longleftrightarrow> n \<noteq> [] \<and> hd n \<notin> {CHR ''-'', CHR ''_''} \<and> (\<forall>c\<in>set n. name_byte c)"

definition valid_mount :: "MountSpec \<Rightarrow> bool" where
  "valid_mount m \<longleftrightarrow>
     (mnt_Type m = ''tmpfs'' \<or> mnt_Type m = ''proc'' \<or>
      mnt_Type m = ''bind'' \<and> mnt_Source m \<noteq> [] \<or>
      mnt_Type m = ''git-clone'' \<and> mnt_Source m = [] \<and>
        (\<exists>g. mnt_GitClone m = Some g \<and> gc_Repository g \<noteq> []) \<or>
      mnt_Type m = ''overlay'' \<and>
        (\<exists>v. mnt_Overlay m = Some v \<and> ov_Lower v \<noteq> [] \<and> ov_Upper v \<noteq> [] \<and> ov_Work v \<noteq> [])) \<and>
     is_abs (mnt_Destination m) \<and>
     set (mnt_Options m) \<subseteq> {''ro'', ''rw'', ''nosuid'', ''nodev'', ''noexec'', ''bind'', ''rbind''} \<and>
     \<not> {''ro'', ''rw''} \<subseteq> set (mnt_Options m)"

definition valid_memory :: "string \<Rightarrow> bool" where
  "valid_memory s \<longleftrightarrow>
     (\<exists>ds u. s = ds @ u \<and> ds \<noteq> [] \<and> (\<forall>c\<in>set ds. is_digit c) \<and> u \<in> {''KB'', ''MB'', ''GB''})"

definition valid_resources :: "ResourceSpec \<Rightarrow> bool" where
  "valid_resources r \<longleftrightarrow>
     (res_Memory r = [] \<or> valid_memory (res_Memory r)) \<and>
     res_CPUShares r \<in> {0..10000} \<and> res_IOWeight r \<in> {0..10000}"

definition valid_spec :: "ContainerSpec \<Rightarrow> bool" where
  "valid_spec j \<longleftrightarrow>
     spec_Version j = ''1.0'' \<and>
     valid_name (md_Name (spec_Metadata j)) \<and>
     proc_Command (spec_Process j) \<noteq> [] \<and> is_abs (proc_Cwd (spec_Process j)) \<and>
     ns_User (spec_Namespaces j) \<and> ns_Mount (spec_Namespaces j) \<and>
     list_all valid_mount (spec_Mounts j) \<and>
     pred_option valid_resources (spec_Resources j) \<and>
     spec_Runtime j \<in> {'''', ''namespace'', ''kata''} \<and>
     (spec_Runtime j = ''kata'' \<longrightarrow> spec_Image j \<noteq> []) \<and>
     pred_option (\<lambda>n. net_Mode n \<in> {'''', ''pod'', ''none'', ''host''}) (spec_Network j) \<and>
     pred_option (\<lambda>t. tc_Tier t \<in> {''eco'', ''sys'', ''com'', ''mod''} \<and>
       (tc_Tier t = ''eco'' \<longrightarrow> tc_WritablePaths t = [])) (spec_TierConfig j) \<and>
     pred_option (\<lambda>n. nest_Enabled n \<longrightarrow> nest_MaxDepth n \<in> {1..10} \<and>
       nest_PermissionPolicy n \<in> {'''', ''inherit'', ''restrict'', ''deny''}) (spec_Nesting j) \<and>
     pred_option (\<lambda>p. perm_DefaultPolicy p \<in> {'''', ''deny'', ''prompt''}) (spec_Permissions j)"

section \<open>The validators accept exactly the valid parts\<close>

lemma validateContainerName_iff: "validateContainerName n = None \<longleftrightarrow> valid_name n"
  by (cases n) (auto simp: validateContainerName_def valid_name_def list_all_iff)

lemma ContainerMetadata_Validate_iff [validate_defs]:
  "ContainerMetadata_Validate m = None \<longleftrightarrow> valid_name (md_Name m)"
  by (auto simp: ContainerMetadata_Validate_def validateContainerName_iff valid_name_def)

lemma ProcessSpec_Validate_iff [validate_defs]:
  "ProcessSpec_Validate p = None \<longleftrightarrow> proc_Command p \<noteq> [] \<and> is_abs (proc_Cwd p)"
  by (auto simp: ProcessSpec_Validate_def)

lemma NamespaceSpec_Validate_iff [validate_defs]:
  "NamespaceSpec_Validate n = None \<longleftrightarrow> ns_User n \<and> ns_Mount n"
  by (auto simp: NamespaceSpec_Validate_def)

lemma mount_type_check_iff:
  "mount_type_check m = None \<and> \<not> (mnt_Type m = ''bind'' \<and> mnt_Source m = []) \<longleftrightarrow>
     mnt_Type m = ''tmpfs'' \<or> mnt_Type m = ''proc'' \<or>
     mnt_Type m = ''bind'' \<and> mnt_Source m \<noteq> [] \<or>
     mnt_Type m = ''git-clone'' \<and> mnt_Source m = [] \<and>
       (\<exists>g. mnt_GitClone m = Some g \<and> gc_Repository g \<noteq> []) \<or>
     mnt_Type m = ''overlay'' \<and>
       (\<exists>v. mnt_Overlay m = Some v \<and> ov_Lower v \<noteq> [] \<and> ov_Upper v \<noteq> [] \<and> ov_Work v \<noteq> [])"
  by (auto simp: mount_type_check_def mount_type_defs split: option.splits)

lemma set_validOptions:
  "set validOptions = {''ro'', ''rw'', ''nosuid'', ''nodev'', ''noexec'', ''bind'', ''rbind''}"
  by (simp add: validOptions_def MountTypeBind_def)

lemma MountSpec_Validate_iff [validate_defs]: "MountSpec_Validate m = None \<longleftrightarrow> valid_mount m"
proof -
  have "MountSpec_Validate m = None \<longleftrightarrow>
      (mount_type_check m = None \<and> \<not> (mnt_Type m = ''bind'' \<and> mnt_Source m = [])) \<and>
      is_abs (mnt_Destination m) \<and> set (mnt_Options m) \<subseteq> set validOptions \<and>
      \<not> {''ro'', ''rw''} \<subseteq> set (mnt_Options m)"
    unfolding MountSpec_Validate_def err_seq_None_iff by (auto simp: MountTypeBind_def)
  then show ?thesis by (simp only: mount_type_check_iff valid_mount_def set_validOptions)
qed

lemma isValidMemorySpec_iff: "isValidMemorySpec s \<longleftrightarrow> valid_memory s"
proof
  assume v: "isValidMemorySpec s"
  have "s = take (length s - 2) s @ drop (length s - 2) s" by simp
  with v show "valid_memory s"
    unfolding isValidMemorySpec_def valid_memory_def
    by (intro exI [of _ "take (length s - 2) s"] exI [of _ "drop (length s - 2) s"])
      (auto simp: Let_def list_all_iff split: if_splits)
next
  assume "valid_memory s"
  then obtain ds u where s: "s = ds @ u" "ds \<noteq> []" "\<forall>c\<in>set ds. is_digit c"
    and u: "u \<in> {''KB'', ''MB'', ''GB''}"
    unfolding valid_memory_def by blast
  from u have "length u = 2" by auto
  with s u show "isValidMemorySpec s"
    by (cases ds) (auto simp: isValidMemorySpec_def Let_def list_all_iff)
qed

lemma ResourceSpec_Validate_iff [validate_defs]:
  "ResourceSpec_Validate r = None \<longleftrightarrow> valid_resources r"
  by (auto simp: ResourceSpec_Validate_def valid_resources_def isValidMemorySpec_iff)

lemma runtime_check_iff [validate_defs]:
  "runtime_check j = None \<longleftrightarrow> spec_Runtime j \<in> {'''', ''namespace'', ''kata''} \<and>
     (spec_Runtime j = ''kata'' \<longrightarrow> spec_Image j \<noteq> [])"
  by (auto simp: runtime_check_def runtime_defs)

lemma optional_parts_iff [validate_defs]:
  "NetworkConfig_Validate n = None \<longleftrightarrow> net_Mode n \<in> {'''', ''pod'', ''none'', ''host''}"
  "TierConfig_Validate t = None \<longleftrightarrow> tc_Tier t \<in> {''eco'', ''sys'', ''com'', ''mod''} \<and>
     (tc_Tier t = ''eco'' \<longrightarrow> tc_WritablePaths t = [])"
  "NestingConfig_Validate g = None \<longleftrightarrow> (nest_Enabled g \<longrightarrow> nest_MaxDepth g \<in> {1..10} \<and>
     nest_PermissionPolicy g \<in> {'''', ''inherit'', ''restrict'', ''deny''})"
  "PermissionConfig_Validate p = None \<longleftrightarrow> perm_DefaultPolicy p \<in> {'''', ''deny'', ''prompt''}"
  by (auto simp: NetworkConfig_Validate_def TierConfig_Validate_def NestingConfig_Validate_def
      PermissionConfig_Validate_def)

lemma mounts_valid_iff:
  "set (map (\<lambda>(i, m). map_option (InvalidMount i) (MountSpec_Validate m)) (enumerate k ms)) \<subseteq> {None}
     \<longleftrightarrow> list_all valid_mount ms"
  by (induction ms arbitrary: k) (auto simp: MountSpec_Validate_iff)

lemma Validate_iff: "ContainerSpec_Validate j = None \<longleftrightarrow> valid_spec j"
proof -
  have "ContainerSpec_Validate j = None \<longleftrightarrow>
      spec_Version j = ''1.0'' \<and> ContainerMetadata_Validate (spec_Metadata j) = None \<and>
      ProcessSpec_Validate (spec_Process j) = None \<and> NamespaceSpec_Validate (spec_Namespaces j) = None \<and>
      list_all valid_mount (spec_Mounts j) \<and> on_some ResourceSpec_Validate (spec_Resources j) = None \<and>
      runtime_check j = None \<and> on_some NetworkConfig_Validate (spec_Network j) = None \<and>
      on_some TierConfig_Validate (spec_TierConfig j) = None \<and>
      on_some NestingConfig_Validate (spec_Nesting j) = None \<and>
      on_some PermissionConfig_Validate (spec_Permissions j) = None"
    unfolding ContainerSpec_Validate_def err_seq_None_iff set_append Un_subset_iff mounts_valid_iff
    by simp
  then show ?thesis unfolding valid_spec_def on_some_None_iff validate_defs by simp
qed

text \<open>
  C15: \<open>ContainerSpec.Validate\<close> returns no error exactly on the specifications that the
  contract \<open>valid_spec\<close> describes: version 1.0, a safe name, a command with an absolute
  working directory, user and mount namespaces, well-formed mounts and resources, and
  admissible optional parts.
\<close>

theorem Validate_characterised: "ContainerSpec_Validate j = None \<longleftrightarrow> valid_spec j"
  by (rule Validate_iff)

section \<open>Names as path elements\<close>

lemma name_byte_not [simp]:
  "\<not> name_byte (CHR ''/'')" "\<not> name_byte (CHR ''.'')" "\<not> name_byte (CHR '':'')"
  "\<not> name_byte (CHR '' '')" "\<not> name_byte (CHR 0x27)"
  by (simp_all add: name_byte_def byte_in_def)

lemma valid_name_plain: "valid_name n \<Longrightarrow> plain_elem (n @ ''.lock'')"
  by (cases n) (auto simp: valid_name_def plain_elem_def)

lemma Validate_name:
  "ContainerSpec_Validate j = None \<Longrightarrow> valid_name (md_Name (spec_Metadata j))"
  using err_seq_None_iff by (fastforce simp: ContainerSpec_Validate_def ContainerMetadata_Validate_iff)

text \<open>A small specification, for the concrete instances of the properties.\<close>

definition demo_spec :: ContainerSpec where
  "demo_spec = \<lparr>spec_Version = ''1.0'',
     spec_Metadata = \<lparr>md_Name = ''demo'', md_Description = [], md_Labels = Map.empty\<rparr>,
     spec_Process = \<lparr>proc_Command = [''/bin/sh''], proc_Env = [''A=1''], proc_Cwd = ''/workspace'',
       proc_NetNsName = []\<rparr>,
     spec_Namespaces = \<lparr>ns_User = True, ns_Mount = True, ns_PID = True, ns_Network = False,
       ns_IPC = False, ns_UTS = False\<rparr>,
     spec_Mounts = [], spec_Resources = None, spec_Image = [], spec_Runtime = [],
     spec_Network = None, spec_TierConfig = None, spec_Nesting = None, spec_Permissions = None,
     spec_VsockForwarder = None\<rparr>"

lemma demo_spec_valid: "ContainerSpec_Validate demo_spec = None"
  by code_simp

end
