(* ===== verification/Host_OS.thy ===== *)
theory Host_OS
  imports Misbah_Prelude
begin

text \<open>
  The operating system as the sources use it through packages \<open>os\<close> and \<open>syscall\<close>: a
  file system keyed by path, a process table, and the signals sent so far.
  \<open>h_fault\<close> says which calls the environment makes fail (permissions, a full disk, a
  directory that is not empty), so that every error branch of the sources is reachable.
  Directories are entries of their own; their parents are not tracked.
\<close>

datatype io_op = OpMkdirAll | OpReadFile | OpWriteFile | OpRemove | OpRename | OpStat | OpRemoveAll | OpMkdirTemp

datatype os_error = ErrNotExist | ErrIsDir | ErrNotDir | ErrFault io_op string

datatype node = RegFile string | Directory

datatype signal = Sig0 | SIGTERM | SIGKILL

text \<open>
  A process identifier names no process, a process this user may signal, or a process of
  another user, for which \<open>kill\<close> answers EPERM.
\<close>

datatype proc_status = NoProcess | OwnProcess | ForeignProcess

record host =
  h_fs :: "string \<rightharpoonup> node"
  h_fault :: "io_op \<Rightarrow> string \<Rightarrow> bool"
  h_pid :: int
  h_proc :: "int \<Rightarrow> proc_status"
  h_signals :: "(int \<times> signal) list"
  h_env :: "string \<Rightarrow> string"
  h_clock :: string

definition is_not_exist :: "os_error \<Rightarrow> bool" where
  "is_not_exist e \<longleftrightarrow> e = ErrNotExist"

definition os_read_file :: "string \<Rightarrow> host \<Rightarrow> os_error + string" where
  "os_read_file p h =
     (if h_fault h OpReadFile p then Inl (ErrFault OpReadFile p)
      else case h_fs h p of
             None \<Rightarrow> Inl ErrNotExist
           | Some Directory \<Rightarrow> Inl ErrIsDir
           | Some (RegFile d) \<Rightarrow> Inr d)"

definition os_write_file :: "string \<Rightarrow> string \<Rightarrow> host \<Rightarrow> os_error option \<times> host" where
  "os_write_file p d h =
     (if h_fault h OpWriteFile p then (Some (ErrFault OpWriteFile p), h)
      else if h_fs h p = Some Directory then (Some ErrIsDir, h)
      else (None, h\<lparr>h_fs := (h_fs h)(p \<mapsto> RegFile d)\<rparr>))"

text \<open>\<open>os.OpenFile\<close> with O_CREATE, O_WRONLY and O_APPEND.\<close>

definition os_open_append :: "string \<Rightarrow> host \<Rightarrow> os_error option \<times> host" where
  "os_open_append p h =
     (if h_fault h OpWriteFile p then (Some (ErrFault OpWriteFile p), h)
      else case h_fs h p of
             None \<Rightarrow> (None, h\<lparr>h_fs := (h_fs h)(p \<mapsto> RegFile [])\<rparr>)
           | Some Directory \<Rightarrow> (Some ErrIsDir, h)
           | Some (RegFile d) \<Rightarrow> (None, h))"

definition os_mkdir_all :: "string \<Rightarrow> host \<Rightarrow> os_error option \<times> host" where
  "os_mkdir_all p h =
     (if h_fault h OpMkdirAll p then (Some (ErrFault OpMkdirAll p), h)
      else case h_fs h p of
             Some (RegFile d) \<Rightarrow> (Some ErrNotDir, h)
           | _ \<Rightarrow> (None, h\<lparr>h_fs := (h_fs h)(p \<mapsto> Directory)\<rparr>))"

definition os_remove :: "string \<Rightarrow> host \<Rightarrow> os_error option \<times> host" where
  "os_remove p h =
     (if h_fault h OpRemove p then (Some (ErrFault OpRemove p), h)
      else case h_fs h p of
             None \<Rightarrow> (Some ErrNotExist, h)
           | Some n \<Rightarrow> (None, h\<lparr>h_fs := (h_fs h)(p := None)\<rparr>))"

definition os_remove_all :: "string \<Rightarrow> host \<Rightarrow> os_error option \<times> host" where
  "os_remove_all p h =
     (if h_fault h OpRemoveAll p then (Some (ErrFault OpRemoveAll p), h)
      else (None, h\<lparr>h_fs := (\<lambda>q. if q = p \<or> has_prefix q (p @ ''/'') then None else h_fs h q)\<rparr>))"

definition os_rename :: "string \<Rightarrow> string \<Rightarrow> host \<Rightarrow> os_error option \<times> host" where
  "os_rename a b h =
     (if h_fault h OpRename a then (Some (ErrFault OpRename a), h)
      else case h_fs h a of
             None \<Rightarrow> (Some ErrNotExist, h)
           | Some n \<Rightarrow>
             if h_fs h b = Some Directory then (Some ErrIsDir, h)
             else (None, h\<lparr>h_fs := (h_fs h)(a := None, b \<mapsto> n)\<rparr>))"

definition os_stat :: "string \<Rightarrow> host \<Rightarrow> os_error + node" where
  "os_stat p h =
     (if h_fault h OpStat p then Inl (ErrFault OpStat p)
      else case h_fs h p of None \<Rightarrow> Inl ErrNotExist | Some n \<Rightarrow> Inr n)"

text \<open>\<open>syscall.Kill\<close>: \<open>True\<close> for a nil error; a delivered signal is recorded.\<close>

definition sys_kill :: "int \<Rightarrow> signal \<Rightarrow> host \<Rightarrow> bool \<times> host" where
  "sys_kill pid sig h =
     (if h_proc h pid = OwnProcess
      then (True, if sig = Sig0 then h else h\<lparr>h_signals := h_signals h @ [(pid, sig)]\<rparr>)
      else (False, h))"

definition fault_free :: "host \<Rightarrow> bool" where
  "fault_free h \<longleftrightarrow> (\<forall>op p. \<not> h_fault h op p)"

section \<open>Lemmas\<close>

lemmas os_defs =
  os_read_file_def os_write_file_def os_mkdir_all_def os_remove_def os_remove_all_def
  os_rename_def os_stat_def

lemma os_frame [simp]:
  "h_fault (snd (os_write_file p d h)) = h_fault h" "h_fault (snd (os_mkdir_all p h)) = h_fault h"
  "h_fault (snd (os_remove p h)) = h_fault h" "h_fault (snd (os_rename a b h)) = h_fault h"
  "h_proc (snd (os_write_file p d h)) = h_proc h" "h_proc (snd (os_mkdir_all p h)) = h_proc h"
  "h_proc (snd (os_remove p h)) = h_proc h" "h_proc (snd (os_rename a b h)) = h_proc h"
  "h_pid (snd (os_write_file p d h)) = h_pid h" "h_pid (snd (os_mkdir_all p h)) = h_pid h"
  "h_pid (snd (os_remove p h)) = h_pid h" "h_pid (snd (os_rename a b h)) = h_pid h"
  "h_signals (snd (os_write_file p d h)) = h_signals h" "h_signals (snd (os_mkdir_all p h)) = h_signals h"
  "h_signals (snd (os_remove p h)) = h_signals h" "h_signals (snd (os_rename a b h)) = h_signals h"
  by (auto simp: os_defs split: option.splits node.splits)

lemma os_read_after_write:
  "os_write_file p d h = (None, h') \<Longrightarrow> \<not> h_fault h OpReadFile p \<Longrightarrow> os_read_file p h' = Inr d"
  by (auto simp: os_defs split: if_splits)

lemma os_write_file_NoneD:
  "os_write_file p d h = (None, h') \<Longrightarrow> h' = h\<lparr>h_fs := (h_fs h)(p \<mapsto> RegFile d)\<rparr>"
  by (auto simp: os_write_file_def split: if_splits)

lemma os_remove_NoneD: "os_remove p h = (None, h') \<Longrightarrow> h' = h\<lparr>h_fs := (h_fs h)(p := None)\<rparr>"
  by (auto simp: os_remove_def split: if_splits option.splits)

lemma os_mkdir_all_cases:
  "os_mkdir_all p h = (e, h') \<Longrightarrow> h' = h \<or> (e = None \<and> h' = h\<lparr>h_fs := (h_fs h)(p \<mapsto> Directory)\<rparr>)"
  by (auto simp: os_mkdir_all_def split: if_splits option.splits node.splits)

lemma os_mkdir_all_keeps_files:
  "os_mkdir_all p h = (e, h') \<Longrightarrow> h_fs h q = Some (RegFile d) \<Longrightarrow> h_fs h' q = Some (RegFile d)"
  by (auto simp: os_mkdir_all_def split: if_splits option.splits node.splits)

text \<open>An empty host without faults, for the concrete instances.\<close>

definition demo_host :: host where
  "demo_host = \<lparr>h_fs = Map.empty, h_fault = (\<lambda>_ _. False), h_pid = 100,
     h_proc = (\<lambda>p. if p = 100 then OwnProcess else NoProcess), h_signals = [],
     h_env = (\<lambda>_. []), h_clock = ''now''\<rparr>"

lemma demo_host_simps [simp]:
  "h_fs demo_host = Map.empty" "\<not> h_fault demo_host op p" "h_pid demo_host = 100"
  "h_proc demo_host q = (if q = 100 then OwnProcess else NoProcess)"
  by (simp_all add: demo_host_def)

end
