(* ===== verification/Whitelist_Store.thy ===== *)
theory Whitelist_Store
  imports Permission Container_Spec Host_OS
begin

text \<open>
  The rule store of \<open>daemon/whitelist.go\<close>.  Every operation holds the store's mutex for
  its whole body, so each is one step on the state.  The YAML encoding of the rule file
  is the third-party package yaml.v3: its \<open>Marshal\<close> and \<open>Unmarshal\<close> on the file structure
  are the two functions of a \<open>yaml_codec\<close>, a parameter of the operations that use them.
\<close>

record yaml_codec =
  yaml_Marshal :: "(string \<rightharpoonup> string) \<Rightarrow> go_error + string"
  yaml_Unmarshal :: "string \<Rightarrow> go_error + (string \<rightharpoonup> string)"

record WhitelistStore =
  wl_rules :: "string \<rightharpoonup> Decision"
  wl_filePath :: string

datatype wl_error =
    WlRead os_error
  | WlParse go_error
  | WlMarshal go_error
  | WlMkdir os_error
  | WlWrite os_error

definition NewWhitelistStore :: "string \<Rightarrow> WhitelistStore" where
  "NewWhitelistStore path = \<lparr>wl_rules = Map.empty, wl_filePath = path\<rparr>"

text \<open>\<open>Check\<close>: the decision and whether it was found, as an option.\<close>

definition wl_Check :: "ResourceType \<Rightarrow> string \<Rightarrow> WhitelistStore \<Rightarrow> Decision option" where
  "wl_Check t i w = wl_rules w (ruleKey t i)"

definition wl_Set :: "ResourceType \<Rightarrow> string \<Rightarrow> Decision \<Rightarrow> WhitelistStore \<Rightarrow> WhitelistStore" where
  "wl_Set t i d w = w\<lparr>wl_rules := (wl_rules w)(ruleKey t i \<mapsto> d)\<rparr>"

definition wl_Load :: "yaml_codec \<Rightarrow> WhitelistStore \<Rightarrow> host \<Rightarrow> wl_error option \<times> WhitelistStore" where
  "wl_Load y w h =
     (case os_read_file (wl_filePath w) h of
        Inl e \<Rightarrow> (if is_not_exist e then None else Some (WlRead e), w)
      | Inr data \<Rightarrow>
        (case yaml_Unmarshal y data of
           Inl e \<Rightarrow> (Some (WlParse e), w)
         | Inr f \<Rightarrow> (None, w\<lparr>wl_rules := wl_rules w ++ f\<rparr>)))"

definition wl_Save :: "yaml_codec \<Rightarrow> WhitelistStore \<Rightarrow> host \<Rightarrow> wl_error option \<times> host" where
  "wl_Save y w h =
     (case yaml_Marshal y (wl_rules w) of
        Inl e \<Rightarrow> (Some (WlMarshal e), h)
      | Inr data \<Rightarrow>
        (case os_mkdir_all (dir_path (wl_filePath w)) h of
           (Some e, h1) \<Rightarrow> (Some (WlMkdir e), h1)
         | (None, h1) \<Rightarrow>
           (case os_write_file (wl_filePath w) data h1 of
              (Some e, h2) \<Rightarrow> (Some (WlWrite e), h2)
            | (None, h2) \<Rightarrow> (None, h2))))"

definition allow_all :: "ResourceType \<Rightarrow> string list \<Rightarrow> (string \<rightharpoonup> Decision) \<Rightarrow> (string \<rightharpoonup> Decision)" where
  "allow_all t ids m = foldl (\<lambda>r i. r(ruleKey t i \<mapsto> DecisionAlways)) m ids"

definition wl_LoadFromSpec :: "ContainerSpec \<Rightarrow> WhitelistStore \<Rightarrow> WhitelistStore" where
  "wl_LoadFromSpec s w =
     (case spec_Permissions s of
        None \<Rightarrow> w
      | Some p \<Rightarrow> w\<lparr>wl_rules :=
          allow_all ResourcePackage (perm_PackageWhitelist p)
            (allow_all ResourceMCP (perm_MCPWhitelist p)
              (allow_all ResourceNetwork (perm_NetworkWhitelist p) (wl_rules w)))\<rparr>)"

definition wl_Rules :: "WhitelistStore \<Rightarrow> (string \<rightharpoonup> Decision)" where
  "wl_Rules w = wl_rules w"

section \<open>Lemmas\<close>

lemma wl_Check_Set [simp]:
  "wl_rules (wl_Set t i d w) = (wl_rules w)(ruleKey t i \<mapsto> d)"
  "wl_filePath (wl_Set t i d w) = wl_filePath w"
  by (simp_all add: wl_Set_def)

lemma allow_all_apply:
  "allow_all t ids m k = (if k \<in> ruleKey t ` set ids then Some DecisionAlways else m k)"
  by (induction ids arbitrary: m) (auto simp: allow_all_def)

text \<open>The keys a specification whitelists.\<close>

definition spec_keys :: "ContainerSpec \<Rightarrow> string set" where
  "spec_keys s = (case spec_Permissions s of
     None \<Rightarrow> {}
   | Some p \<Rightarrow> ruleKey ResourceNetwork ` set (perm_NetworkWhitelist p) \<union>
       ruleKey ResourceMCP ` set (perm_MCPWhitelist p) \<union>
       ruleKey ResourcePackage ` set (perm_PackageWhitelist p))"

lemma wl_LoadFromSpec_rules:
  "wl_rules (wl_LoadFromSpec s w) k = (if k \<in> spec_keys s then Some DecisionAlways else wl_rules w k)"
  by (simp add: wl_LoadFromSpec_def spec_keys_def allow_all_apply split: option.splits)

text \<open>
  Loading a specification's whitelist sets exactly the listed resources to ALWAYS
  and leaves every other rule as it was, whatever the store held before.
\<close>

theorem LoadFromSpec_rules:
  "wl_Check t i (wl_LoadFromSpec s w) =
     (if ruleKey t i \<in> spec_keys s then Some DecisionAlways else wl_Check t i w)"
  by (simp add: wl_Check_def wl_LoadFromSpec_rules)

text \<open>
  In particular a DENY that the user gave is overwritten when a container whose own
  specification lists the resource is loaded; the README says a denial blocks permanently.
\<close>

theorem LoadFromSpec_overrides_deny:
  assumes "spec_Permissions s = Some p" and "d \<in> set (perm_NetworkWhitelist p)"
  shows "wl_Check ResourceNetwork d (wl_LoadFromSpec s (wl_Set ResourceNetwork d DecisionDeny w)) =
    Some DecisionAlways"
  using assms by (auto simp: wl_Check_def wl_LoadFromSpec_rules spec_keys_def)

definition listing_spec :: ContainerSpec where
  "listing_spec = demo_spec\<lparr>spec_Permissions := Some \<lparr>perm_NetworkWhitelist = [''evil.test''],
     perm_MCPWhitelist = [], perm_PackageWhitelist = [], perm_DefaultPolicy = ''deny''\<rparr>\<rparr>"

theorem LoadFromSpec_overrides_deny_witness:
  "wl_Check ResourceNetwork ''evil.test''
     (wl_LoadFromSpec listing_spec (wl_Set ResourceNetwork ''evil.test'' DecisionDeny
       (NewWhitelistStore ''/w.yaml''))) = Some DecisionAlways"
  using LoadFromSpec_overrides_deny [of listing_spec "the (spec_Permissions listing_spec)" "''evil.test''"]
  by (simp add: listing_spec_def)

lemma Save_then_Load:
  assumes codec: "\<And>m d. yaml_Marshal y m = Inr d \<Longrightarrow> yaml_Unmarshal y d = Inr m"
    and save: "wl_Save y w h = (None, h')"
    and readable: "\<not> h_fault h OpReadFile (wl_filePath w)"
  shows "wl_Load y (NewWhitelistStore (wl_filePath w)) h' = (None, w)"
proof -
  obtain data h1 where m: "yaml_Marshal y (wl_rules w) = Inr data"
    and d: "os_mkdir_all (dir_path (wl_filePath w)) h = (None, h1)"
    and wr: "os_write_file (wl_filePath w) data h1 = (None, h')"
    using save by (auto simp: wl_Save_def split: sum.splits prod.splits option.splits)
  have "\<not> h_fault h1 OpReadFile (wl_filePath w)"
    using readable os_frame(2) [of "dir_path (wl_filePath w)" h] d by simp
  then have "os_read_file (wl_filePath w) h' = Inr data" by (rule os_read_after_write [OF wr])
  then show ?thesis by (simp add: wl_Load_def NewWhitelistStore_def codec [OF m])
qed

text \<open>
  What \<open>Save\<close> wrote without an error, \<open>Load\<close> of a fresh store on the same path
  reads back: the same decision for every key.  The YAML package is assumed to decode
  what it encoded.
\<close>

theorem Save_Load_roundtrip:
  assumes codec: "\<And>m d. yaml_Marshal y m = Inr d \<Longrightarrow> yaml_Unmarshal y d = Inr m"
    and save: "wl_Save y w h = (None, h')"
    and readable: "\<not> h_fault h OpReadFile (wl_filePath w)"
  shows "wl_Load y (NewWhitelistStore (wl_filePath w)) h' = (None, w)"
  by (rule Save_then_Load [OF assms])

text \<open>A codec for tables of one rule, and a host without faults, for the concrete instance.\<close>

definition one_rule_codec :: yaml_codec where
  "one_rule_codec = \<lparr>
     yaml_Marshal = (\<lambda>m. case m ''mcp:read'' of
        None \<Rightarrow> Inl ''unsupported''
      | Some d \<Rightarrow> if m = [''mcp:read'' \<mapsto> d] then Inr (''mcp:read: '' @ d) else Inl ''unsupported''),
     yaml_Unmarshal = (\<lambda>t. Inr [''mcp:read'' \<mapsto> drop 10 t])\<rparr>"

lemma one_rule_codec_decodes:
  "yaml_Marshal one_rule_codec m = Inr t \<Longrightarrow> yaml_Unmarshal one_rule_codec t = Inr m"
  by (auto simp: one_rule_codec_def split: option.splits if_splits)

theorem Save_Load_roundtrip_witness:
  "\<exists>h'. wl_Load one_rule_codec (NewWhitelistStore ''/etc/w.yaml'') h' =
     (None, wl_Set ResourceMCP ''read'' DecisionDeny (NewWhitelistStore ''/etc/w.yaml''))"
proof -
  define w where "w = wl_Set ResourceMCP ''read'' DecisionDeny (NewWhitelistStore ''/etc/w.yaml'')"
  have r: "wl_rules w = [''mcp:read'' \<mapsto> DecisionDeny]"
    by (simp add: w_def NewWhitelistStore_def ruleKey_def ResourceMCP_def)
  have p: "wl_filePath w = ''/etc/w.yaml''" by (simp add: w_def NewWhitelistStore_def)
  have d: "dir_path ''/etc/w.yaml'' = ''/etc''" by code_simp
  have "\<exists>h'. wl_Save one_rule_codec w demo_host = (None, h')"
    by (simp add: wl_Save_def r p d one_rule_codec_def os_defs)
  then obtain h' where sv: "wl_Save one_rule_codec w demo_host = (None, h')" ..
  have "wl_Load one_rule_codec (NewWhitelistStore (wl_filePath w)) h' = (None, w)"
    by (rule Save_Load_roundtrip [OF one_rule_codec_decodes sv]) simp_all
  then show ?thesis unfolding w_def [symmetric] p by blast
qed

end
