(* ===== verification/Prompter_IO.thy ===== *)
theory Prompter_IO
  imports Permission
begin

text \<open>
  The prompters of \<open>daemon/prompter.go\<close>.  The terminal prompter reads lines with a
  \<open>bufio.Scanner\<close> that it makes anew for every prompt, so the scanner and its buffer are
  modelled as the Go library has them: the buffer starts empty, grows from 4096 bytes to
  65536, is filled by one \<open>Read\<close> at a time, and what it still holds when the prompt
  returns is lost.  A reader is the sequence of chunks that its reads will return and the
  condition at its end; as for a terminal or a pipe, a read returns at least one byte
  unless it fails.  The text written for the user is left out.
\<close>

type_synonym 'p prompter = "PermissionRequest \<Rightarrow> 'p \<Rightarrow> (go_error option \<times> Decision) \<times> 'p"

datatype read_error = EndOfFile | ReadFailed go_error | ErrTooLong

record reader =
  rd_chunks :: "string list"
  rd_end :: read_error

definition rd_read :: "nat \<Rightarrow> reader \<Rightarrow> string \<times> read_error option \<times> reader" where
  "rd_read n r =
     (case dropWhile (\<lambda>c. c = []) (rd_chunks r) of
        [] \<Rightarrow> ([], Some (rd_end r), r\<lparr>rd_chunks := []\<rparr>)
      | c # cs \<Rightarrow> (take n c, None, r\<lparr>rd_chunks := drop n c # cs\<rparr>))"

text \<open>The state of a \<open>bufio.Scanner\<close>: \<open>sc_data\<close> is \<open>buf[start:end]\<close>.\<close>

record scanner =
  sc_start :: nat
  sc_data :: string
  sc_cap :: nat
  sc_err :: "read_error option"

definition new_scanner :: scanner where
  "new_scanner = \<lparr>sc_start = 0, sc_data = [], sc_cap = 0, sc_err = None\<rparr>"

definition startBufSize :: nat where "startBufSize = 4096"
definition maxTokenSize :: nat where "maxTokenSize = 65536"

definition drop_cr :: "string \<Rightarrow> string" where
  "drop_cr s = (if s \<noteq> [] \<and> last s = CHR 0x0D then butlast s else s)"

text \<open>\<open>bufio.ScanLines\<close>: the bytes to advance over and the line, if there is one.\<close>

definition scan_lines :: "string \<Rightarrow> bool \<Rightarrow> (nat \<times> string) option" where
  "scan_lines s at_eof =
     (if at_eof \<and> s = [] then None
      else case index_byte (CHR 0x0A) s of
             Some i \<Rightarrow> Some (i + 1, drop_cr (take i s))
           | None \<Rightarrow> if at_eof then Some (length s, drop_cr s) else None)"

text \<open>
  Making room before a read: data moves to the front when more than half of the buffer
  lies before it or the buffer is full to its end, and a buffer that is full doubles;
  \<open>None\<close> when it has its maximal size already.
\<close>

definition sc_shift :: "scanner \<Rightarrow> scanner" where
  "sc_shift s =
     (if 0 < sc_start s \<and>
         (sc_start s + length (sc_data s) = sc_cap s \<or> sc_cap s div 2 < sc_start s)
      then s\<lparr>sc_start := 0\<rparr> else s)"

definition sc_grow :: "scanner \<Rightarrow> scanner option" where
  "sc_grow s =
     (if sc_start s + length (sc_data s) = sc_cap s then
        (if maxTokenSize \<le> sc_cap s then None
         else Some (s\<lparr>sc_start := 0,
           sc_cap := min (if sc_cap s = 0 then startBufSize else 2 * sc_cap s) maxTokenSize\<rparr>))
      else Some s)"

definition sc_fill :: "scanner \<Rightarrow> reader \<Rightarrow> scanner \<times> reader" where
  "sc_fill s r =
     (case rd_read (sc_cap s - (sc_start s + length (sc_data s))) r of
        (d, e, r') \<Rightarrow> (s\<lparr>sc_data := sc_data s @ d, sc_err := e\<rparr>, r'))"

text \<open>
  \<open>Scanner.Scan\<close>: the next line, or \<open>None\<close> at the end of the input or after an error,
  which \<open>sc_err\<close> then holds.  \<open>n\<close> counts the passes of its loop that may still follow.
\<close>

fun scan_passes :: "nat \<Rightarrow> scanner \<Rightarrow> reader \<Rightarrow> string option \<times> scanner \<times> reader" where
  "scan_passes n s r =
     (case (if sc_data s \<noteq> [] \<or> sc_err s \<noteq> None then scan_lines (sc_data s) (sc_err s \<noteq> None) else None) of
        Some (k, line) \<Rightarrow>
          (Some line, s\<lparr>sc_start := sc_start s + k, sc_data := drop k (sc_data s)\<rparr>, r)
      | None \<Rightarrow>
        if sc_err s \<noteq> None then (None, s\<lparr>sc_start := 0, sc_data := []\<rparr>, r)
        else case sc_grow (sc_shift s) of
               None \<Rightarrow> (None, s\<lparr>sc_err := Some ErrTooLong\<rparr>, r)
             | Some s1 \<Rightarrow>
               (case n of
                  0 \<Rightarrow> (None, s, r)
                | Suc m \<Rightarrow> (case sc_fill s1 r of (s2, r2) \<Rightarrow> scan_passes m s2 r2)))"

declare scan_passes.simps [simp del]

text \<open>
  Every pass that reads takes at least one byte or meets the end, so one more pass than
  the reader has bytes is enough (\<open>scan_fuel_enough\<close> below).
\<close>

definition rd_size :: "reader \<Rightarrow> nat" where
  "rd_size r = length (concat (rd_chunks r))"

definition scan :: "scanner \<Rightarrow> reader \<Rightarrow> string option \<times> scanner \<times> reader" where
  "scan s r = scan_passes (Suc (rd_size r)) s r"

text \<open>The switch of \<open>Prompt\<close> on a line.\<close>

definition prompt_answer :: "string \<Rightarrow> Decision option" where
  "prompt_answer line =
     (let input = trim_space (to_lower line)
      in if input = ''o'' \<or> input = ''once'' then Some DecisionOnce
         else if input = ''a'' \<or> input = ''always'' then Some DecisionAlways
         else if input = ''d'' \<or> input = ''deny'' then Some DecisionDeny
         else None)"

section \<open>A pass of the scanner\<close>

lemmas scanner_defs = new_scanner_def sc_shift_def sc_grow_def sc_fill_def rd_read_def scan_lines_def
  drop_cr_def startBufSize_def maxTokenSize_def

text \<open>All that is still to come: what the buffer holds and what the reader will give.\<close>

definition content :: "scanner \<Rightarrow> reader \<Rightarrow> string" where
  "content s r = sc_data s @ concat (rd_chunks r)"

definition sc_ok :: "scanner \<Rightarrow> bool" where
  "sc_ok s \<longleftrightarrow> sc_start s + length (sc_data s) \<le> sc_cap s \<and> sc_cap s \<le> maxTokenSize"

lemma concat_dropWhile_Nil [simp]: "concat (dropWhile (\<lambda>c. c = []) cs) = concat cs"
  by (induction cs) auto

lemma dropWhile_chunks_Nil [simp]: "dropWhile (\<lambda>c. c = []) cs = [] \<longleftrightarrow> concat cs = []"
  by (induction cs) auto

lemma rd_read_some:
  assumes "concat (rd_chunks r) \<noteq> []" and "0 < n" and "rd_read n r = (d, e, r')"
  shows "d \<noteq> [] \<and> e = None \<and> rd_end r' = rd_end r \<and> concat (rd_chunks r) = d @ concat (rd_chunks r')"
proof -
  obtain c cs where cs: "dropWhile (\<lambda>c. c = []) (rd_chunks r) = c # cs"
    using assms(1) by (cases "dropWhile (\<lambda>c. c = []) (rd_chunks r)") (simp_all only: dropWhile_chunks_Nil)
  then have "c \<noteq> []" using hd_dropWhile [of "\<lambda>c. c = []" "rd_chunks r"] by (simp only: list.sel) blast
  moreover have "concat (rd_chunks r) = c @ concat cs"
    using cs concat_dropWhile_Nil [of "rd_chunks r"] by simp
  ultimately show ?thesis using assms(2,3) cs by (auto simp: rd_read_def)
qed

lemma rd_read_end:
  "concat (rd_chunks r) = [] \<Longrightarrow> rd_read n r = ([], Some (rd_end r), r\<lparr>rd_chunks := []\<rparr>)"
  by (simp only: rd_read_def dropWhile_chunks_Nil [THEN iffD2] list.case)

lemma room_made:
  assumes "sc_ok s" and "length (sc_data s) < maxTokenSize"
  shows "\<exists>s1. sc_grow (sc_shift s) = Some s1 \<and> sc_data s1 = sc_data s \<and> sc_err s1 = sc_err s \<and> sc_ok s1 \<and>
    sc_start s1 + length (sc_data s1) < sc_cap s1"
  using assms by (auto simp: sc_shift_def sc_grow_def sc_ok_def startBufSize_def maxTokenSize_def)

lemma fill_some:
  assumes "sc_ok s" and "sc_start s + length (sc_data s) < sc_cap s" and "concat (rd_chunks r) \<noteq> []"
    and "sc_fill s r = (s', r')"
  shows "sc_ok s' \<and> sc_err s' = None \<and> content s' r' = content s r \<and> rd_size r' < rd_size r \<and>
    rd_end r' = rd_end r"
proof -
  obtain d e r1 where rd: "rd_read (sc_cap s - (sc_start s + length (sc_data s))) r = (d, e, r1)"
    by (metis prod_cases3)
  have p: "d \<noteq> [] \<and> e = None \<and> rd_end r1 = rd_end r \<and> concat (rd_chunks r) = d @ concat (rd_chunks r1)"
    using rd_read_some [OF assms(3) _ rd] assms(2) by simp
  have "length d \<le> sc_cap s - (sc_start s + length (sc_data s))"
    using rd by (auto simp: rd_read_def split: list.splits)
  with p assms rd show ?thesis by (auto simp: sc_fill_def sc_ok_def content_def rd_size_def)
qed

lemma fill_end:
  "concat (rd_chunks r) = [] \<Longrightarrow>
   sc_fill s r = (s\<lparr>sc_err := Some (rd_end r)\<rparr>, r\<lparr>rd_chunks := []\<rparr>)"
  by (simp add: sc_fill_def rd_read_end)

section \<open>A line of the scanner\<close>

text \<open>
  What a scanner keeps between two lines: while it has met no error its data fit the
  buffer, and after the end of the file nothing is left in the reader.
\<close>

definition sc_inv :: "scanner \<Rightarrow> reader \<Rightarrow> bool" where
  "sc_inv s r \<longleftrightarrow> sc_ok s \<and> (sc_err s = None \<or> sc_err s = Some EndOfFile \<and> concat (rd_chunks r) = []) \<and>
     rd_end r = EndOfFile"

lemma new_scanner_inv: "rd_end r = EndOfFile \<Longrightarrow> sc_inv new_scanner r"
  by (simp add: sc_inv_def sc_ok_def new_scanner_def)

lemma scan_lines_found:
  "LF = CHR 0x0A \<Longrightarrow> LF \<notin> set l \<Longrightarrow> scan_lines (l @ LF # t) e = Some (Suc (length l), drop_cr l)"
  by (simp add: scan_lines_def index_byte_append)

lemma scan_lines_open: "CHR 0x0A \<notin> set d \<Longrightarrow> scan_lines d False = None"
  by (simp add: scan_lines_def index_byte_None_iff [THEN iffD2])

lemma scan_lines_eof: "CHR 0x0A \<notin> set d \<Longrightarrow> d \<noteq> [] \<Longrightarrow> scan_lines d True = Some (length d, drop_cr d)"
  by (simp add: scan_lines_def index_byte_None_iff [THEN iffD2])

text \<open>One pass that finds no line and has met no error reads on.\<close>

lemma scan_passes_read:
  assumes "sc_inv s r" and "sc_err s = None" and "CHR 0x0A \<notin> set (sc_data s)"
    and "length (sc_data s) < maxTokenSize"
  obtains s2 r2 where "sc_inv s2 r2" and "content s2 r2 = content s r"
    and "concat (rd_chunks r) \<noteq> [] \<Longrightarrow> rd_size r2 < rd_size r \<and> sc_err s2 = None"
    and "concat (rd_chunks r) = [] \<Longrightarrow> sc_err s2 = Some EndOfFile \<and> sc_data s2 = sc_data s \<and> rd_chunks r2 = []"
    and "\<And>m. scan_passes (Suc m) s r = scan_passes m s2 r2"
proof -
  have ok: "sc_ok s" and eof: "rd_end r = EndOfFile" using assms(1) by (simp_all add: sc_inv_def)
  obtain s1 where g: "sc_grow (sc_shift s) = Some s1" and d: "sc_data s1 = sc_data s"
    and e: "sc_err s1 = sc_err s" and ok1: "sc_ok s1" and room: "sc_start s1 + length (sc_data s1) < sc_cap s1"
    using room_made [OF ok assms(4)] by blast
  obtain s2 r2 where f: "sc_fill s1 r = (s2, r2)" by fastforce
  have step: "scan_passes (Suc m) s r = scan_passes m s2 r2" for m
    by (subst scan_passes.simps) (simp add: assms(2) g f scan_lines_open [OF assms(3)])
  show thesis
  proof (cases "concat (rd_chunks r) = []")
    case True
    then have "s2 = s1\<lparr>sc_err := Some EndOfFile\<rparr>" "r2 = r\<lparr>rd_chunks := []\<rparr>"
      using f eof by (simp_all add: fill_end)
    with True show thesis
      by (intro that [OF _ _ _ _ step]) (use ok1 d eof in \<open>simp_all add: sc_inv_def sc_ok_def content_def\<close>)
  next
    case False
    with fill_some [OF ok1 room False f] show thesis
      by (intro that [OF _ _ _ _ step]) (use d eof in \<open>simp_all add: sc_inv_def content_def\<close>)
  qed
qed

lemma append_eq_before_sep:
  "d @ c = l @ x # rest \<Longrightarrow> x \<notin> set d \<Longrightarrow> \<exists>us. l = d @ us \<and> c = us @ x # rest"
proof (induction d arbitrary: l)
  case (Cons y d)
  then show ?case by (cases l) auto
qed simp

lemma scan_passes_line:
  assumes "sc_inv s r" and "rd_size r < n" and "content s r = l @ CHR 0x0A # rest"
    and "CHR 0x0A \<notin> set l" and "length l < maxTokenSize"
  shows "\<exists>s' r'. scan_passes n s r = (Some (drop_cr l), s', r') \<and> sc_inv s' r' \<and> content s' r' = rest"
  using assms
proof (induction n arbitrary: s r)
  case (Suc m)
  show ?case
  proof (cases "CHR 0x0A \<in> set (sc_data s)")
    case True
    then obtain t where dt: "sc_data s = l @ CHR 0x0A # t" and rest: "rest = t @ concat (rd_chunks r)"
      using Suc.prems(3,4)
      by (auto simp: content_def append_eq_append_conv2 Cons_eq_append_conv append_eq_Cons_conv)
    have "scan_passes (Suc m) s r =
        (Some (drop_cr l), s\<lparr>sc_start := sc_start s + Suc (length l), sc_data := t\<rparr>, r)"
      by (subst scan_passes.simps) (simp add: dt scan_lines_found [OF refl Suc.prems(4)])
    then show ?thesis using Suc.prems(1) by (auto simp: sc_inv_def sc_ok_def content_def rest dt)
  next
    case False
    then obtain us where l: "l = sc_data s @ us" and c: "concat (rd_chunks r) = us @ CHR 0x0A # rest"
      using append_eq_before_sep [OF Suc.prems(3) [unfolded content_def]] by blast
    have ne: "concat (rd_chunks r) \<noteq> []" unfolding c by simp
    have len: "length (sc_data s) \<le> length l" by (simp add: l)
    from ne have "sc_err s = None" using Suc.prems(1) by (auto simp: sc_inv_def)
    then obtain s2 r2 where "sc_inv s2 r2" "content s2 r2 = content s r" "rd_size r2 < rd_size r"
      and st: "scan_passes (Suc m) s r = scan_passes m s2 r2"
      using scan_passes_read [OF Suc.prems(1) _ False] len Suc.prems(5) ne by (metis order_le_less_trans)
    then show ?thesis unfolding st using Suc.prems by (intro Suc.IH) simp_all
  qed
qed simp

lemma scan_passes_last:
  assumes "sc_inv s r" and "rd_size r < n" and "content s r = l" and "l \<noteq> []"
    and "CHR 0x0A \<notin> set l" and "length l < maxTokenSize"
  shows "\<exists>s' r'. scan_passes n s r = (Some (drop_cr l), s', r') \<and> sc_inv s' r' \<and> content s' r' = []"
  using assms
proof (induction n arbitrary: s r)
  case (Suc m)
  have nl: "CHR 0x0A \<notin> set (sc_data s)" and len: "length (sc_data s) < maxTokenSize"
    using Suc.prems(3,5,6) by (auto simp: content_def)
  have eof: "\<exists>s' r'. scan_passes k t q = (Some (drop_cr l), s', r') \<and> sc_inv s' r' \<and> content s' r' = []"
    if "sc_inv t q" "sc_err t = Some EndOfFile" "content t q = l" for k t q
  proof -
    from that have dt: "sc_data t = l" and c: "concat (rd_chunks q) = []" by (auto simp: sc_inv_def content_def)
    have "scan_passes k t q = (Some (drop_cr l), t\<lparr>sc_start := sc_start t + length l, sc_data := []\<rparr>, q)"
      by (subst scan_passes.simps) (simp add: that(2) dt scan_lines_eof [OF Suc.prems(5,4)])
    then show ?thesis using that(1) c by (auto simp: sc_inv_def sc_ok_def content_def dt)
  qed
  show ?case
  proof (cases "sc_err s")
    case None
    obtain s2 r2 where i: "sc_inv s2 r2" and c: "content s2 r2 = content s r"
      and ne: "concat (rd_chunks r) \<noteq> [] \<Longrightarrow> rd_size r2 < rd_size r"
      and em: "concat (rd_chunks r) = [] \<Longrightarrow> sc_err s2 = Some EndOfFile"
      and st: "scan_passes (Suc m) s r = scan_passes m s2 r2"
      using scan_passes_read [OF Suc.prems(1) None nl len] by metis
    show ?thesis
    proof (cases "concat (rd_chunks r) = []")
      case True
      show ?thesis unfolding st by (rule eof [OF i em [OF True]]) (simp add: c Suc.prems(3))
    next
      case False
      show ?thesis unfolding st using i c ne [OF False] Suc.prems by (intro Suc.IH) simp_all
    qed
  next
    case (Some e)
    then have "sc_err s = Some EndOfFile" using Suc.prems(1) by (auto simp: sc_inv_def)
    then show ?thesis using eof Suc.prems(1,3) by blast
  qed
qed simp

lemma scan_passes_empty:
  assumes "sc_inv s r" and "content s r = []" and "0 < n"
  shows "\<exists>s' r'. scan_passes n s r = (None, s', r') \<and> sc_err s' = Some EndOfFile"
proof -
  have stop: "\<exists>s' r'. scan_passes k t q = (None, s', r') \<and> sc_err s' = Some EndOfFile"
    if "sc_err t = Some EndOfFile" "sc_data t = []" for k t q
    by (subst scan_passes.simps) (simp add: that scan_lines_def)
  have d: "sc_data s = []" and c: "concat (rd_chunks r) = []" using assms(2) by (simp_all add: content_def)
  show ?thesis
  proof (cases "sc_err s")
    case None
    obtain m where n: "n = Suc m" using assms(3) gr0_conv_Suc by blast
    have "CHR 0x0A \<notin> set (sc_data s)" "length (sc_data s) < maxTokenSize"
      by (simp_all add: d maxTokenSize_def)
    then obtain s2 r2 where "sc_err s2 = Some EndOfFile" "sc_data s2 = []"
      and st: "scan_passes (Suc m) s r = scan_passes m s2 r2"
      using scan_passes_read [OF assms(1) None] c d by metis
    then show ?thesis unfolding n st by (intro stop)
  next
    case (Some e)
    then have "sc_err s = Some EndOfFile" using assms(1) by (auto simp: sc_inv_def)
    then show ?thesis by (rule stop [OF _ d])
  qed
qed

section \<open>The prompters\<close>

lemma fill_content:
  "sc_fill s r = (s', r') \<Longrightarrow> content s' r' = content s r"
proof -
  assume f: "sc_fill s r = (s', r')"
  have "concat (rd_chunks r) = c @ concat cs" if "dropWhile (\<lambda>c. c = []) (rd_chunks r) = c # cs" for c cs
    using that concat_dropWhile_Nil [of "rd_chunks r"] by simp
  with f show ?thesis
    by (auto simp: sc_fill_def rd_read_def content_def split: list.splits)
qed

lemma scan_passes_consumes:
  "scan_passes n s r = (Some line, s', r') \<Longrightarrow> length (content s' r') < length (content s r)"
proof (induction n arbitrary: s r)
  case 0
  then show ?case
    by (subst (asm) scan_passes.simps)
      (auto simp: scan_lines_def content_def split: if_splits option.splits dest!: index_byte_SomeD)
next
  case (Suc n)
  have room: "sc_data s1 = sc_data s" if "sc_grow (sc_shift s) = Some s1" for s1
    using that by (auto simp: sc_grow_def sc_shift_def split: if_splits)
  from Suc.prems show ?case
    by (subst (asm) scan_passes.simps)
      (auto simp: scan_lines_def content_def split: if_splits option.splits prod.splits
        dest!: index_byte_SomeD room Suc.IH fill_content)
qed

text \<open>\<open>TerminalPrompter.Prompt\<close>: read lines until one is an answer; fail closed at the end.\<close>

function prompt_loop :: "scanner \<Rightarrow> reader \<Rightarrow> (go_error option \<times> Decision) \<times> reader" where
  "prompt_loop s r =
     (case scan s r of
        (None, s', r') \<Rightarrow>
          ((Some (case sc_err s' of
              None \<Rightarrow> ''no input received''
            | Some EndOfFile \<Rightarrow> ''no input received''
            | Some e \<Rightarrow> ''failed to read input''), DecisionDeny), r')
      | (Some line, s', r') \<Rightarrow>
          (case prompt_answer line of
             Some d \<Rightarrow> ((None, d), r')
           | None \<Rightarrow> prompt_loop s' r'))"
  by pat_completeness auto
termination
  by (relation "measure (\<lambda>(s, r). length (content s r))")
    (auto simp: scan_def dest: scan_passes_consumes [OF sym])

declare prompt_loop.simps [simp del]

definition TerminalPrompter_Prompt :: "reader prompter" where
  "TerminalPrompter_Prompt req r = prompt_loop new_scanner r"

definition AutoDenyPrompter_Prompt :: "'p prompter" where
  "AutoDenyPrompter_Prompt req s = ((None, DecisionDeny), s)"

section \<open>What a prompt answers\<close>

text \<open>The lines of a text: a last line need not end in a line feed.\<close>

definition lines_of :: "string \<Rightarrow> string list" where
  "lines_of t = (let ls = split_on (CHR 0x0A) t in if last ls = [] then butlast ls else ls)"

definition first_answer :: "string list \<Rightarrow> go_error option \<times> Decision" where
  "first_answer ls = (case List.map_filter (\<lambda>l. prompt_answer (drop_cr l)) ls of
     [] \<Rightarrow> (Some ''no input received'', DecisionDeny)
   | d # _ \<Rightarrow> (None, d))"

lemma lines_of_simps:
  "CHR 0x0A \<notin> set l \<Longrightarrow> lines_of (l @ CHR 0x0A # rest) = l # lines_of rest"
  "CHR 0x0A \<notin> set l \<Longrightarrow> l \<noteq> [] \<Longrightarrow> lines_of l = [l]"
  "lines_of [] = []"
  by (auto simp: lines_of_def Let_def split_on_append split_on_no_sep butlast_append)

lemma first_answer_simps:
  "first_answer [] = (Some ''no input received'', DecisionDeny)"
  "first_answer (l # ls) = (case prompt_answer (drop_cr l) of Some d \<Rightarrow> (None, d) | None \<Rightarrow> first_answer ls)"
  by (auto simp: first_answer_def map_filter_simps split: option.splits)

lemma text_cases:
  obtains "t = []" | "t \<noteq> []" "CHR 0x0A \<notin> set t"
  | l rest where "t = l @ CHR 0x0A # rest" "CHR 0x0A \<notin> set l"
  using split_list_first [of "CHR 0x0A" t] by blast

lemma prompt_loop_answers:
  assumes "sc_inv s r" and "\<forall>l\<in>set (lines_of (content s r)). length l < maxTokenSize"
  shows "fst (prompt_loop s r) = first_answer (lines_of (content s r))"
  using assms
proof (induction "length (content s r)" arbitrary: s r rule: less_induct)
  case less
  have more: "fst (prompt_loop s r) = first_answer (lines_of (content s r))"
    if ln: "lines_of (content s r) = l # lines_of rest" and short: "length rest < length (content s r)"
      and sc: "\<exists>s' r'. scan s r = (Some (drop_cr l), s', r') \<and> sc_inv s' r' \<and> content s' r' = rest" for l rest
  proof -
    obtain s' r' where sr: "scan s r = (Some (drop_cr l), s', r')" "sc_inv s' r'" "content s' r' = rest"
      using sc by blast
    then have "fst (prompt_loop s' r') = first_answer (lines_of rest)"
      using less.hyps [of s' r'] less.prems(2) short by (simp add: ln)
    then show ?thesis
      by (subst prompt_loop.simps) (simp add: sr(1) ln first_answer_simps split: option.splits)
  qed
  have fuel: "rd_size r < Suc (rd_size r)" by simp
  show ?case
  proof (cases rule: text_cases [of "content s r"])
    case 1
    then obtain s' r' where "scan s r = (None, s', r')" "sc_err s' = Some EndOfFile"
      using scan_passes_empty [OF less.prems(1) 1, of "Suc (rd_size r)"] by (auto simp: scan_def)
    then show ?thesis by (subst prompt_loop.simps) (simp add: 1 lines_of_simps first_answer_simps)
  next
    case 2
    then have ln: "lines_of (content s r) = [content s r]" by (simp add: lines_of_simps)
    then have "length (content s r) < maxTokenSize" using less.prems(2) by simp
    from scan_passes_last [OF less.prems(1) fuel refl 2 this] show ?thesis
      by (intro more [of "content s r" "[]"]) (use 2 ln in \<open>simp_all add: lines_of_simps scan_def\<close>)
  next
    case (3 l rest)
    then have ln: "lines_of (content s r) = l # lines_of rest" by (simp add: lines_of_simps)
    then have "length l < maxTokenSize" using less.prems(2) by simp
    from scan_passes_line [OF less.prems(1) fuel 3 this] show ?thesis
      by (intro more [OF ln]) (use 3 in \<open>simp_all add: scan_def\<close>)
  qed
qed

text \<open>
  C26: however the input is cut into reads, \<open>Prompt\<close> returns the first line that is an
  answer (\<open>o\<close>, \<open>a\<close>, \<open>d\<close> or the whole word, in either case and with white space around
  it), and DENY with an error when there is none; lines of 65536 bytes or more apart,
  which the scanner refuses.  In particular the loop ends.
\<close>

theorem Prompt_first_answer:
  assumes "rd_end r = EndOfFile"
    and "\<forall>l\<in>set (lines_of (concat (rd_chunks r))). length l < maxTokenSize"
  shows "fst (TerminalPrompter_Prompt req r) = first_answer (lines_of (concat (rd_chunks r)))"
proof -
  have "content new_scanner r = concat (rd_chunks r)" by (simp add: content_def new_scanner_def)
  then show ?thesis
    using prompt_loop_answers [OF new_scanner_inv [OF assms(1)]] assms(2)
    by (simp add: TerminalPrompter_Prompt_def)
qed

definition typed_input :: "string list \<Rightarrow> reader" where
  "typed_input cs = \<lparr>rd_chunks = cs, rd_end = EndOfFile\<rparr>"

theorem Prompt_first_answer_witness:
  "fst (TerminalPrompter_Prompt demo_req (typed_input [''ma'', ''ybe'' @ [CHR 0x0A], '' Alwa'', ''ys'' @ [CHR 0x0D, CHR 0x0A]]))
     = (None, DecisionAlways)"
proof -
  let ?r = "typed_input [''ma'', ''ybe'' @ [CHR 0x0A], '' Alwa'', ''ys'' @ [CHR 0x0D, CHR 0x0A]]"
  have l: "lines_of (concat (rd_chunks ?r)) = [''maybe'', '' Always'' @ [CHR 0x0D]]" by code_simp
  have "fst (TerminalPrompter_Prompt demo_req ?r) = first_answer (lines_of (concat (rd_chunks ?r)))"
    by (rule Prompt_first_answer) (simp add: typed_input_def, simp only: l, simp add: maxTokenSize_def)
  also have "\<dots> = (None, DecisionAlways)" unfolding l by code_simp
  finally show ?thesis .
qed

text \<open>
  \<open>Prompt\<close> fails closed: whatever the reader does, the result is one of the three
  answers without an error, or an error together with DENY.
\<close>

theorem Prompt_fail_closed:
  "fst (TerminalPrompter_Prompt req r) \<in>
     {(None, DecisionOnce), (None, DecisionAlways), (None, DecisionDeny)} \<union> range (\<lambda>e. (Some e, DecisionDeny))"
proof -
  have "fst (prompt_loop s r) \<in>
     {(None, DecisionOnce), (None, DecisionAlways), (None, DecisionDeny)} \<union> range (\<lambda>e. (Some e, DecisionDeny))"
    for s r
  proof (induction s r rule: prompt_loop.induct)
    case (1 s r)
    have a: "d \<in> {DecisionOnce, DecisionAlways, DecisionDeny}" if "prompt_answer l = Some d" for l d
      using that by (auto simp: prompt_answer_def Let_def split: if_splits)
    show ?case
    proof (cases "scan s r")
      case (fields line s' r')
      show ?thesis
        by (subst prompt_loop.simps)
          (use 1 [OF fields [symmetric] _ refl] a in \<open>auto simp: fields split: option.splits\<close>)
    qed
  qed
  then show ?thesis by (simp add: TerminalPrompter_Prompt_def)
qed

text \<open>
  The buffer of a prompt does not outlive it: with two answers in one read, as when
  they are piped in, the first prompt takes the first answer and the second prompt finds
  no input and denies, although the user's answer to it was ALWAYS.
\<close>

theorem piped_answers_lost:
  "let r = typed_input [''o'' @ [CHR 0x0A] @ ''a'' @ [CHR 0x0A]];
       (first, r1) = TerminalPrompter_Prompt req r;
       (second, r2) = TerminalPrompter_Prompt req r1
   in first = (None, DecisionOnce) \<and> second = (Some ''no input received'', DecisionDeny)"
proof -
  have ans: "prompt_answer ''o'' = Some DecisionOnce" by code_simp
  have first: "TerminalPrompter_Prompt req (typed_input [[CHR ''o'', CHR 0x0A, CHR ''a'', CHR 0x0A]]) =
      ((None, DecisionOnce), typed_input [[]])"
    by (simp add: TerminalPrompter_Prompt_def typed_input_def prompt_loop.simps scan_def scan_passes.simps
        scanner_defs ans)
  have "TerminalPrompter_Prompt req (typed_input [[]]) =
      ((Some ''no input received'', DecisionDeny), typed_input [])"
    by (simp add: TerminalPrompter_Prompt_def typed_input_def prompt_loop.simps scan_def scan_passes.simps
        scanner_defs)
  then show ?thesis by (simp add: first)
qed

end
