(* ===== verification/Proxy_Cache.thy ===== *)
theory Proxy_Cache
  imports Permission
begin

text \<open>
  The session cache that the three proxies (\<open>proxy/network.go\<close>, \<open>proxy/mcp.go\<close>,
  \<open>proxy/packages.go\<close>) put before their checker: their methods \<open>checkPermission\<close> have
  one body, which differs only in the request that is built for a resource.  The laws of
  \<open>permission_checker\<close> give the lemmas here once for every checker.
\<close>

type_synonym cache = "string \<rightharpoonup> Decision"

text \<open>
  The decision with an error if there was one, the cache, and the state behind the checker.
\<close>

definition cached_check ::
  "'s PermissionChecker \<Rightarrow> (string \<Rightarrow> PermissionRequest) \<Rightarrow> string \<Rightarrow> cache \<Rightarrow> 's \<Rightarrow>
     (go_error option \<times> Decision) \<times> cache \<times> 's" where
  "cached_check pc mk i c s =
     (case c i of
        Some d \<Rightarrow> ((None, d), c, s)
      | None \<Rightarrow>
        (case pc_Check pc (mk i) s of
           (Inl e, s1) \<Rightarrow> ((Some e, DecisionDeny), c, s1)
         | (Inr p, s1) \<Rightarrow>
           if resp_Decision p = DecisionAlways \<or> resp_Decision p = DecisionDeny
           then ((None, resp_Decision p), c(i \<mapsto> resp_Decision p), s1)
           else
             (case pc_Request pc (mk i) s1 of
                (Inl e, s2) \<Rightarrow> ((Some e, DecisionDeny), c, s2)
              | (Inr q, s2) \<Rightarrow>
                ((None, resp_Decision q),
                 if resp_Decision q = DecisionAlways \<or> resp_Decision q = DecisionDeny
                 then c(i \<mapsto> resp_Decision q) else c,
                 s2))))"

lemma cached_check_hit: "c i = Some d \<Longrightarrow> cached_check pc mk i c s = ((None, d), c, s)"
  by (simp add: cached_check_def)

text \<open>A check that fails denies.\<close>

lemma cached_check_fail_closed:
  "cached_check pc mk i c s = ((Some e, d), c', s') \<Longrightarrow> d = DecisionDeny \<and> c' = c"
  by (auto simp: cached_check_def split: option.splits prod.splits sum.splits if_splits)

text \<open>Only kept decisions enter the cache, and only for the resource asked about.\<close>

lemma cached_check_cache:
  assumes "cached_check pc mk i c s = ((e, d), c', s')"
  shows "c' = c \<or> e = None \<and> final d \<and> c' = c(i \<mapsto> d)"
  using assms by (auto simp: cached_check_def final_def split: option.splits prod.splits sum.splits if_splits)

lemma once_not_cached:
  assumes "cached_check pc mk i c s = ((e, DecisionOnce), c', s')"
  shows "c' = c"
  using cached_check_cache [OF assms] by simp

text \<open>The cache tells nothing else than the rule table.\<close>

definition cache_coherent ::
  "('s \<Rightarrow> string \<rightharpoonup> Decision) \<Rightarrow> (PermissionRequest \<Rightarrow> string) \<Rightarrow> (string \<Rightarrow> PermissionRequest) \<Rightarrow> cache \<Rightarrow> 's \<Rightarrow> bool"
where
  "cache_coherent rules key mk c s \<longleftrightarrow> (\<forall>i d. c i = Some d \<longrightarrow> final d \<and> rules s (key (mk i)) = Some d)"

context permission_checker
begin

abbreviation coherent where
  "coherent \<equiv> cache_coherent rules key"

abbreviation check_cached where
  "check_cached \<equiv> cached_check \<lparr>pc_Check = Check, pc_Request = Request\<rparr>"

lemma coherent_empty: "coherent mk Map.empty s"
  by (simp add: cache_coherent_def)

lemma coherent_Request: "coherent mk c s \<Longrightarrow> coherent mk c (snd (Request r s))"
  by (auto simp: cache_coherent_def Request_keeps_final)

lemma coherent_update:
  "coherent mk c s \<Longrightarrow> final d \<Longrightarrow> rules s (key (mk i)) = Some d \<Longrightarrow> coherent mk (c(i \<mapsto> d)) s"
  by (simp add: cache_coherent_def)

lemma check_cached_cases:
  assumes "check_cached mk i c s = ((e, d), c', s')"
  obtains (hit) "c i = Some d" "e = None" "c' = c" "s' = s"
  | (check_failed) "c i = None" "e \<noteq> None" "d = DecisionDeny" "c' = c" "s' = s"
  | (known) "c i = None" "e = None" "final d" "rules s (key (mk i)) = Some d" "c' = c(i \<mapsto> d)" "s' = s"
  | (request_failed) "c i = None" "e \<noteq> None" "d = DecisionDeny" "c' = c" "s' = snd (Request (mk i) s)"
  | (asked) q where "c i = None" "e = None" "fst (Request (mk i) s) = Inr q" "d = resp_Decision q"
      "s' = snd (Request (mk i) s)" "c' = (if final d then c(i \<mapsto> d) else c)"
proof (cases "c i")
  case (Some d0)
  with assms show ?thesis by (intro hit) (simp_all add: cached_check_hit)
next
  case None
  obtain a s1 where ch: "Check (mk i) s = (a, s1)" by fastforce
  then have s1: "s1 = s" using Check_pure [of "mk i" s] by simp
  show ?thesis
  proof (cases a)
    case (Inl err)
    with assms None ch s1 show ?thesis by (intro check_failed) (auto simp: cached_check_def)
  next
    case (Inr p)
    have p: "fst (Check (mk i) s) = Inr p" using ch Inr by simp
    obtain b s2 where rq: "Request (mk i) s = (b, s2)" by fastforce
    show ?thesis
    proof (cases "final (resp_Decision p)")
      case True
      with assms None ch s1 Inr Check_final [OF p True] show ?thesis
        by (intro known) (auto simp: cached_check_def final_def)
    next
      case False
      with assms None ch s1 Inr rq show ?thesis
        by (cases b) (auto simp: cached_check_def final_def intro: request_failed asked)
    qed
  qed
qed

lemma check_cached_coherent:
  assumes "coherent mk c s" and "check_cached mk i c s = ((e, d), c', s')"
  shows "coherent mk c' s'"
  using assms(2)
proof (cases rule: check_cached_cases)
  case (asked q)
  then show ?thesis
    using coherent_Request [OF assms(1)] Request_files_final [OF asked(3)]
    by (auto intro: coherent_update)
qed (use assms(1) coherent_Request coherent_update in auto)

text \<open>A grant that lasts is an ALWAYS of the table; a DENY of the table is obeyed.\<close>

lemma check_cached_final:
  assumes "coherent mk c s" and "check_cached mk i c s = ((None, d), c', s')" and "final d"
  shows "rules s' (key (mk i)) = Some d \<and> c' i = Some d"
  using assms(2)
proof (cases rule: check_cached_cases)
  case hit
  then show ?thesis using assms(1) by (auto simp: cache_coherent_def)
next
  case (asked q)
  then show ?thesis using Request_files_final [OF asked(3)] assms(3) by simp
qed simp_all

lemma check_cached_denied:
  assumes "coherent mk c s" and "check_cached mk i c s = ((e, d), c', s')"
    and "rules s (key (mk i)) = Some DecisionDeny"
  shows "d = DecisionDeny"
  using assms(2)
proof (cases rule: check_cached_cases)
  case hit
  then show ?thesis using assms(1,3) by (auto simp: cache_coherent_def)
next
  case (asked q)
  then show ?thesis using denied_not_granted [OF assms(3)] by simp
qed (use assms(3) in auto)

text \<open>
  A grant of something not kept is an answer to this very request, and leaves no trace:
  the cache is as it was.
\<close>

lemma check_cached_once:
  assumes "check_cached mk i c s = ((None, d), c', s')" and "coherent mk c s" and "\<not> final d"
  shows "c' = c \<and> (\<exists>q. fst (Request (mk i) s) = Inr q \<and> resp_Decision q = d)"
  using assms(1)
proof (cases rule: check_cached_cases)
  case hit
  then show ?thesis using assms(2,3) by (auto simp: cache_coherent_def)
next
  case (asked q)
  then show ?thesis using assms(3) by auto
qed (use assms(3) in auto)

end

end
