(* ===== verification/Permission_Broker.thy ===== *)
theory Permission_Broker
  imports Whitelist_Store Prompter_IO Proxy_Cache
begin

text \<open>
  The permission broker: the audit log of \<open>daemon/audit.go\<close>, the in-process checker of
  \<open>daemon/direct_checker.go\<close>, the permission handlers of \<open>daemon/server.go\<close> and the
  permission calls of \<open>daemon/client.go\<close>.  Their common state is a \<open>broker\<close>.
  An HTTP handler takes the request's method with the result of decoding its JSON body and
  answers \<open>OK\<close> with the value it encodes, or an error status with its message.
\<close>

section \<open>Audit log\<close>

record AuditEntry =
  ae_Timestamp :: string
  ae_Container :: string
  ae_ResourceType :: ResourceType
  ae_ResourceID :: string
  ae_Decision :: Decision
  ae_Source :: string

text \<open>
  The entries written so far, one JSON line each, and whether the writer fails: a failed
  write is only logged.
\<close>

record AuditLogger =
  al_entries :: "AuditEntry list"
  al_broken :: bool

datatype audit_error = AuditMkdir os_error | AuditOpen os_error

definition NewAuditLogger :: "string \<Rightarrow> host \<Rightarrow> (audit_error + AuditLogger) \<times> host" where
  "NewAuditLogger path h =
     (case os_mkdir_all (dir_path path) h of
        (Some e, h1) \<Rightarrow> (Inl (AuditMkdir e), h1)
      | (None, h1) \<Rightarrow>
        (case os_open_append path h1 of
           (Some e, h2) \<Rightarrow> (Inl (AuditOpen e), h2)
         | (None, h2) \<Rightarrow> (Inr \<lparr>al_entries = [], al_broken = False\<rparr>, h2)))"

definition audit_entry :: "string \<Rightarrow> PermissionRequest \<Rightarrow> Decision \<Rightarrow> string \<Rightarrow> AuditEntry" where
  "audit_entry now req d src =
     \<lparr>ae_Timestamp = now, ae_Container = req_Container req, ae_ResourceType = req_ResourceType req,
      ae_ResourceID = req_ResourceID req, ae_Decision = d, ae_Source = src\<rparr>"

definition LogDecision :: "string \<Rightarrow> PermissionRequest \<Rightarrow> Decision \<Rightarrow> string \<Rightarrow> AuditLogger \<Rightarrow> AuditLogger" where
  "LogDecision now req d src a =
     (if al_broken a then a else a\<lparr>al_entries := al_entries a @ [audit_entry now req d src]\<rparr>)"

section \<open>The broker's state and the in-process checker\<close>

record 'p broker =
  bk_whitelist :: WhitelistStore
  bk_prompt :: 'p
  bk_audit :: "AuditLogger option"
  bk_host :: host

abbreviation bk_rules :: "'p broker \<Rightarrow> (string \<rightharpoonup> Decision)" where
  "bk_rules b \<equiv> wl_rules (bk_whitelist b)"

text \<open>\<open>if audit != nil { audit.LogDecision(...) }\<close>\<close>

definition audit_decision :: "PermissionRequest \<Rightarrow> Decision \<Rightarrow> string \<Rightarrow> 'p broker \<Rightarrow> 'p broker" where
  "audit_decision req d src b =
     b\<lparr>bk_audit := map_option (LogDecision (h_clock (bk_host b)) req d src) (bk_audit b)\<rparr>"

text \<open>\<open>whitelist.Set\<close> and \<open>whitelist.Save\<close>, whose error is only logged.\<close>

definition persist_decision :: "yaml_codec \<Rightarrow> PermissionRequest \<Rightarrow> Decision \<Rightarrow> 'p broker \<Rightarrow> 'p broker" where
  "persist_decision y req d b =
     (let w = wl_Set (req_ResourceType req) (req_ResourceID req) d (bk_whitelist b)
      in b\<lparr>bk_whitelist := w, bk_host := snd (wl_Save y w (bk_host b))\<rparr>)"

definition DirectChecker_Check ::
  "PermissionRequest \<Rightarrow> 'p broker \<Rightarrow> (go_error + PermissionResponse) \<times> 'p broker" where
  "DirectChecker_Check req b =
     (case wl_Check (req_ResourceType req) (req_ResourceID req) (bk_whitelist b) of
        None \<Rightarrow> (Inr \<lparr>resp_Decision = DecisionUnknown, resp_Reason = []\<rparr>, b)
      | Some d \<Rightarrow> (Inr \<lparr>resp_Decision = d, resp_Reason = []\<rparr>, b))"

text \<open>The prompt, persist and audit part that follows a whitelist miss.\<close>

definition ask_user ::
  "'p prompter \<Rightarrow> yaml_codec \<Rightarrow> PermissionRequest \<Rightarrow> 'p broker \<Rightarrow> Decision \<times> 'p broker" where
  "ask_user pr y req b =
     (case pr req (bk_prompt b) of
        ((err, d0), p') \<Rightarrow>
          let d = (if err \<noteq> None then DecisionDeny else d0);
              b1 = b\<lparr>bk_prompt := p'\<rparr>;
              b2 = (if d = DecisionAlways \<or> d = DecisionDeny then persist_decision y req d b1 else b1)
          in (d, audit_decision req d ''user'' b2))"

definition DirectChecker_Request ::
  "'p prompter \<Rightarrow> yaml_codec \<Rightarrow> PermissionRequest \<Rightarrow> 'p broker \<Rightarrow>
     (go_error + PermissionResponse) \<times> 'p broker" where
  "DirectChecker_Request pr y req b =
     (case wl_Check (req_ResourceType req) (req_ResourceID req) (bk_whitelist b) of
        Some d \<Rightarrow>
          if d = DecisionAlways \<or> d = DecisionDeny
          then (Inr \<lparr>resp_Decision = d, resp_Reason = ''whitelist''\<rparr>, audit_decision req d ''whitelist'' b)
          else (case ask_user pr y req b of (d', b') \<Rightarrow> (Inr \<lparr>resp_Decision = d', resp_Reason = []\<rparr>, b'))
      | None \<Rightarrow> (case ask_user pr y req b of (d', b') \<Rightarrow> (Inr \<lparr>resp_Decision = d', resp_Reason = []\<rparr>, b')))"

section \<open>The handlers of the daemon\<close>

record 'b http_request =
  hr_Method :: string
  hr_Body :: "go_error + 'b"

datatype 'd reply = OK 'd | HttpError nat string

definition StatusBadRequest :: nat where "StatusBadRequest = 400"
definition StatusMethodNotAllowed :: nat where "StatusMethodNotAllowed = 405"

definition handleRequest ::
  "'p prompter \<Rightarrow> yaml_codec \<Rightarrow> PermissionRequest http_request \<Rightarrow> 'p broker \<Rightarrow>
     PermissionResponse reply \<times> 'p broker" where
  "handleRequest pr y r b =
     (if hr_Method r \<noteq> ''POST'' then (HttpError StatusMethodNotAllowed ''POST required'', b)
      else case hr_Body r of
        Inl e \<Rightarrow> (HttpError StatusBadRequest (''invalid JSON: '' @ e), b)
      | Inr req \<Rightarrow>
        (case (case wl_Check (req_ResourceType req) (req_ResourceID req) (bk_whitelist b) of
                 None \<Rightarrow> None
               | Some d \<Rightarrow> if d = DecisionAlways \<or> d = DecisionDeny then Some d else None) of
           Some d \<Rightarrow>
             (OK \<lparr>resp_Decision = d, resp_Reason = ''whitelist''\<rparr>, audit_decision req d ''whitelist'' b)
         | None \<Rightarrow>
             (case pr req (bk_prompt b) of
                ((err, d0), p') \<Rightarrow>
                  let d = (if err \<noteq> None then DecisionDeny else d0);
                      b1 = b\<lparr>bk_prompt := p'\<rparr>;
                      b2 = (if d = DecisionAlways \<or> d = DecisionDeny then persist_decision y req d b1 else b1)
                  in (OK \<lparr>resp_Decision = d, resp_Reason = []\<rparr>, audit_decision req d ''user'' b2))))"

definition handleCheck ::
  "PermissionRequest http_request \<Rightarrow> 'p broker \<Rightarrow> PermissionResponse reply \<times> 'p broker" where
  "handleCheck r b =
     (if hr_Method r \<noteq> ''POST'' then (HttpError StatusMethodNotAllowed ''POST required'', b)
      else case hr_Body r of
        Inl e \<Rightarrow> (HttpError StatusBadRequest (''invalid JSON: '' @ e), b)
      | Inr req \<Rightarrow>
        (case wl_Check (req_ResourceType req) (req_ResourceID req) (bk_whitelist b) of
           None \<Rightarrow> (OK \<lparr>resp_Decision = DecisionUnknown, resp_Reason = []\<rparr>, b)
         | Some d \<Rightarrow> (OK \<lparr>resp_Decision = d, resp_Reason = []\<rparr>, b)))"

definition handleList :: "'b http_request \<Rightarrow> 'p broker \<Rightarrow> (string \<rightharpoonup> string) reply" where
  "handleList r b =
     (if hr_Method r \<noteq> ''GET'' then HttpError StatusMethodNotAllowed ''GET required''
      else OK (wl_Rules (bk_whitelist b)))"

text \<open>The body is a \<open>ContainerStartRequest\<close>, whose specification may be absent.\<close>

definition handleWhitelistLoad ::
  "yaml_codec \<Rightarrow> ContainerSpec option http_request \<Rightarrow> 'p broker \<Rightarrow> string reply \<times> 'p broker" where
  "handleWhitelistLoad y r b =
     (if hr_Method r \<noteq> ''POST'' then (HttpError StatusMethodNotAllowed ''POST required'', b)
      else case hr_Body r of
        Inl e \<Rightarrow> (HttpError StatusBadRequest (''invalid JSON: '' @ e), b)
      | Inr None \<Rightarrow> (OK ''loaded'', b)
      | Inr (Some spec) \<Rightarrow>
        let w = wl_LoadFromSpec spec (bk_whitelist b)
        in (OK ''loaded'', b\<lparr>bk_whitelist := w, bk_host := snd (wl_Save y w (bk_host b))\<rparr>))"

section \<open>The client\<close>

text \<open>
  The connection between client and daemon: \<open>httpClient.Do\<close> may fail before the daemon
  sees the request or lose its answer.  JSON carries the strings (\<open>json_text\<close>).
\<close>

record transport =
  tr_dial :: "go_error option"
  tr_recv :: "go_error option"

definition wire_req :: "PermissionRequest \<Rightarrow> PermissionRequest" where
  "wire_req req =
     \<lparr>req_Container = json_text (req_Container req), req_ResourceType = json_text (req_ResourceType req),
      req_ResourceID = json_text (req_ResourceID req), req_Description = json_text (req_Description req)\<rparr>"

definition wire_resp :: "PermissionResponse \<Rightarrow> PermissionResponse" where
  "wire_resp p = \<lparr>resp_Decision = json_text (resp_Decision p), resp_Reason = json_text (resp_Reason p)\<rparr>"

text \<open>\<open>Client.post\<close>: the handler at the other end is an argument.\<close>

definition Client_post ::
  "transport \<Rightarrow> (PermissionRequest http_request \<Rightarrow> 's \<Rightarrow> PermissionResponse reply \<times> 's) \<Rightarrow>
     PermissionRequest \<Rightarrow> 's \<Rightarrow> (go_error + PermissionResponse) \<times> 's" where
  "Client_post tr handler req s =
     (case tr_dial tr of
        Some e \<Rightarrow> (Inl (''daemon request: '' @ e), s)
      | None \<Rightarrow>
        (case handler \<lparr>hr_Method = ''POST'', hr_Body = Inr (wire_req req)\<rparr> s of
           (rep, s') \<Rightarrow>
             (case tr_recv tr of
                Some e \<Rightarrow> (Inl (''daemon request: '' @ e), s')
              | None \<Rightarrow>
                (case rep of
                   HttpError st msg \<Rightarrow> (Inl (''daemon returned status '' @ itoa_nat st), s')
                 | OK p \<Rightarrow> (Inr (wire_resp p), s')))))"

definition Client_Check ::
  "transport \<Rightarrow> PermissionRequest \<Rightarrow> 'p broker \<Rightarrow> (go_error + PermissionResponse) \<times> 'p broker" where
  "Client_Check tr = Client_post tr handleCheck"

definition Client_Request ::
  "transport \<Rightarrow> 'p prompter \<Rightarrow> yaml_codec \<Rightarrow> PermissionRequest \<Rightarrow> 'p broker \<Rightarrow>
     (go_error + PermissionResponse) \<times> 'p broker" where
  "Client_Request tr pr y = Client_post tr (handleRequest pr y)"

section \<open>Rules after a request\<close>

lemma broker_frame [simp]:
  "bk_rules (audit_decision req d src b) = bk_rules b"
  "bk_prompt (audit_decision req d src b) = bk_prompt b"
  "bk_whitelist (audit_decision req d src b) = bk_whitelist b"
  "bk_host (audit_decision req d src b) = bk_host b"
  "bk_rules (persist_decision y req d b) = (bk_rules b)(req_key req \<mapsto> d)"
  "bk_audit (persist_decision y req d b) = bk_audit b"
  "bk_prompt (persist_decision y req d b) = bk_prompt b"
  by (simp_all add: audit_decision_def persist_decision_def Let_def)

lemma ask_user_rules:
  "ask_user pr y req b = (d, b') \<Longrightarrow>
   bk_rules b' = (if final d then (bk_rules b)(req_key req \<mapsto> d) else bk_rules b)"
  by (auto simp: ask_user_def Let_def final_def split: prod.splits if_splits)

lemma Request_from_table:
  "bk_rules b (req_key req) = Some d \<Longrightarrow> final d \<Longrightarrow>
   DirectChecker_Request pr y req b =
     (Inr \<lparr>resp_Decision = d, resp_Reason = ''whitelist''\<rparr>, audit_decision req d ''whitelist'' b)"
  by (simp add: DirectChecker_Request_def wl_Check_def final_def)

lemma Request_asks:
  "\<forall>d. bk_rules b (req_key req) = Some d \<longrightarrow> \<not> final d \<Longrightarrow>
   DirectChecker_Request pr y req b =
     (case ask_user pr y req b of (d, b') \<Rightarrow> (Inr \<lparr>resp_Decision = d, resp_Reason = []\<rparr>, b'))"
  by (auto simp: DirectChecker_Request_def wl_Check_def final_def split: option.splits)

interpretation direct: permission_checker
  DirectChecker_Check "DirectChecker_Request pr y" bk_rules req_key for pr :: "'p prompter" and y
proof
  show "snd (DirectChecker_Check r b) = b" for r and b :: "'p broker"
    by (simp add: DirectChecker_Check_def split: option.splits)
  show "resp_Decision p = d \<longleftrightarrow> bk_rules b (req_key r) = Some d"
    if "fst (DirectChecker_Check r b) = Inr p" and "final d" for r p d and b :: "'p broker"
    using that by (auto simp: DirectChecker_Check_def wl_Check_def split: option.splits)
  show "bk_rules (snd (DirectChecker_Request pr y r b)) = bk_rules b \<and>
      (\<forall>p. fst (DirectChecker_Request pr y r b) = Inr p \<longrightarrow> resp_Decision p = d)"
    if "bk_rules b (req_key r) = Some d" and "final d" for r d and b :: "'p broker"
    by (simp add: Request_from_table [OF that])
  show "bk_rules (snd (DirectChecker_Request pr y r b)) = bk_rules b \<and>
      (\<forall>p. fst (DirectChecker_Request pr y r b) = Inr p \<longrightarrow> \<not> final (resp_Decision p)) \<or>
      (\<exists>d. final d \<and> bk_rules (snd (DirectChecker_Request pr y r b)) = (bk_rules b)(req_key r \<mapsto> d) \<and>
        (\<forall>p. fst (DirectChecker_Request pr y r b) = Inr p \<longrightarrow> resp_Decision p = d))"
    if "\<forall>d. bk_rules b (req_key r) = Some d \<longrightarrow> \<not> final d" for r and b :: "'p broker"
  proof -
    obtain d b' where a: "ask_user pr y r b = (d, b')" by fastforce
    show ?thesis unfolding Request_asks [OF that] using ask_user_rules [OF a] by (auto simp: a split: if_splits)
  qed
qed

section \<open>The daemon's handlers are the in-process checker\<close>

definition as_reply :: "(go_error + 'd) \<times> 's \<Rightarrow> 'd reply \<times> 's" where
  "as_reply x = (case x of (Inl e, s) \<Rightarrow> (HttpError 500 e, s) | (Inr d, s) \<Rightarrow> (OK d, s))"

lemma handleRequest_direct:
  "handleRequest pr y \<lparr>hr_Method = ''POST'', hr_Body = Inr req\<rparr> b = as_reply (DirectChecker_Request pr y req b)"
  by (auto simp: handleRequest_def DirectChecker_Request_def ask_user_def as_reply_def Let_def
      split: option.splits prod.splits)

lemma handleCheck_direct:
  "handleCheck \<lparr>hr_Method = ''POST'', hr_Body = Inr req\<rparr> b = as_reply (DirectChecker_Check req b)"
  by (simp add: handleCheck_def DirectChecker_Check_def as_reply_def split: option.splits)

lemma direct_succeeds:
  "\<exists>p. DirectChecker_Check req b = (Inr p, b)"
  "\<exists>p b'. DirectChecker_Request pr y req b = (Inr p, b')"
  by (auto simp: DirectChecker_Check_def DirectChecker_Request_def split: option.splits prod.splits)

text \<open>
  C11: for every request that decodes, the daemon's endpoints \<open>/permission/check\<close> and
  \<open>/permission/request\<close> answer with status 200, the response that the in-process checker
  gives on the same state, and the same new state: the comment "same logic as the daemon
  HTTP endpoints" of \<open>DirectChecker\<close> holds.
\<close>

theorem handlers_equal_DirectChecker:
  "\<exists>p q b'. DirectChecker_Check req b = (Inr p, b) \<and>
     handleCheck \<lparr>hr_Method = ''POST'', hr_Body = Inr req\<rparr> b = (OK p, b) \<and>
     DirectChecker_Request pr y req b = (Inr q, b') \<and>
     handleRequest pr y \<lparr>hr_Method = ''POST'', hr_Body = Inr req\<rparr> b = (OK q, b')"
  using direct_succeeds(1) [of req b] direct_succeeds(2) [of pr y req b]
  by (auto simp: handleCheck_direct handleRequest_direct as_reply_def)

lemma json_text_decision: "final d \<Longrightarrow> json_text x = d \<longleftrightarrow> x = d"
  by (rule json_text_eq_ascii) (auto simp: final_def decision_defs byte_in_def)

lemma Client_Check_shape:
  assumes "DirectChecker_Check (wire_req req) b = (Inr p, b)"
  shows "(\<exists>e. Client_Check tr req b = (Inl e, b)) \<or> Client_Check tr req b = (Inr (wire_resp p), b)"
  by (auto simp: Client_Check_def Client_post_def handleCheck_direct as_reply_def assms split: option.splits)

lemma Client_Request_shape:
  assumes "DirectChecker_Request pr y (wire_req req) b = (Inr p, b')"
  shows "(\<exists>e. Client_Request tr pr y req b = (Inl e, b)) \<or> (\<exists>e. Client_Request tr pr y req b = (Inl e, b')) \<or>
    Client_Request tr pr y req b = (Inr (wire_resp p), b')"
  by (auto simp: Client_Request_def Client_post_def handleRequest_direct as_reply_def assms split: option.splits)

lemma wire_resp_final: "final d \<Longrightarrow> resp_Decision (wire_resp p) = d \<longleftrightarrow> resp_Decision p = d"
  by (simp add: wire_resp_def json_text_decision)

abbreviation wire_key :: "PermissionRequest \<Rightarrow> string" where
  "wire_key r \<equiv> req_key (wire_req r)"

interpretation over_socket: permission_checker
  "Client_Check tr" "Client_Request tr pr y" bk_rules wire_key for tr and pr :: "'p prompter" and y
proof
  fix r and b :: "'p broker"
  obtain p where dc: "DirectChecker_Check (wire_req r) b = (Inr p, b)" using direct_succeeds(1) by blast
  obtain q b' where dr: "DirectChecker_Request pr y (wire_req r) b = (Inr q, b')"
    using direct_succeeds(2) by blast
  have rq: "fst (DirectChecker_Request pr y (wire_req r) b) = Inr q" by (simp add: dr)
  show "snd (Client_Check tr r b) = b" using Client_Check_shape [OF dc, of tr] by auto
  show "resp_Decision p' = d \<longleftrightarrow> bk_rules b (wire_key r) = Some d"
    if "fst (Client_Check tr r b) = Inr p'" and "final d" for p' d
  proof -
    have "p' = wire_resp p" using Client_Check_shape [OF dc, of tr] that(1) by auto
    then show ?thesis
      using direct.Check_final [of "wire_req r" b p d] that(2) wire_resp_final [OF that(2), of p] by (simp add: dc)
  qed
  show "bk_rules (snd (Client_Request tr pr y r b)) = bk_rules b \<and>
      (\<forall>p. fst (Client_Request tr pr y r b) = Inr p \<longrightarrow> resp_Decision p = d)"
    if "bk_rules b (wire_key r) = Some d" and "final d" for d
    using Client_Request_shape [OF dr, of tr] direct.Request_kept [of b "wire_req r" d pr y] that
    by (auto simp: wire_resp_final dr)
  show "bk_rules (snd (Client_Request tr pr y r b)) = bk_rules b \<and>
      (\<forall>p. fst (Client_Request tr pr y r b) = Inr p \<longrightarrow> \<not> final (resp_Decision p)) \<or>
      (\<exists>d. final d \<and> bk_rules (snd (Client_Request tr pr y r b)) = (bk_rules b)(wire_key r \<mapsto> d) \<and>
        (\<forall>p. fst (Client_Request tr pr y r b) = Inr p \<longrightarrow> resp_Decision p = d))"
    if new: "\<forall>d. bk_rules b (wire_key r) = Some d \<longrightarrow> \<not> final d"
  proof (cases "final (resp_Decision q)")
    case True
    then have "bk_rules b' = (bk_rules b)(wire_key r \<mapsto> resp_Decision q)"
      using direct.Request_new [of b "wire_req r" pr y] new dr by auto
    then have rules: "bk_rules (snd (x, b')) = (bk_rules b)(wire_key r \<mapsto> resp_Decision q)" for x :: "go_error + PermissionResponse"
      by simp
    have d: "resp_Decision (wire_resp q) = resp_Decision q" by (simp add: wire_resp_final [OF True])
    from Client_Request_shape [OF dr, of tr] show ?thesis
    proof (elim disjE exE)
      show ?thesis if "Client_Request tr pr y r b = (Inl e, b)" for e
        by (rule disjI1) (simp add: that)
      show ?thesis if "Client_Request tr pr y r b = (Inl e, b')" for e
        unfolding that by (rule disjI2, rule exI [of _ "resp_Decision q"]) (simp only: True rules, simp)
      show ?thesis if "Client_Request tr pr y r b = (Inr (wire_resp q), b')"
        unfolding that by (rule disjI2, rule exI [of _ "resp_Decision q"]) (simp only: True rules, simp add: d)
    qed
  next
    case False
    then have "bk_rules b' = bk_rules b"
      using direct.Request_new [of b "wire_req r" pr y] new dr by auto
    moreover have "\<not> final (resp_Decision (wire_resp q))"
      using False wire_resp_final [of "resp_Decision (wire_resp q)" q] by auto
    ultimately show ?thesis using Client_Request_shape [OF dr, of tr] by auto
  qed
qed

section \<open>What the broker guarantees\<close>

definition demo_broker :: "'p \<Rightarrow> 'p broker" where
  "demo_broker p = \<lparr>bk_whitelist = NewWhitelistStore ''/w'', bk_prompt = p,
     bk_audit = Some \<lparr>al_entries = [], al_broken = False\<rparr>, bk_host = demo_host\<rparr>"

text \<open>
  A kept decision, ALWAYS or DENY, is never changed by permission requests: after any
  sequence of them, made in process, its rule is still the same.
\<close>

theorem kept_decisions_stay:
  assumes "bk_rules b k = Some d" and "final d"
  shows "bk_rules (foldl (\<lambda>b r. snd (DirectChecker_Request pr y r b)) b rs) k = Some d"
  by (rule direct.Requests_keep_final [OF assms])

theorem kept_decisions_stay_witness:
  "bk_rules (foldl (\<lambda>b r. snd (DirectChecker_Request AutoDenyPrompter_Prompt one_rule_codec r b))
     (demo_broker ()\<lparr>bk_whitelist := wl_Set ResourceNetwork ''api.test'' DecisionAlways (NewWhitelistStore ''/w'')\<rparr>)
     [demo_req, demo_req]) (req_key demo_req) = Some DecisionAlways"
  by (rule kept_decisions_stay) (simp_all add: demo_req_def)

lemma grant_consent:
  assumes "fst (DirectChecker_Request pr y req b) = Inr p" and "grants (resp_Decision p)"
  shows "bk_rules b (req_key req) = Some DecisionAlways \<or>
    fst (pr req (bk_prompt b)) = (None, resp_Decision p)"
proof (cases "\<exists>d. bk_rules b (req_key req) = Some d \<and> final d")
  case True
  then show ?thesis using assms grants_final by (auto simp: Request_from_table)
next
  case False
  then have "\<forall>d. bk_rules b (req_key req) = Some d \<longrightarrow> \<not> final d" by blast
  then show ?thesis
    using assms by (auto simp: Request_asks ask_user_def Let_def split: prod.splits if_splits)
qed

text \<open>
  Nothing is granted without consent: a response that grants access either repeats an
  ALWAYS of the rule table or is the answer that the prompter gave to this request
  without an error.
\<close>

theorem grant_needs_consent:
  assumes "fst (DirectChecker_Request pr y req b) = Inr p" and "grants (resp_Decision p)"
  shows "bk_rules b (req_key req) = Some DecisionAlways \<or>
    fst (pr req (bk_prompt b)) = (None, resp_Decision p)"
  by (rule grant_consent [OF assms])

theorem grant_needs_consent_witness:
  "fst (TerminalPrompter_Prompt demo_req (typed_input [''o'' @ [CHR 0x0A]])) = (None, DecisionOnce)"
proof -
  let ?b = "demo_broker (typed_input [''o'' @ [CHR 0x0A]])"
  have ans: "prompt_answer ''o'' = Some DecisionOnce" by code_simp
  have "TerminalPrompter_Prompt demo_req (typed_input [''o'' @ [CHR 0x0A]]) = ((None, DecisionOnce), typed_input [[]])"
    by (simp add: TerminalPrompter_Prompt_def typed_input_def prompt_loop.simps scan_def scan_passes.simps
        scanner_defs ans)
  then have "fst (DirectChecker_Request TerminalPrompter_Prompt one_rule_codec demo_req ?b) =
      Inr \<lparr>resp_Decision = DecisionOnce, resp_Reason = []\<rparr>"
    by (simp add: DirectChecker_Request_def ask_user_def demo_broker_def wl_Check_def NewWhitelistStore_def Let_def)
  from grant_needs_consent [OF this] show ?thesis
    by (simp add: demo_broker_def NewWhitelistStore_def)
qed

text \<open>
  C19: the audit log is complete: with a log whose writer works, every request adds exactly
  one entry, which names the requested resource and the decision that was returned, and
  says whether it came from the whitelist or from the user.
\<close>

theorem requests_are_audited:
  assumes "bk_audit b = Some a" and "\<not> al_broken a"
  shows "\<exists>p a' src. fst (DirectChecker_Request pr y req b) = Inr p \<and>
    bk_audit (snd (DirectChecker_Request pr y req b)) = Some a' \<and>
    al_entries a' = al_entries a @ [audit_entry (h_clock (bk_host b)) req (resp_Decision p) src] \<and>
    src = (if pred_option final (bk_rules b (req_key req)) \<and> bk_rules b (req_key req) \<noteq> None
           then ''whitelist'' else ''user'')"
proof (cases "\<exists>d. bk_rules b (req_key req) = Some d \<and> final d")
  case True
  then show ?thesis using assms by (auto simp: Request_from_table audit_decision_def LogDecision_def)
next
  case False
  then have n: "\<forall>d. bk_rules b (req_key req) = Some d \<longrightarrow> \<not> final d" by blast
  have clock: "h_clock (snd (wl_Save y w h)) = h_clock h" for w h
    by (auto simp: wl_Save_def os_defs split: sum.splits prod.splits option.splits node.splits if_splits)
  have src: "\<not> (pred_option final (bk_rules b (req_key req)) \<and> bk_rules b (req_key req) \<noteq> None)"
    using False by (cases "bk_rules b (req_key req)") auto
  obtain e d0 p' where pr: "pr req (bk_prompt b) = ((e, d0), p')" by (metis prod.collapse)
  show ?thesis unfolding if_not_P [OF src] using assms
    by (auto simp: Request_asks [OF n] ask_user_def pr Let_def audit_decision_def LogDecision_def
        persist_decision_def clock)
qed

theorem requests_are_audited_witness:
  "\<exists>(p :: PermissionResponse) a'. bk_audit (snd (DirectChecker_Request AutoDenyPrompter_Prompt one_rule_codec demo_req (demo_broker ()))) = Some a' \<and>
     al_entries a' = [audit_entry ''now'' demo_req (resp_Decision p) ''user'']"
  using requests_are_audited [of "demo_broker ()" "\<lparr>al_entries = [], al_broken = False\<rparr>"
      AutoDenyPrompter_Prompt one_rule_codec demo_req]
  by (auto simp: demo_broker_def NewWhitelistStore_def demo_host_def)

text \<open>
  An error of the prompter, such as the end of its input, is filed as a permanent
  DENY: the rule is DENY afterwards, and every later request for the resource is denied
  from the whitelist without a prompt.
\<close>

theorem prompter_error_denies_for_good:
  assumes "\<forall>d. bk_rules b (req_key req) = Some d \<longrightarrow> \<not> final d"
    and "fst (pr req (bk_prompt b)) = (Some e, d)"
  shows "bk_rules (snd (DirectChecker_Request pr y req b)) (req_key req) = Some DecisionDeny \<and>
    (let b' = foldl (\<lambda>b r. snd (DirectChecker_Request pr y r b)) (snd (DirectChecker_Request pr y req b)) rs
     in DirectChecker_Request pr y req b' =
        (Inr \<lparr>resp_Decision = DecisionDeny, resp_Reason = ''whitelist''\<rparr>,
         audit_decision req DecisionDeny ''whitelist'' b'))"
proof -
  have r: "bk_rules (snd (DirectChecker_Request pr y req b)) (req_key req) = Some DecisionDeny"
    using assms(2) by (auto simp: Request_asks [OF assms(1)] ask_user_def Let_def split: prod.splits)
  from direct.Requests_keep_final [OF this, of pr y rs] show ?thesis
    using r by (simp add: Let_def Request_from_table)
qed

theorem prompter_error_denies_for_good_witness:
  "bk_rules (snd (DirectChecker_Request TerminalPrompter_Prompt one_rule_codec demo_req (demo_broker (typed_input []))))
     (req_key demo_req) = Some DecisionDeny"
proof -
  have "fst (TerminalPrompter_Prompt demo_req (bk_prompt (demo_broker (typed_input [])))) =
      (Some ''no input received'', DecisionDeny)"
    by (simp add: TerminalPrompter_Prompt_def demo_broker_def typed_input_def prompt_loop.simps scan_def
        scan_passes.simps scanner_defs)
  then show ?thesis
    using prompter_error_denies_for_good [of "demo_broker (typed_input [])" demo_req TerminalPrompter_Prompt
        "''no input received''" DecisionDeny one_rule_codec "[]"]
    by (simp add: demo_broker_def NewWhitelistStore_def)
qed

text \<open>
  C18: a decision the user asked to keep survives a restart: when saving meets no fault, a
  store freshly loaded from the rule file gives the decision that the request returned.
\<close>

theorem decision_survives_restart:
  assumes codec: "\<And>m d. yaml_Marshal y m = Inr d \<Longrightarrow> yaml_Unmarshal y d = Inr m"
    and new: "\<forall>d. bk_rules b (req_key req) = Some d \<longrightarrow> \<not> final d"
    and answer: "pr req (bk_prompt b) = ((None, d), p')" and "final d"
    and saved: "wl_Save y (wl_Set (req_ResourceType req) (req_ResourceID req) d (bk_whitelist b)) (bk_host b) = (None, h')"
    and readable: "\<not> h_fault (bk_host b) OpReadFile (wl_filePath (bk_whitelist b))"
  shows "\<exists>b' w. DirectChecker_Request pr y req b = (Inr \<lparr>resp_Decision = d, resp_Reason = []\<rparr>, b') \<and>
    wl_Load y (NewWhitelistStore (wl_filePath (bk_whitelist b))) (bk_host b') = (None, w) \<and>
    wl_Check (req_ResourceType req) (req_ResourceID req) w = Some d"
proof -
  let ?w = "wl_Set (req_ResourceType req) (req_ResourceID req) d (bk_whitelist b)"
  have f: "d = DecisionAlways \<or> d = DecisionDeny" using \<open>final d\<close> by (simp add: final_def)
  have "wl_Load y (NewWhitelistStore (wl_filePath ?w)) h' = (None, ?w)"
    by (rule Save_then_Load [OF codec saved]) (use readable in simp_all)
  then show ?thesis using f saved
    by (auto simp: Request_asks [OF new] ask_user_def answer Let_def persist_decision_def wl_Check_def)
qed

theorem decision_survives_restart_witness:
  "\<exists>h w. wl_Load one_rule_codec (NewWhitelistStore ''/etc/w.yaml'') h = (None, w) \<and>
     wl_Check ResourceMCP ''read'' w = Some DecisionDeny"
proof -
  define req where "req = demo_req\<lparr>req_ResourceType := ResourceMCP, req_ResourceID := ''read''\<rparr>"
  define b where "b = (demo_broker ())\<lparr>bk_whitelist := NewWhitelistStore ''/etc/w.yaml''\<rparr>"
  have d: "dir_path ''/etc/w.yaml'' = ''/etc''" by code_simp
  have "\<exists>h'. wl_Save one_rule_codec (wl_Set ResourceMCP ''read'' DecisionDeny (bk_whitelist b)) (bk_host b) = (None, h')"
    by (simp add: b_def demo_broker_def wl_Save_def wl_Set_def NewWhitelistStore_def ruleKey_def ResourceMCP_def
        d one_rule_codec_def os_defs)
  then obtain h' where sv: "wl_Save one_rule_codec (wl_Set (req_ResourceType req) (req_ResourceID req) DecisionDeny
      (bk_whitelist b)) (bk_host b) = (None, h')"
    by (auto simp: req_def)
  have "AutoDenyPrompter_Prompt req (bk_prompt b) = ((None, DecisionDeny), ())"
    by (simp add: AutoDenyPrompter_Prompt_def)
  from decision_survives_restart [where pr = AutoDenyPrompter_Prompt, OF one_rule_codec_decodes _ this _ sv]
  show ?thesis by (auto simp: b_def req_def NewWhitelistStore_def demo_broker_def)
qed

end
