(* ===== verification/Package_Wrapper.thy ===== *)
theory Package_Wrapper
  imports Permission_Broker
begin

text \<open>
  The package-manager wrapper of \<open>proxy/packages.go\<close>: the extraction of package names from
  a command line, the permission check of each, and the execution of the real command,
  which is recorded; \<open>run\<close> gives the exit code of a command.
\<close>

type_synonym PackageManager = string

definition PackageManagerApt :: PackageManager where "PackageManagerApt = ''apt''"
definition PackageManagerPip :: PackageManager where "PackageManagerPip = ''pip''"
definition PackageManagerNpm :: PackageManager where "PackageManagerNpm = ''npm''"

lemmas package_manager_defs = PackageManagerApt_def PackageManagerPip_def PackageManagerNpm_def

text \<open>The arguments after the first one that names an install command, if there is one.\<close>

definition after_command :: "string list \<Rightarrow> string list \<Rightarrow> string list option" where
  "after_command cmds args =
     (case dropWhile (\<lambda>a. a \<notin> set cmds) args of [] \<Rightarrow> None | _ # rest \<Rightarrow> Some rest)"

text \<open>\<open>arg[:idx]\<close> for the first, or last, position of a byte after the first one.\<close>

definition cut_first :: "char \<Rightarrow> string \<Rightarrow> string" where
  "cut_first c s = (case index_byte c s of Some i \<Rightarrow> if 0 < i then take i s else s | None \<Rightarrow> s)"

definition cut_last :: "char \<Rightarrow> string \<Rightarrow> string" where
  "cut_last c s = (case last_index_byte c s of Some i \<Rightarrow> if 0 < i then take i s else s | None \<Rightarrow> s)"

definition positional :: "string \<Rightarrow> bool" where
  "positional a \<longleftrightarrow> \<not> has_prefix a ''-''"

definition extractAptPackages :: "string list \<Rightarrow> string list" where
  "extractAptPackages args =
     (case after_command [''install'', ''add''] args of
        None \<Rightarrow> []
      | Some rest \<Rightarrow> filter (\<lambda>a. a \<noteq> []) (map (cut_first (CHR ''='')) (filter positional rest)))"

definition stripPipVersion :: "string \<Rightarrow> string" where
  "stripPipVersion s = takeWhile (\<lambda>c. c \<notin> set ''=><!~'') s"

definition pip_value_flags :: "string list" where
  "pip_value_flags = [''-r'', ''--requirement'', ''-c'', ''--constraint'', ''-e'', ''--editable'', ''-t'',
     ''--target'', ''-i'', ''--index-url'', ''--extra-index-url'']"

fun pip_args :: "bool \<Rightarrow> string list \<Rightarrow> string list" where
  "pip_args skipNext [] = []"
| "pip_args skipNext (a # as) =
     (if skipNext then pip_args False as
      else if a \<in> set pip_value_flags then pip_args True as
      else if has_prefix a ''-'' then pip_args False as
      else if stripPipVersion a \<noteq> [] then stripPipVersion a # pip_args False as
      else pip_args False as)"

definition extractPipPackages :: "string list \<Rightarrow> string list" where
  "extractPipPackages args =
     (case after_command [''install''] args of None \<Rightarrow> [] | Some rest \<Rightarrow> pip_args False rest)"

definition extractNpmPackages :: "string list \<Rightarrow> string list" where
  "extractNpmPackages args =
     (case after_command [''install'', ''i'', ''add''] args of
        None \<Rightarrow> []
      | Some rest \<Rightarrow> filter (\<lambda>a. a \<noteq> []) (map (cut_last (CHR ''@'')) (filter positional rest)))"

definition ExtractPackages :: "PackageManager \<Rightarrow> string list \<Rightarrow> string list" where
  "ExtractPackages pm args =
     (if pm = PackageManagerApt then extractAptPackages args
      else if pm = PackageManagerPip then extractPipPackages args
      else if pm = PackageManagerNpm then extractNpmPackages args
      else [])"

record PackageWrapper =
  pw_container :: string
  pw_cache :: cache

definition NewPackageWrapper :: "string \<Rightarrow> PackageWrapper" where
  "NewPackageWrapper container = \<lparr>pw_container = container, pw_cache = Map.empty\<rparr>"

definition package_request :: "string \<Rightarrow> string \<Rightarrow> PermissionRequest" where
  "package_request container pkg =
     \<lparr>req_Container = container, req_ResourceType = ResourcePackage, req_ResourceID = pkg,
      req_Description = ''Install package: '' @ pkg\<rparr>"

definition PackageWrapper_checkPermission ::
  "'s PermissionChecker \<Rightarrow> string \<Rightarrow> PackageWrapper \<Rightarrow> 's \<Rightarrow>
     (go_error option \<times> Decision) \<times> PackageWrapper \<times> 's" where
  "PackageWrapper_checkPermission pc pkg w s =
     (case cached_check pc (package_request (pw_container w)) pkg (pw_cache w) s of
        (r, c, s') \<Rightarrow> (r, w\<lparr>pw_cache := c\<rparr>, s'))"

text \<open>The loop over the packages: whether all of them were approved.\<close>

fun check_packages ::
  "'s PermissionChecker \<Rightarrow> string list \<Rightarrow> PackageWrapper \<Rightarrow> 's \<Rightarrow> bool \<times> PackageWrapper \<times> 's" where
  "check_packages pc [] w s = (True, w, s)"
| "check_packages pc (pkg # pkgs) w s =
     (case PackageWrapper_checkPermission pc pkg w s of
        ((Some e, d), w', s') \<Rightarrow> (False, w', s')
      | ((None, d), w', s') \<Rightarrow>
        if d \<noteq> DecisionAlways \<and> d \<noteq> DecisionOnce then (False, w', s')
        else check_packages pc pkgs w' s')"

text \<open>\<open>exec\<close>: the exit code of the command, 1 when it could not be run at all.\<close>

type_synonym runner = "string \<Rightarrow> string list \<Rightarrow> int option"

definition pw_exec :: "runner \<Rightarrow> string \<Rightarrow> string list \<Rightarrow> int \<times> (string \<times> string list) list" where
  "pw_exec run binary args =
     (case run binary args of None \<Rightarrow> 1 | Some code \<Rightarrow> code, [(binary, args)])"

definition Wrap ::
  "'s PermissionChecker \<Rightarrow> runner \<Rightarrow> PackageManager \<Rightarrow> string \<Rightarrow> string list \<Rightarrow> PackageWrapper \<Rightarrow> 's \<Rightarrow>
     (int \<times> (string \<times> string list) list) \<times> PackageWrapper \<times> 's" where
  "Wrap pc run pm realBinary args w s =
     (let packages = ExtractPackages pm args
      in if packages = [] then (pw_exec run realBinary args, w, s)
         else case check_packages pc packages w s of
                (True, w', s') \<Rightarrow> (pw_exec run realBinary args, w', s')
              | (False, w', s') \<Rightarrow> ((1, []), w', s'))"

definition WrapperScript :: "PackageManager \<Rightarrow> string \<Rightarrow> string \<Rightarrow> string \<Rightarrow> string" where
  "WrapperScript pm realBinaryPath daemonSocket container =
     str_join [CHR 0x0A]
       [''#!/bin/sh'',
        ''# Misbah package wrapper for '' @ pm,
        ''# Checks permissions via daemon before executing the real package manager'',
        [],
        ''MISBAH_DAEMON_SOCKET='' @ [CHR 0x22] @ daemonSocket @ [CHR 0x22] @ '' MISBAH_CONTAINER='' @
          [CHR 0x22] @ container @ [CHR 0x22] @ '' '' @ [CHR 0x5C],
        ''  misbah-pkg-check '' @ pm @ '' '' @ realBinaryPath @ '' '' @ [CHR 0x22] @ ''$@'' @ [CHR 0x22],
        []]"

section \<open>Every extracted package is approved\<close>

lemma req_key_package [simp]: "req_key (package_request c i) = ruleKey ResourcePackage i"
  by (simp add: package_request_def)

text \<open>
  \<open>answered_once\<close> says that in this very run the \<open>i\<close>-th package was asked about, no rule for it being
  final when its turn came, and that the prompter, in the state in which the checks before it
  had left it, answered ONCE.
\<close>

abbreviation direct_checks :: "'p prompter \<Rightarrow> yaml_codec \<Rightarrow> string list \<Rightarrow> PackageWrapper \<Rightarrow> 'p broker \<Rightarrow> bool \<times> PackageWrapper \<times> 'p broker" where
  "direct_checks pr y \<equiv> check_packages \<lparr>pc_Check = DirectChecker_Check, pc_Request = DirectChecker_Request pr y\<rparr>"

definition answered_once :: "'p prompter \<Rightarrow> yaml_codec \<Rightarrow> string list \<Rightarrow> nat \<Rightarrow> PackageWrapper \<Rightarrow> 'p broker \<Rightarrow> bool" where
  "answered_once pr y pkgs i w b \<longleftrightarrow>
     (case direct_checks pr y (take i pkgs) w b of
        (ok, w1, b1) \<Rightarrow> ok \<and> (\<forall>d. bk_rules b1 (ruleKey ResourcePackage (pkgs ! i)) = Some d \<longrightarrow> \<not> final d) \<and>
          fst (pr (package_request (pw_container w) (pkgs ! i)) (bk_prompt b1)) = (None, DecisionOnce))"

lemma answered_once_Suc:
  assumes "PackageWrapper_checkPermission \<lparr>pc_Check = DirectChecker_Check, pc_Request = DirectChecker_Request pr y\<rparr> pkg w b = ((None, d), w1, b1)"
    and "grants d" and "pw_container w1 = pw_container w"
  shows "answered_once pr y (pkg # pkgs) (Suc i) w b = answered_once pr y pkgs i w1 b1"
  using assms by (auto simp: answered_once_def grants_def)

lemma check_packages_approved:
  fixes b :: "'p broker"
  assumes "cache_coherent bk_rules req_key (package_request (pw_container w)) (pw_cache w) b"
    and "direct_checks pr y pkgs w b = (True, w', b')"
  shows "cache_coherent bk_rules req_key (package_request (pw_container w)) (pw_cache w') b' \<and>
    (\<forall>k d. bk_rules b k = Some d \<longrightarrow> final d \<longrightarrow> bk_rules b' k = Some d) \<and>
    (\<forall>i<length pkgs. bk_rules b' (ruleKey ResourcePackage (pkgs ! i)) = Some DecisionAlways \<or> answered_once pr y pkgs i w b)"
  using assms
proof (induction pkgs arbitrary: w b)
  case (Cons pkg pkgs)
  let ?mk = "package_request (pw_container w)"
  obtain d w1 b1 where ck: "PackageWrapper_checkPermission
      \<lparr>pc_Check = DirectChecker_Check, pc_Request = DirectChecker_Request pr y\<rparr> pkg w b = ((None, d), w1, b1)"
    and g: "grants d"
    and rest: "direct_checks pr y pkgs w1 b1 = (True, w', b')"
    using Cons.prems(2) by (auto simp: grants_def split: prod.splits option.splits if_splits)
  have cc: "direct.check_cached pr y ?mk pkg (pw_cache w) b = ((None, d), pw_cache w1, b1)"
    and c: "pw_container w1 = pw_container w"
    using ck by (auto simp: PackageWrapper_checkPermission_def split: prod.splits)
  have co: "cache_coherent bk_rules req_key (package_request (pw_container w1)) (pw_cache w1) b1"
    using direct.check_cached_coherent [OF Cons.prems(1) cc] by (simp add: c)
  have keep: "bk_rules b1 k = Some d'" if "bk_rules b k = Some d'" "final d'" for k d'
    using cc by (cases rule: direct.check_cached_cases) (simp_all add: that direct.Request_keeps_final [OF that])
  note IH = Cons.IH [OF co rest, unfolded c]
  have first: "bk_rules b' (ruleKey ResourcePackage pkg) = Some DecisionAlways \<or> answered_once pr y (pkg # pkgs) 0 w b"
  proof (cases "bk_rules b' (ruleKey ResourcePackage pkg) = Some DecisionAlways")
    case rule: False
    have nf: "\<not> final d"
      using direct.check_cached_final [OF Cons.prems(1) cc] grants_final [OF g] IH rule by auto
    obtain q where q: "fst (DirectChecker_Request pr y (?mk pkg) b) = Inr q" "resp_Decision q = d"
      using direct.check_cached_once [OF cc Cons.prems(1) nf] by blast
    have "d = DecisionOnce" using g nf by (auto simp: grants_def final_def)
    moreover have "\<not> final d'" if "bk_rules b (ruleKey ResourcePackage pkg) = Some d'" for d'
      using q nf that by (auto simp: DirectChecker_Request_def wl_Check_def final_def Let_def package_request_def split: if_splits prod.splits)
    ultimately have "answered_once pr y (pkg # pkgs) 0 w b"
      using grant_consent [OF q(1)] q(2) g by (auto simp: answered_once_def final_def)
    then show ?thesis ..
  qed simp
  have "bk_rules b' (ruleKey ResourcePackage ((pkg # pkgs) ! i)) = Some DecisionAlways \<or> answered_once pr y (pkg # pkgs) i w b"
    if "i < length (pkg # pkgs)" for i
    using that first IH answered_once_Suc [OF ck g c] by (cases i) simp_all
  then show ?case using IH keep by blast
qed simp

text \<open>
  C17: the real package manager runs only if every package that was extracted from its
  command line is approved: after the run each has an ALWAYS rule, or the prompter answered
  ONCE when this run asked about it; otherwise nothing is executed and the exit code is 1.
\<close>

theorem package_mediation:
  assumes "cache_coherent bk_rules req_key (package_request (pw_container w)) (pw_cache w) b"
    and "Wrap \<lparr>pc_Check = DirectChecker_Check, pc_Request = DirectChecker_Request pr y\<rparr> run pm binary args w b =
      ((code, executed), w', b')"
  shows "executed = [] \<and> code = 1 \<or> executed = [(binary, args)] \<and>
    (\<forall>i<length (ExtractPackages pm args). bk_rules b' (ruleKey ResourcePackage (ExtractPackages pm args ! i)) = Some DecisionAlways \<or>
      answered_once pr y (ExtractPackages pm args) i w b)"
proof (cases "executed = []")
  case True
  then show ?thesis using assms(2)
    by (auto simp: Wrap_def pw_exec_def Let_def split: if_splits prod.splits bool.splits)
next
  case False
  show ?thesis
  proof (cases "ExtractPackages pm args = []")
    case True
    then show ?thesis using assms(2) by (auto simp: Wrap_def pw_exec_def)
  next
    case ne: False
    from assms(2) False ne have ok: "direct_checks pr y (ExtractPackages pm args) w b = (True, w', b')" and r: "executed = [(binary, args)]"
      by (auto simp: Wrap_def pw_exec_def Let_def split: if_splits prod.splits bool.splits)
    show ?thesis using check_packages_approved [OF assms(1) ok] r by simp
  qed
qed

text \<open>Two packages, of which the user allows the first once and denies the second; then the first alone.\<close>

definition scripted :: "Decision list prompter" where
  "scripted r ds = (case ds of [] \<Rightarrow> ((Some ''no input'', DecisionDeny), []) | d # ds' \<Rightarrow> ((None, d), ds'))"

lemmas package_run_defs = Wrap_def PackageWrapper_checkPermission_def cached_check_def NewPackageWrapper_def
  DirectChecker_Check_def wl_Check_def demo_broker_def NewWhitelistStore_def DirectChecker_Request_def ask_user_def
  persist_decision_def audit_decision_def scripted_def package_request_def

theorem package_mediation_witness:
  "\<exists>w' b'. Wrap \<lparr>pc_Check = DirectChecker_Check, pc_Request = DirectChecker_Request scripted one_rule_codec\<rparr>
     (\<lambda>b a. Some 0) ''apt'' ''/usr/bin/apt'' [''install'', ''curl=1.0''] (NewPackageWrapper ''c'') (demo_broker [DecisionOnce, DecisionDeny]) =
   ((0, [(''/usr/bin/apt'', [''install'', ''curl=1.0''])]), w', b') \<and>
   answered_once scripted one_rule_codec [''curl''] 0 (NewPackageWrapper ''c'') (demo_broker [DecisionOnce, DecisionDeny])"
proof -
  let ?pc = "\<lparr>pc_Check = DirectChecker_Check, pc_Request = DirectChecker_Request scripted one_rule_codec\<rparr>"
  let ?b = "demo_broker [DecisionOnce, DecisionDeny]"
  have ex: "ExtractPackages ''apt'' [''install'', ''curl=1.0''] = [''curl'']" by code_simp
  obtain code executed w' b' where s: "Wrap ?pc (\<lambda>b a. Some 0) ''apt'' ''/usr/bin/apt'' [''install'', ''curl=1.0'']
      (NewPackageWrapper ''c'') ?b = ((code, executed), w', b')" by (metis prod.collapse)
  have co: "cache_coherent bk_rules req_key (package_request (pw_container (NewPackageWrapper ''c'')))
      (pw_cache (NewPackageWrapper ''c'')) ?b"
    by (simp add: cache_coherent_def NewPackageWrapper_def)
  have r: "code = 0 \<and> executed \<noteq> [] \<and> bk_rules b' (ruleKey ResourcePackage ''curl'') = None"
    using s by (auto simp: ex package_run_defs pw_exec_def Let_def split: if_splits)
  with package_mediation [OF co s] s show ?thesis by (auto simp: ex)
qed

section \<open>What is extracted\<close>

lemma after_command_first:
  "c \<in> set cmds \<Longrightarrow> \<forall>a\<in>set pre. a \<notin> set cmds \<Longrightarrow> after_command cmds (pre @ c # rest) = Some rest"
  by (simp add: after_command_def)

text \<open>
  For \<open>apt install\<close> and \<open>npm install\<close>, whatever options stand before or among the
  arguments, the packages checked are exactly the positional arguments without their
  version suffix: no positional argument escapes the check and nothing else is checked.
\<close>

theorem apt_npm_extraction:
  assumes "\<forall>a\<in>set pre. a \<notin> {''install'', ''i'', ''add''}"
  shows "set (ExtractPackages PackageManagerApt (pre @ ''install'' # rest)) =
      cut_first (CHR ''='') ` {a \<in> set rest. positional a \<and> a \<noteq> []} \<and>
    set (ExtractPackages PackageManagerNpm (pre @ ''install'' # rest)) =
      cut_last (CHR ''@'') ` {a \<in> set rest. positional a \<and> a \<noteq> []}"
proof -
  have a: "ExtractPackages PackageManagerApt (pre @ ''install'' # rest) =
      filter (\<lambda>a. a \<noteq> []) (map (cut_first (CHR ''='')) (filter positional rest))"
    using assms by (simp add: ExtractPackages_def package_manager_defs extractAptPackages_def after_command_first)
  have n: "ExtractPackages PackageManagerNpm (pre @ ''install'' # rest) =
      filter (\<lambda>a. a \<noteq> []) (map (cut_last (CHR ''@'')) (filter positional rest))"
    using assms by (simp add: ExtractPackages_def package_manager_defs extractNpmPackages_def after_command_first)
  have cut: "cut_first c s = [] \<longleftrightarrow> s = []" "cut_last c s = [] \<longleftrightarrow> s = []" for c s
    by (auto simp: cut_first_def cut_last_def split: option.splits)
  show ?thesis unfolding a n by (auto simp: cut)
qed

theorem apt_npm_extraction_witness:
  "set (ExtractPackages PackageManagerApt ([''-y''] @ ''install'' # [''curl=7'', ''-q''])) = {''curl''}"
proof -
  have "cut_first (CHR ''='') ''curl=7'' = ''curl''" by code_simp
  moreover have "{a \<in> set [''curl=7'', ''-q'']. positional a \<and> a \<noteq> []} = {''curl=7''}"
    by (auto simp: positional_def)
  ultimately show ?thesis using apt_npm_extraction [of "[''-y'']" "[''curl=7'', ''-q'']"] by simp
qed

text \<open>
  \<open>pip install -r FILE\<close> and \<open>pip install -e DIR\<close> are run without any permission
  check: the file's packages are never looked at.  The comment of \<open>extractPipPackages\<close>
  lists the first form as one it handles.
\<close>

theorem pip_requirements_unchecked:
  assumes "flag \<in> {''-r'', ''--requirement'', ''-e'', ''--editable''}"
  shows "Wrap pc run PackageManagerPip binary [''install'', flag, target] w s =
    (pw_exec run binary [''install'', flag, target], w, s)"
proof -
  have "flag \<in> set pip_value_flags" using assms by (auto simp: pip_value_flags_def)
  then show ?thesis
    by (simp add: Wrap_def ExtractPackages_def package_manager_defs extractPipPackages_def after_command_def)
qed

theorem pip_requirements_unchecked_witness:
  "Wrap \<lparr>pc_Check = DirectChecker_Check, pc_Request = DirectChecker_Request AutoDenyPrompter_Prompt one_rule_codec\<rparr>
     (\<lambda>b a. Some 0) PackageManagerPip ''pip'' [''install'', ''-r'', ''evil.txt''] (NewPackageWrapper ''c'') (demo_broker ()) =
   ((0, [(''pip'', [''install'', ''-r'', ''evil.txt''])]), NewPackageWrapper ''c'', demo_broker ())"
  by (subst pip_requirements_unchecked) (simp_all add: pw_exec_def)

end
