(* ===== verification/MCP_Proxy.thy ===== *)
theory MCP_Proxy
  imports Permission_Broker
begin

text \<open>
  The tool-call proxy of \<open>proxy/mcp.go\<close>.  The bytes of a body are parsed into JSON values
  by a parameter \<open>parse\<close>, which fails on malformed text; how \<open>json.Unmarshal\<close> then fills
  the fields of a struct is modelled: object members are taken in order, a member belongs
  to a field when its key equals the field's name up to case, the last such member counts,
  and a member of the wrong type is an error.
\<close>

datatype json = JNull | JBool bool | JNum string | JStr string | JArr "json list" | JObj "(string \<times> json) list"

text \<open>
  The key folding of \<open>encoding/json\<close>: ASCII case, the long s (U+017F) and the Kelvin sign (U+212A).
\<close>

fun fold_key :: "string \<Rightarrow> string" where
  "fold_key [] = []"
| "fold_key (c # cs) =
     (if has_prefix (c # cs) [CHR 0xC5, CHR 0xBF] then CHR ''s'' # fold_key (drop 1 cs)
      else if has_prefix (c # cs) [CHR 0xE2, CHR 0x84, CHR 0xAA] then CHR ''k'' # fold_key (drop 2 cs)
      else lower_byte c # fold_key cs)"

fun decode_string :: "string \<Rightarrow> (string \<times> json) list \<Rightarrow> string \<Rightarrow> string option" where
  "decode_string name [] cur = Some cur"
| "decode_string name ((k, v) # ms) cur =
     (if fold_key k = name then
        (case v of JStr s \<Rightarrow> decode_string name ms s | JNull \<Rightarrow> decode_string name ms cur | _ \<Rightarrow> None)
      else decode_string name ms cur)"

fun decode_raw :: "string \<Rightarrow> (string \<times> json) list \<Rightarrow> json option \<Rightarrow> json option" where
  "decode_raw name [] cur = cur"
| "decode_raw name ((k, v) # ms) cur =
     decode_raw name ms (if fold_key k = name then Some v else cur)"

record mcpRequest =
  mr_JSONRPC :: string
  mr_ID :: "json option"
  mr_Method :: string
  mr_Params :: "json option"

text \<open>\<open>json.Unmarshal(body, &req)\<close> on a parsed body: \<open>None\<close> for an error.\<close>

definition decode_mcpRequest :: "json \<Rightarrow> mcpRequest option" where
  "decode_mcpRequest j =
     (case j of
        JObj ms \<Rightarrow>
          (case (decode_string ''jsonrpc'' ms [], decode_string ''method'' ms []) of
             (Some v, Some m) \<Rightarrow>
               Some \<lparr>mr_JSONRPC = v, mr_ID = decode_raw ''id'' ms None, mr_Method = m,
                     mr_Params = decode_raw ''params'' ms None\<rparr>
           | _ \<Rightarrow> None)
      | JNull \<Rightarrow> Some \<lparr>mr_JSONRPC = [], mr_ID = None, mr_Method = [], mr_Params = None\<rparr>
      | _ \<Rightarrow> None)"

text \<open>
  \<open>json.Unmarshal(req.Params, &call)\<close>, of which only the name is used: absent parameters
  are no JSON text, so an error.
\<close>

definition decode_mcpToolCall :: "json option \<Rightarrow> string option" where
  "decode_mcpToolCall p =
     (case p of
        Some (JObj ms) \<Rightarrow> decode_string ''name'' ms []
      | Some JNull \<Rightarrow> Some []
      | _ \<Rightarrow> None)"

record MCPProxy =
  mp_container :: string
  mp_upstreamPath :: string
  mp_cache :: cache

definition NewMCPProxy :: "string \<Rightarrow> string \<Rightarrow> MCPProxy" where
  "NewMCPProxy container path = \<lparr>mp_container = container, mp_upstreamPath = path, mp_cache = Map.empty\<rparr>"

record mcp_http =
  mh_Method :: string
  mh_Path :: string
  mh_Body :: "go_error + string"

datatype mcp_reply =
    McpError nat "json option" int string
  | McpForwarded nat string

definition mcp_writeError :: "json option \<Rightarrow> int \<Rightarrow> string \<Rightarrow> mcp_reply" where
  "mcp_writeError i code msg = McpError (if code = -32603 then 403 else 400) i code msg"

definition mcp_request :: "string \<Rightarrow> string \<Rightarrow> PermissionRequest" where
  "mcp_request container tool =
     \<lparr>req_Container = container, req_ResourceType = ResourceMCP, req_ResourceID = tool,
      req_Description = ''MCP tool call: '' @ tool\<rparr>"

definition MCPProxy_checkPermission ::
  "'s PermissionChecker \<Rightarrow> string \<Rightarrow> MCPProxy \<Rightarrow> 's \<Rightarrow> (go_error option \<times> Decision) \<times> MCPProxy \<times> 's" where
  "MCPProxy_checkPermission pc tool p s =
     (case cached_check pc (mcp_request (mp_container p)) tool (mp_cache p) s of
        (r, c, s') \<Rightarrow> (r, p\<lparr>mp_cache := c\<rparr>, s'))"

text \<open>
  The upstream server: its answer to a path and a body, or an error when the request
  cannot be made or sent.  \<open>forward\<close> returns the bodies that were sent as well.
\<close>

type_synonym mcp_upstream = "string \<Rightarrow> string \<Rightarrow> (go_error + go_error) + nat \<times> string"

definition mcp_forward ::
  "mcp_upstream \<Rightarrow> mcp_http \<Rightarrow> string \<Rightarrow> MCPProxy \<Rightarrow> mcp_reply \<times> (string \<times> string) list" where
  "mcp_forward up r body p =
     (let path = join_path [mp_upstreamPath p, mh_Path r]
      in case up path body of
           Inl (Inl e) \<Rightarrow> (mcp_writeError None (-32603) ''failed to create upstream request'', [])
         | Inl (Inr e) \<Rightarrow> (mcp_writeError None (-32603) ''upstream MCP server unavailable'', [(path, body)])
         | Inr (st, out) \<Rightarrow> (McpForwarded st out, [(path, body)]))"

text \<open>The message of a refusal is without the quotes that \<open>%q\<close> puts around the name of the tool.\<close>

definition MCPProxy_ServeHTTP ::
  "'s PermissionChecker \<Rightarrow> (string \<Rightarrow> go_error + json) \<Rightarrow> mcp_upstream \<Rightarrow> mcp_http \<Rightarrow> MCPProxy \<Rightarrow> 's \<Rightarrow>
     (mcp_reply \<times> (string \<times> string) list) \<times> MCPProxy \<times> 's" where
  "MCPProxy_ServeHTTP pc parse up r p s =
     (if mh_Method r \<noteq> ''POST'' then ((McpError 405 None (-32600) ''only POST allowed'', []), p, s)
      else case mh_Body r of
        Inl e \<Rightarrow> ((mcp_writeError None (-32700) ''failed to read request body'', []), p, s)
      | Inr body \<Rightarrow>
        (case (case parse body of Inl e \<Rightarrow> None | Inr j \<Rightarrow> decode_mcpRequest j) of
           None \<Rightarrow> ((mcp_writeError None (-32700) ''invalid JSON'', []), p, s)
         | Some req \<Rightarrow>
           if mr_Method req = ''tools/call'' then
             (case decode_mcpToolCall (mr_Params req) of
                None \<Rightarrow> ((mcp_writeError (mr_ID req) (-32602) ''invalid tool call params'', []), p, s)
              | Some name \<Rightarrow>
                (case MCPProxy_checkPermission pc name p s of
                   ((Some e, d), p', s') \<Rightarrow>
                     ((mcp_writeError (mr_ID req) (-32603) (''permission check failed: '' @ e), []), p', s')
                 | ((None, d), p', s') \<Rightarrow>
                   if d \<noteq> DecisionAlways \<and> d \<noteq> DecisionOnce
                   then ((mcp_writeError (mr_ID req) (-32603) (''access denied: tool '' @ name @ '' is not permitted''), []), p', s')
                   else (mcp_forward up r body p', p', s')))
           else (mcp_forward up r body p, p, s)))"

section \<open>Mediation of tool calls\<close>

text \<open>The tool that a body calls, as the proxy reads it.\<close>

definition tool_called :: "(string \<Rightarrow> go_error + json) \<Rightarrow> string \<Rightarrow> string option" where
  "tool_called parse body =
     (case parse body of
        Inl e \<Rightarrow> None
      | Inr j \<Rightarrow>
        (case decode_mcpRequest j of
           None \<Rightarrow> None
         | Some req \<Rightarrow> if mr_Method req = ''tools/call'' then decode_mcpToolCall (mr_Params req) else None))"

lemma mcp_checked:
  assumes "MCPProxy_ServeHTTP pc parse up r p s = ((rep, sent), p', s')" and "mh_Body r = Inr body"
    and "tool_called parse body = Some tool" and "sent \<noteq> []"
  shows "\<exists>d. MCPProxy_checkPermission pc tool p s = ((None, d), p', s') \<and> grants d \<and> snd ` set sent = {body}"
  using assms
  by (auto simp: MCPProxy_ServeHTTP_def tool_called_def mcp_forward_def grants_def Let_def
      split: sum.splits option.splits prod.splits if_splits)

lemma req_key_mcp [simp]: "req_key (mcp_request c i) = ruleKey ResourceMCP i"
  by (simp add: mcp_request_def)

text \<open>
  C16: a tool call that the proxy recognises reaches the upstream server only with
  permission: its body is sent on unchanged, and the tool has an ALWAYS rule afterwards
  or was granted ONCE by the answer to this very call.
\<close>

theorem mcp_mediation:
  assumes "cache_coherent bk_rules req_key (mcp_request (mp_container p)) (mp_cache p) b"
    and "MCPProxy_ServeHTTP \<lparr>pc_Check = DirectChecker_Check, pc_Request = DirectChecker_Request pr y\<rparr> parse up r p b =
      ((rep, sent), p', b')"
    and "mh_Body r = Inr body" and "tool_called parse body = Some tool" and "sent \<noteq> []"
  shows "snd ` set sent = {body} \<and>
    (bk_rules b' (ruleKey ResourceMCP tool) = Some DecisionAlways \<or>
     fst (DirectChecker_Request pr y (mcp_request (mp_container p) tool) b) =
       Inr \<lparr>resp_Decision = DecisionOnce, resp_Reason = []\<rparr>)"
proof -
  let ?mk = "mcp_request (mp_container p)"
  obtain d where ck: "MCPProxy_checkPermission \<lparr>pc_Check = DirectChecker_Check, pc_Request = DirectChecker_Request pr y\<rparr>
      tool p b = ((None, d), p', b')" and g: "grants d" and sent: "snd ` set sent = {body}"
    using mcp_checked [OF assms(2-5)] by blast
  have cc: "direct.check_cached pr y ?mk tool (mp_cache p) b = ((None, d), mp_cache p', b')"
    using ck by (auto simp: MCPProxy_checkPermission_def split: prod.splits)
  show ?thesis
  proof (cases "final d")
    case True
    then show ?thesis
      using direct.check_cached_final [OF assms(1) cc True] grants_final [OF g True] sent by simp
  next
    case False
    then obtain q where q: "fst (DirectChecker_Request pr y (?mk tool) b) = Inr q" "resp_Decision q = d"
      using direct.check_cached_once [OF cc assms(1) False] by blast
    have "resp_Reason q = [] \<or> final (resp_Decision q)"
      using q(1) by (auto simp: DirectChecker_Request_def final_def split: option.splits prod.splits if_splits)
    moreover have "d = DecisionOnce" using g False by (auto simp: grants_def final_def)
    ultimately show ?thesis using q False sent by (cases q) simp
  qed
qed

definition call_body :: "json" where
  "call_body = JObj [(''method'', JStr ''tools/call''), (''params'', JObj [(''name'', JStr ''read'')])]"

theorem mcp_mediation_witness:
  "\<exists>sent p' b'. MCPProxy_ServeHTTP \<lparr>pc_Check = DirectChecker_Check,
      pc_Request = DirectChecker_Request (\<lambda>r s. ((None, DecisionOnce), s)) one_rule_codec\<rparr>
      (\<lambda>t. Inr call_body) (\<lambda>p t. Inr (200, ''done'')) \<lparr>mh_Method = ''POST'', mh_Path = ''/'', mh_Body = Inr ''{}''\<rparr>
      (NewMCPProxy ''c'' ''/mcp'') (demo_broker ()) = ((McpForwarded 200 ''done'', sent), p', b') \<and>
    snd ` set sent = {''{}''}"
proof -
  let ?pr = "\<lambda>r s. ((None, DecisionOnce), s :: unit)"
  let ?r = "\<lparr>mh_Method = ''POST'', mh_Path = ''/'', mh_Body = Inr ''{}''\<rparr>"
  have t: "tool_called (\<lambda>t. Inr call_body) b = Some ''read''" for b by code_simp
  have dr: "decode_mcpRequest call_body = Some \<lparr>mr_JSONRPC = [], mr_ID = None, mr_Method = ''tools/call'',
      mr_Params = Some (JObj [(''name'', JStr ''read'')])\<rparr>" by code_simp
  have dc: "decode_mcpToolCall (Some (JObj [(''name'', JStr ''read'')])) = Some ''read''" by code_simp
  obtain sent p' b' where s: "MCPProxy_ServeHTTP \<lparr>pc_Check = DirectChecker_Check,
      pc_Request = DirectChecker_Request ?pr one_rule_codec\<rparr> (\<lambda>t. Inr call_body) (\<lambda>p t. Inr (200, ''done'')) ?r
      (NewMCPProxy ''c'' ''/mcp'') (demo_broker ()) = ((McpForwarded 200 ''done'', sent), p', b')" and ne: "sent \<noteq> []"
    by (auto simp: MCPProxy_ServeHTTP_def dr dc MCPProxy_checkPermission_def cached_check_def NewMCPProxy_def
        DirectChecker_Check_def wl_Check_def demo_broker_def NewWhitelistStore_def DirectChecker_Request_def
        ask_user_def mcp_forward_def Let_def)
  have "snd ` set sent = {''{}''}"
    using mcp_mediation [OF _ s _ t ne] by (simp add: cache_coherent_def NewMCPProxy_def)
  with s show ?thesis by blast
qed

text \<open>
  The proxy forwards bytes that another reader may understand differently.  Keys are
  matched up to case and the last one counts, so a body with the member \<open>method\<close> set to
  \<open>tools/call\<close> and a later member \<open>Method\<close> set to \<open>ping\<close> is no tool call for the proxy and
  is sent on without a permission check, although a case-sensitive server sees the call.
\<close>

theorem mcp_smuggled_call:
  assumes "parse body = Inr (JObj [(''method'', JStr ''tools/call''), (''params'', ps), (''Method'', JStr ''ping'')])"
    and "mh_Method r = ''POST''" and "mh_Body r = Inr body"
  shows "MCPProxy_ServeHTTP pc parse up r p s = (mcp_forward up r body p, p, s)"
proof -
  have "fold_key ''method'' = ''method''" "fold_key ''params'' = ''params''" "fold_key ''Method'' = ''method''"
    by code_simp+
  then show ?thesis using assms by (simp add: MCPProxy_ServeHTTP_def decode_mcpRequest_def)
qed

theorem mcp_smuggled_call_witness:
  "MCPProxy_ServeHTTP \<lparr>pc_Check = DirectChecker_Check, pc_Request = DirectChecker_Request AutoDenyPrompter_Prompt one_rule_codec\<rparr>
     (\<lambda>t. Inr (JObj [(''method'', JStr ''tools/call''), (''params'', JObj [(''name'', JStr ''rm'')]), (''Method'', JStr ''ping'')]))
     (\<lambda>p t. Inr (200, ''done'')) \<lparr>mh_Method = ''POST'', mh_Path = ''/'', mh_Body = Inr ''x''\<rparr>
     (NewMCPProxy ''c'' ''/mcp'') (demo_broker ()) =
   ((McpForwarded 200 ''done'', [(''/mcp'', ''x'')]), NewMCPProxy ''c'' ''/mcp'', demo_broker ())"
proof -
  have j: "join_path [''/mcp'', ''/''] = ''/mcp''" by code_simp
  have fw: "mcp_forward (\<lambda>p t. Inr (200, ''done'')) \<lparr>mh_Method = ''POST'', mh_Path = ''/'', mh_Body = Inr ''x''\<rparr> ''x''
      (NewMCPProxy ''c'' ''/mcp'') = (McpForwarded 200 ''done'', [(''/mcp'', ''x'')])"
    by (simp add: mcp_forward_def NewMCPProxy_def j)
  show ?thesis unfolding fw [symmetric] by (rule mcp_smuggled_call) simp_all
qed

end
