(* ===== verification/Spec_Files.thy ===== *)
theory Spec_Files
  imports Container_Spec Host_OS
begin

text \<open>
  Container specifications as files: \<open>LoadContainerSpec\<close> and \<open>SaveContainerSpec\<close> of
  \<open>model/container.go\<close>.  The YAML encoding of a specification is the package yaml.v3; its two
  functions are a \<open>spec_codec\<close>.
\<close>

record spec_codec =
  sc_Marshal :: "ContainerSpec \<Rightarrow> go_error + string"
  sc_Unmarshal :: "string \<Rightarrow> go_error + ContainerSpec"

datatype spec_file_error =
    SfRead os_error
  | SfParse go_error
  | SfMarshal go_error
  | SfMkdir os_error
  | SfWrite os_error

definition LoadContainerSpec :: "spec_codec \<Rightarrow> string \<Rightarrow> host \<Rightarrow> spec_file_error + ContainerSpec" where
  "LoadContainerSpec k path h =
     (case os_read_file path h of
        Inl e \<Rightarrow> Inl (SfRead e)
      | Inr data \<Rightarrow>
        (case sc_Unmarshal k data of
           Inl e \<Rightarrow> Inl (SfParse e)
         | Inr spec \<Rightarrow> Inr spec))"

definition SaveContainerSpec ::
  "spec_codec \<Rightarrow> ContainerSpec \<Rightarrow> string \<Rightarrow> host \<Rightarrow> spec_file_error option \<times> host" where
  "SaveContainerSpec k spec path h =
     (case sc_Marshal k spec of
        Inl e \<Rightarrow> (Some (SfMarshal e), h)
      | Inr data \<Rightarrow>
        (case os_mkdir_all (dir_path path) h of
           (Some e, h1) \<Rightarrow> (Some (SfMkdir e), h1)
         | (None, h1) \<Rightarrow>
           (case os_write_file path data h1 of
              (Some e, h2) \<Rightarrow> (Some (SfWrite e), h2)
            | (None, h2) \<Rightarrow> (None, h2))))"

text \<open>
  What the file keeps of a specification: the two fields tagged \<open>yaml:"-"\<close>, which are
  injected at run time, are left out.
\<close>

definition yaml_view :: "ContainerSpec \<Rightarrow> ContainerSpec" where
  "yaml_view s = s\<lparr>spec_VsockForwarder := None, spec_Process := (spec_Process s)\<lparr>proc_NetNsName := []\<rparr>\<rparr>"

text \<open>The documented behaviour of the codec: decoding undoes encoding up to \<open>yaml_view\<close>.\<close>

definition spec_codec_ok :: "spec_codec \<Rightarrow> bool" where
  "spec_codec_ok k \<longleftrightarrow> (\<forall>s d. sc_Marshal k s = Inr d \<longrightarrow> sc_Unmarshal k d = Inr (yaml_view s))"

lemma Save_then_LoadSpec:
  assumes "spec_codec_ok k" and "SaveContainerSpec k spec path h = (None, h')" and "\<not> h_fault h OpReadFile path"
  shows "LoadContainerSpec k path h' = Inr (yaml_view spec)"
proof -
  obtain d h1 where d: "sc_Marshal k spec = Inr d" and m: "os_mkdir_all (dir_path path) h = (None, h1)"
    and w: "os_write_file path d h1 = (None, h')"
    using assms(2) by (auto simp: SaveContainerSpec_def split: sum.splits prod.splits option.splits)
  have "h_fault h1 = h_fault h" using os_frame(2) [of "dir_path path" h] m by simp
  with assms(3) have "os_read_file path h' = Inr d" using os_read_after_write [OF w] by simp
  with d assms(1) show ?thesis by (simp add: LoadContainerSpec_def spec_codec_ok_def)
qed

lemma Load_reads_only_the_path:
  "h_fs h p = h_fs g p \<Longrightarrow> h_fault h = h_fault g \<Longrightarrow> LoadContainerSpec k p h = LoadContainerSpec k p g"
  by (simp add: LoadContainerSpec_def os_read_file_def)

text \<open>
  Validation does not look at the two injected fields, so a specification that was saved
  is valid when it is loaded exactly if it was valid.
\<close>

lemma Validate_yaml_view: "ContainerSpec_Validate (yaml_view s) = ContainerSpec_Validate s"
  by (simp add: ContainerSpec_Validate_def yaml_view_def runtime_check_def ProcessSpec_Validate_def)

text \<open>
  A codec for one specification, for the concrete instances: the file holds the name of the
  specification, and every other name is refused.
\<close>

definition one_spec_codec :: "ContainerSpec \<Rightarrow> spec_codec" where
  "one_spec_codec s = \<lparr>
     sc_Marshal = (\<lambda>t. if yaml_view t = yaml_view s then Inr (md_Name (spec_Metadata s)) else Inl ''unsupported''),
     sc_Unmarshal = (\<lambda>d. if d = md_Name (spec_Metadata s) then Inr (yaml_view s) else Inl ''malformed'')\<rparr>"

lemma one_spec_codec_ok: "spec_codec_ok (one_spec_codec s)"
  by (auto simp: spec_codec_ok_def one_spec_codec_def split: if_splits)

end
