(* ===== verification/MCP_Server.thy ===== *)
theory MCP_Server
  imports MCP_Proxy Spec_Files
begin

text \<open>
  The MCP server of \<open>mcp/server.go\<close>: three tools that create, validate and show container
  specifications.  JSON text is parsed by the parameter of the MCP proxy's model, and requests
  are decoded by the same rules.  The text of a failed tool is a value of \<open>tool_error\<close>.
\<close>

definition MethodInitialize :: string where "MethodInitialize = ''initialize''"
definition MethodListTools :: string where "MethodListTools = ''tools/list''"
definition MethodCallTool :: string where "MethodCallTool = ''tools/call''"

definition ToolContainerCreate :: string where "ToolContainerCreate = ''misbah_container_create''"
definition ToolContainerValidate :: string where "ToolContainerValidate = ''misbah_container_validate''"
definition ToolContainerInspect :: string where "ToolContainerInspect = ''misbah_container_inspect''"

lemmas mcp_names = MethodInitialize_def MethodListTools_def MethodCallTool_def
  ToolContainerCreate_def ToolContainerValidate_def ToolContainerInspect_def

datatype tool_error =
    TeSpecPathRequired
  | TeNameRequired
  | TeInvalidSpec spec_error
  | TeMkdir os_error
  | TeSave spec_file_error
  | TeLoad spec_file_error
  | TeValidation spec_error

text \<open>A \<open>ToolResult\<close>: an error (\<open>IsError\<close>), or the message of the tool.\<close>

datatype ToolResult =
    ToolFailed tool_error
  | SpecCreated string
  | SpecValid string
  | SpecShown ContainerSpec

text \<open>The arguments of a call: a JSON object as a map, later members first.\<close>

type_synonym tool_args = "string \<rightharpoonup> json"

definition json_strings :: "json list \<Rightarrow> string list" where
  "json_strings js = List.map_filter (\<lambda>j. case j of JStr s \<Rightarrow> Some s | _ \<Rightarrow> None) js"

definition created_spec :: "string \<Rightarrow> string list \<Rightarrow> string \<Rightarrow> ContainerSpec" where
  "created_spec name command img =
     \<lparr>spec_Version = ''1.0'',
      spec_Metadata = \<lparr>md_Name = name, md_Description = [], md_Labels = Map.empty\<rparr>,
      spec_Process = \<lparr>proc_Command = command, proc_Env = [], proc_Cwd = ''/container/workspace'', proc_NetNsName = []\<rparr>,
      spec_Namespaces = \<lparr>ns_User = True, ns_Mount = True, ns_PID = True, ns_Network = False, ns_IPC = False, ns_UTS = False\<rparr>,
      spec_Mounts = [], spec_Resources = None, spec_Image = img, spec_Runtime = [], spec_Network = None,
      spec_TierConfig = None, spec_Nesting = None, spec_Permissions = None, spec_VsockForwarder = None\<rparr>"

definition tool_command :: "tool_args \<Rightarrow> string list" where
  "tool_command args = (case args ''command'' of Some (JArr js) \<Rightarrow> json_strings js | _ \<Rightarrow> [''/bin/bash''])"

definition tool_image :: "tool_args \<Rightarrow> string" where
  "tool_image args = (case args ''image'' of Some (JStr s) \<Rightarrow> s | _ \<Rightarrow> [])"

definition toolContainerCreate :: "spec_codec \<Rightarrow> tool_args \<Rightarrow> host \<Rightarrow> ToolResult \<times> host" where
  "toolContainerCreate k args h =
     (case args ''spec_path'' of
        Some (JStr specPath) \<Rightarrow>
          (case args ''name'' of
             Some (JStr name) \<Rightarrow>
               let spec = created_spec name (tool_command args) (tool_image args); dir = dir_path specPath
               in (case ContainerSpec_Validate spec of
                     Some e \<Rightarrow> (ToolFailed (TeInvalidSpec e), h)
                   | None \<Rightarrow>
                     (case (if dir \<noteq> [] \<and> dir \<noteq> ''.'' then os_mkdir_all dir h else (None, h)) of
                        (Some e, h1) \<Rightarrow> (ToolFailed (TeMkdir e), h1)
                      | (None, h1) \<Rightarrow>
                        (case SaveContainerSpec k spec specPath h1 of
                           (Some e, h2) \<Rightarrow> (ToolFailed (TeSave e), h2)
                         | (None, h2) \<Rightarrow> (SpecCreated specPath, h2))))
           | _ \<Rightarrow> (ToolFailed TeNameRequired, h))
      | _ \<Rightarrow> (ToolFailed TeSpecPathRequired, h))"

definition toolContainerValidate :: "spec_codec \<Rightarrow> tool_args \<Rightarrow> host \<Rightarrow> ToolResult" where
  "toolContainerValidate k args h =
     (case args ''spec_path'' of
        Some (JStr specPath) \<Rightarrow>
          (case LoadContainerSpec k specPath h of
             Inl e \<Rightarrow> ToolFailed (TeLoad e)
           | Inr spec \<Rightarrow>
             (case ContainerSpec_Validate spec of
                Some e \<Rightarrow> ToolFailed (TeValidation e)
              | None \<Rightarrow> SpecValid (md_Name (spec_Metadata spec))))
      | _ \<Rightarrow> ToolFailed TeSpecPathRequired)"

definition toolContainerInspect :: "spec_codec \<Rightarrow> tool_args \<Rightarrow> host \<Rightarrow> ToolResult" where
  "toolContainerInspect k args h =
     (case args ''spec_path'' of
        Some (JStr specPath) \<Rightarrow>
          (case LoadContainerSpec k specPath h of
             Inl e \<Rightarrow> ToolFailed (TeLoad e)
           | Inr spec \<Rightarrow> SpecShown spec)
      | _ \<Rightarrow> ToolFailed TeSpecPathRequired)"

section \<open>Requests\<close>

text \<open>
  The field \<open>Arguments\<close> of a call: members of one object, or of several members of that name,
  are stored into one map; null clears it; anything else is an error.
\<close>

fun decode_args :: "(string \<times> json) list \<Rightarrow> tool_args \<Rightarrow> tool_args option" where
  "decode_args [] cur = Some cur"
| "decode_args ((k, v) # ms) cur =
     (if fold_key k = ''arguments'' then
        (case v of
           JObj kvs \<Rightarrow> decode_args ms (foldl (\<lambda>m (key, w). m(key \<mapsto> w)) cur kvs)
         | JNull \<Rightarrow> decode_args ms Map.empty
         | _ \<Rightarrow> None)
      else decode_args ms cur)"

definition decode_ToolCall :: "json option \<Rightarrow> (string \<times> tool_args) option" where
  "decode_ToolCall p =
     (case p of
        Some (JObj ms) \<Rightarrow>
          (case (decode_string ''name'' ms [], decode_args ms Map.empty) of
             (Some n, Some a) \<Rightarrow> Some (n, a)
           | _ \<Rightarrow> None)
      | Some JNull \<Rightarrow> Some ([], Map.empty)
      | _ \<Rightarrow> None)"

datatype mcp_result =
    Initialized string string string
  | ToolList "(string \<times> string) list"
  | ToolCalled ToolResult

definition handleInitialize :: mcp_result where
  "handleInitialize = Initialized ''2024-11-05'' ''misbah'' ''0.2.0''"

text \<open>The tools with their descriptions; the JSON schemas of their arguments are left out.\<close>

definition handleListTools :: mcp_result where
  "handleListTools = ToolList
     [(ToolContainerCreate, ''Create a new container specification file''),
      (ToolContainerValidate, ''Validate a container specification file''),
      (ToolContainerInspect, ''Load and display a container specification'')]"

definition handleCallTool :: "spec_codec \<Rightarrow> json option \<Rightarrow> host \<Rightarrow> (go_error + mcp_result) \<times> host" where
  "handleCallTool k params h =
     (case decode_ToolCall params of
        None \<Rightarrow> (Inl ''invalid tool call params'', h)
      | Some (name, args) \<Rightarrow>
        if name = ToolContainerCreate then
          (case toolContainerCreate k args h of (r, h') \<Rightarrow> (Inr (ToolCalled r), h'))
        else if name = ToolContainerValidate then (Inr (ToolCalled (toolContainerValidate k args h)), h)
        else if name = ToolContainerInspect then (Inr (ToolCalled (toolContainerInspect k args h)), h)
        else (Inl (''unknown tool: '' @ name), h))"

datatype mcp_answer =
    McpFailed nat string
  | McpResponse "json option" mcp_result

definition MCPServer_ServeHTTP ::
  "(string \<Rightarrow> go_error + json) \<Rightarrow> spec_codec \<Rightarrow> mcp_http \<Rightarrow> host \<Rightarrow> mcp_answer \<times> host" where
  "MCPServer_ServeHTTP parse k r h =
     (if mh_Method r \<noteq> ''POST'' then (McpFailed 405 ''only POST requests allowed'', h)
      else case (case mh_Body r of Inl e \<Rightarrow> Inl e | Inr body \<Rightarrow> parse body) of
        Inl e \<Rightarrow> (McpFailed 400 (''invalid JSON: '' @ e), h)
      | Inr j \<Rightarrow>
        (case decode_mcpRequest j of
           None \<Rightarrow> (McpFailed 400 ''invalid JSON'', h)
         | Some req \<Rightarrow>
           let m = mr_Method req;
               answer = (\<lambda>r. case r of (Inl e, h') \<Rightarrow> (McpFailed 500 e, h') | (Inr res, h') \<Rightarrow> (McpResponse (mr_ID req) res, h'))
           in if m = MethodInitialize then answer (Inr handleInitialize, h)
              else if m = MethodListTools then answer (Inr handleListTools, h)
              else if m = MethodCallTool then answer (handleCallTool k (mr_Params req) h)
              else (McpFailed 404 (''unknown method: '' @ m), h)))"

section \<open>Properties\<close>

lemma created_spec_valid: "ContainerSpec_Validate (created_spec n c i) = None \<longleftrightarrow> valid_name n \<and> c \<noteq> []"
  by (simp add: Validate_iff valid_spec_def created_spec_def is_abs_def)

lemma mkdir_keeps_faults: "os_mkdir_all d h = (e, h') \<Longrightarrow> h_fault h' = h_fault h"
  using os_frame(2) [of d h] by simp

text \<open>
  C34: a specification that the tool created passes the validation tool, under its own name, and
  is what the inspection tool shows; nothing is created for a name that does not validate.
\<close>

theorem mcp_create_then_validate:
  assumes "spec_codec_ok k" and "toolContainerCreate k args h = (SpecCreated p, h')" and "\<not> h_fault h OpReadFile p"
  shows "\<exists>name. args ''name'' = Some (JStr name) \<and> valid_name name \<and> toolContainerValidate k args h' = SpecValid name \<and>
    toolContainerInspect k args h' = SpecShown (created_spec name (tool_command args) (tool_image args))"
proof -
  obtain name h1 where a: "args ''spec_path'' = Some (JStr p)" "args ''name'' = Some (JStr name)"
    and v: "ContainerSpec_Validate (created_spec name (tool_command args) (tool_image args)) = None"
    and f: "h_fault h1 = h_fault h"
    and s: "SaveContainerSpec k (created_spec name (tool_command args) (tool_image args)) p h1 = (None, h')"
    using assms(2) by (auto simp: toolContainerCreate_def Let_def split: option.splits json.splits if_splits prod.splits
        dest: mkdir_keeps_faults)
  have "yaml_view (created_spec name c i) = created_spec name c i" for c i by (simp add: yaml_view_def created_spec_def)
  with Save_then_LoadSpec [OF assms(1) s] assms(3) f
  have l: "LoadContainerSpec k p h' = Inr (created_spec name (tool_command args) (tool_image args))" by simp
  have "md_Name (spec_Metadata (created_spec name c i)) = name" for c i by (simp add: created_spec_def)
  then show ?thesis using a v l created_spec_valid [of name "tool_command args" "tool_image args"]
    by (simp add: toolContainerValidate_def toolContainerInspect_def)
qed

definition create_args :: tool_args where
  "create_args = [''spec_path'' \<mapsto> JStr ''/tmp/s.yaml'', ''name'' \<mapsto> JStr ''demo'']"

definition demo_codec :: spec_codec where
  "demo_codec = one_spec_codec (created_spec ''demo'' [''/bin/bash''] [])"

lemma demo_create: "\<exists>h'. toolContainerCreate demo_codec create_args demo_host = (SpecCreated ''/tmp/s.yaml'', h') \<and>
     h_fs h' ''/tmp/s.yaml'' \<noteq> h_fs demo_host ''/tmp/s.yaml''"
proof -
  have d: "dir_path ''/tmp/s.yaml'' = ''/tmp''" by code_simp
  have v: "ContainerSpec_Validate (created_spec ''demo'' [''/bin/bash''] []) = None" by code_simp
  show ?thesis
    by (simp add: toolContainerCreate_def create_args_def demo_codec_def one_spec_codec_def tool_command_def tool_image_def
        Let_def d v SaveContainerSpec_def os_mkdir_all_def os_write_file_def)
qed

theorem mcp_create_then_validate_witness:
  "\<exists>h'. toolContainerCreate demo_codec create_args demo_host = (SpecCreated ''/tmp/s.yaml'', h') \<and>
     toolContainerValidate demo_codec create_args h' = SpecValid ''demo''"
proof -
  obtain h' where c: "toolContainerCreate demo_codec create_args demo_host = (SpecCreated ''/tmp/s.yaml'', h')"
    using demo_create by blast
  have "spec_codec_ok demo_codec" unfolding demo_codec_def by (rule one_spec_codec_ok)
  from mcp_create_then_validate [OF this c] c show ?thesis by (auto simp: create_args_def)
qed

text \<open>The files of a host that an operation may have changed.\<close>

lemma Save_changes:
  assumes "SaveContainerSpec k spec p h = (e, h')" and "h_fs h' q \<noteq> h_fs h q"
  shows "q = p \<or> q = dir_path p"
  using assms by (auto simp: SaveContainerSpec_def os_mkdir_all_def os_write_file_def
      split: sum.splits prod.splits option.splits if_splits node.splits)

lemma mkdir_changes: "os_mkdir_all d h = (e, h') \<Longrightarrow> h_fs h' q \<noteq> h_fs h q \<Longrightarrow> q = d"
  by (auto simp: os_mkdir_all_def split: if_splits option.splits node.splits)

lemma create_changes:
  assumes "toolContainerCreate k args h = (r, h')" and "h_fs h' q \<noteq> h_fs h q"
  shows "\<exists>p name. args ''spec_path'' = Some (JStr p) \<and> args ''name'' = Some (JStr name) \<and> valid_name name \<and> (q = p \<or> q = dir_path p)"
proof -
  obtain p name h1 e where a: "args ''spec_path'' = Some (JStr p)" "args ''name'' = Some (JStr name)"
    and v: "ContainerSpec_Validate (created_spec name (tool_command args) (tool_image args)) = None"
    and m: "(if dir_path p \<noteq> [] \<and> dir_path p \<noteq> ''.'' then os_mkdir_all (dir_path p) h else (None, h)) = (e, h1)"
    and s: "h' = h1 \<or> (\<exists>e'. SaveContainerSpec k (created_spec name (tool_command args) (tool_image args)) p h1 = (e', h'))"
    using assms by (auto simp: toolContainerCreate_def Let_def split: option.splits json.splits if_splits prod.splits)
  have "q = p \<or> q = dir_path p"
  proof (cases "h_fs h1 q = h_fs h q")
    case True
    with s assms(2) show ?thesis using Save_changes by metis
  next
    case False
    with m show ?thesis using mkdir_changes by (metis prod.inject)
  qed
  then show ?thesis using a v created_spec_valid [of name "tool_command args" "tool_image args"] by blast
qed


definition create_call :: json where
  "create_call = JObj [(''method'', JStr ''tools/call''), (''params'', JObj [(''name'', JStr ''misbah_container_create''),
     (''arguments'', JObj [(''spec_path'', JStr ''/tmp/s.yaml''), (''name'', JStr ''demo'')])])]"

lemma decode_create_call:
  "\<exists>req. decode_mcpRequest create_call = Some req \<and> mr_Method req = MethodCallTool \<and>
     decode_ToolCall (mr_Params req) = Some (ToolContainerCreate, create_args)"
proof -
  have "fold_key ''method'' = ''method''" "fold_key ''params'' = ''params''" "fold_key ''name'' = ''name''"
    "fold_key ''arguments'' = ''arguments''" by code_simp+
  then show ?thesis
    by (simp add: create_call_def decode_mcpRequest_def decode_ToolCall_def create_args_def mcp_names fun_upd_twist)
qed


end
