(* ===== verification/MCP_Wire.thy ===== *)
theory MCP_Wire
  imports MCP_Server "HOL-Library.AList" "HOL-Library.List_Lexorder" "HOL-Library.Char_ord"
begin

text \<open>
  What the MCP server of \<open>mcp/server.go\<close> writes: the types of the protocol as the JSON that
  \<open>encoding/json\<close> makes of them, with the tags of their fields, and the status of the HTTP response.
\<close>

section \<open>The types of the protocol\<close>

record ErrorDetail =
  ed_Code :: nat
  ed_Message :: string

record MCPError =
  me_JSONRPC :: string
  me_ID :: "json option"
  me_Error :: ErrorDetail

record MCPResponse =
  ms_JSONRPC :: string
  ms_ID :: "json option"
  ms_Result :: json

record ServerInfo =
  si_Name :: string
  si_Version :: string

record Tools =
  tl_ListChanged :: bool

record Capabilities =
  cp_Tools :: Tools

record InitializeResult =
  ir_ProtocolVersion :: string
  ir_Capabilities :: Capabilities
  ir_ServerInfo :: ServerInfo

record ContentItem =
  ci_Type :: string
  ci_Text :: string

record tool_result =
  tr_Content :: "ContentItem list"
  tr_IsError :: bool

text \<open>An empty field with \<open>omitempty\<close> is left out.\<close>

definition unless_empty :: "bool \<Rightarrow> string \<Rightarrow> json \<Rightarrow> (string \<times> json) list" where
  "unless_empty blank key v = (if blank then [] else [(key, v)])"

definition json_ErrorDetail :: "ErrorDetail \<Rightarrow> json" where
  "json_ErrorDetail e = JObj [(''code'', JNum (itoa_nat (ed_Code e))), (''message'', JStr (ed_Message e))]"

text \<open>A value of type \<open>interface{}\<close> is null when it is nil.\<close>

definition json_any :: "json option \<Rightarrow> json" where
  "json_any v = (case v of None \<Rightarrow> JNull | Some j \<Rightarrow> j)"

definition json_MCPError :: "MCPError \<Rightarrow> json" where
  "json_MCPError e = JObj ([(''jsonrpc'', JStr (me_JSONRPC e))] @ unless_empty (json_any (me_ID e) = JNull) ''id'' (json_any (me_ID e)) @
     [(''error'', json_ErrorDetail (me_Error e))])"

definition json_MCPResponse :: "MCPResponse \<Rightarrow> json" where
  "json_MCPResponse r = JObj [(''jsonrpc'', JStr (ms_JSONRPC r)), (''id'', json_any (ms_ID r)), (''result'', ms_Result r)]"

definition json_InitializeResult :: "InitializeResult \<Rightarrow> json" where
  "json_InitializeResult r =
     JObj [(''protocolVersion'', JStr (ir_ProtocolVersion r)),
       (''capabilities'', JObj [(''tools'', JObj (unless_empty (\<not> tl_ListChanged (cp_Tools (ir_Capabilities r))) ''listChanged'' (JBool True)))]),
       (''serverInfo'', JObj [(''name'', JStr (si_Name (ir_ServerInfo r))), (''version'', JStr (si_Version (ir_ServerInfo r)))])]"

definition json_tool_result :: "tool_result \<Rightarrow> json" where
  "json_tool_result r =
     JObj ([(''content'', JArr (map (\<lambda>c. JObj [(''type'', JStr (ci_Type c)), (''text'', JStr (ci_Text c))]) (tr_Content r)))] @
       unless_empty (\<not> tr_IsError r) ''isError'' (JBool True))"

section \<open>Results\<close>

text \<open>
  The texts that are made elsewhere: an error of a tool with its prefix, a specification as
  indented JSON, and the schema of a tool's arguments.
\<close>

record mcp_texts =
  mt_error :: "tool_error \<Rightarrow> string"
  mt_spec :: "ContainerSpec \<Rightarrow> string"
  mt_schema :: "string \<Rightarrow> json"

definition text_result :: "string \<Rightarrow> tool_result" where
  "text_result msg = \<lparr>tr_Content = [\<lparr>ci_Type = ''text'', ci_Text = msg\<rparr>], tr_IsError = False\<rparr>"

definition errorResult :: "string \<Rightarrow> tool_result" where
  "errorResult msg = \<lparr>tr_Content = [\<lparr>ci_Type = ''text'', ci_Text = msg\<rparr>], tr_IsError = True\<rparr>"

definition tool_text :: "mcp_texts \<Rightarrow> ToolResult \<Rightarrow> tool_result" where
  "tool_text tx r =
     (case r of
        ToolFailed e \<Rightarrow> errorResult (mt_error tx e)
      | SpecCreated p \<Rightarrow> text_result (''Container spec created at '' @ p)
      | SpecValid n \<Rightarrow> text_result (''Container spec '' @ [CHR 0x27] @ n @ [CHR 0x27] @ '' is valid'')
      | SpecShown spec \<Rightarrow> text_result (mt_spec tx spec))"

definition json_result :: "mcp_texts \<Rightarrow> mcp_result \<Rightarrow> json" where
  "json_result tx r =
     (case r of
        Initialized v name ver \<Rightarrow>
          json_InitializeResult \<lparr>ir_ProtocolVersion = v, ir_Capabilities = \<lparr>cp_Tools = \<lparr>tl_ListChanged = False\<rparr>\<rparr>,
            ir_ServerInfo = \<lparr>si_Name = name, si_Version = ver\<rparr>\<rparr>
      | ToolList ts \<Rightarrow>
          JObj [(''tools'', JArr (map (\<lambda>(n, d). JObj [(''name'', JStr n), (''description'', JStr d), (''inputSchema'', mt_schema tx n)]) ts))]
      | ToolCalled t \<Rightarrow> json_tool_result (tool_text tx t))"

text \<open>
  What decoding into \<open>interface{}\<close> and encoding again makes of a value: numbers go through float64
  (the parameter \<open>renum\<close> on their text), and an object through a map, which is written with its keys
  in order, the last value of each.
\<close>

fun through_any :: "(string \<Rightarrow> string) \<Rightarrow> json \<Rightarrow> json" where
  "through_any renum (JNum s) = JNum (renum s)"
| "through_any renum (JArr js) = JArr (map (through_any renum) js)"
| "through_any renum (JObj kvs) = JObj (sort_key fst (AList.clearjunk (rev (map (\<lambda>(k, v). (k, through_any renum v)) kvs))))"
| "through_any renum j = j"

text \<open>The server's \<open>writeError\<close> uses one number as status and as code, and sets no id.\<close>

definition mcp_write :: "(string \<Rightarrow> string) \<Rightarrow> mcp_texts \<Rightarrow> mcp_answer \<Rightarrow> nat \<times> json" where
  "mcp_write renum tx a =
     (case a of
        McpFailed status message \<Rightarrow>
          (status, json_MCPError \<lparr>me_JSONRPC = ''2.0'', me_ID = None, me_Error = \<lparr>ed_Code = status, ed_Message = message\<rparr>\<rparr>)
      | McpResponse i result \<Rightarrow>
          (200, json_MCPResponse \<lparr>ms_JSONRPC = ''2.0'', ms_ID = map_option (through_any renum) i, ms_Result = json_result tx result\<rparr>))"

section \<open>What a client can tell from an answer\<close>

text \<open>A member of an object.\<close>

fun json_member :: "string \<Rightarrow> json \<Rightarrow> json option" where
  "json_member k (JObj kvs) = map_of kvs k"
| "json_member k j = None"

text \<open>The identifiers that JSON-RPC knows, with numbers that float64 holds exactly.\<close>

fun exact_id :: "(string \<Rightarrow> string) \<Rightarrow> json \<Rightarrow> bool" where
  "exact_id renum (JStr s) = True"
| "exact_id renum (JNum s) = (renum s = s)"
| "exact_id renum JNull = True"
| "exact_id renum j = False"

text \<open>
  Every request is answered with an object of version 2.0 that has either a result or an error.
  A result comes with status 200 under the identifier of the request; an error has a code above
  299 that is the status of the response, and carries no identifier.
\<close>

theorem mcp_answers_identified:
  assumes "MCPServer_ServeHTTP parse k r h = (a, h')" and "mcp_write renum tx a = (status, body)"
  shows "json_member ''jsonrpc'' body = Some (JStr ''2.0'') \<and>
    (if status = 200
     then \<exists>raw j req. mh_Method r = ''POST'' \<and> mh_Body r = Inr raw \<and> parse raw = Inr j \<and> decode_mcpRequest j = Some req \<and>
       mr_Method req \<in> {MethodInitialize, MethodListTools, MethodCallTool} \<and>
       json_member ''error'' body = None \<and> json_member ''result'' body \<noteq> None \<and>
       (exact_id renum (json_any (mr_ID req)) \<longrightarrow> json_member ''id'' body = Some (json_any (mr_ID req)))
     else 299 < status \<and> json_member ''result'' body = None \<and> json_member ''id'' body = None \<and>
       (\<exists>msg. json_member ''error'' body = Some (JObj [(''code'', JNum (itoa_nat status)), (''message'', JStr msg)])))"
proof (cases a)
  case (McpFailed st msg)
  then have "st \<in> {400, 404, 405, 500}"
    using assms(1) by (auto simp: MCPServer_ServeHTTP_def Let_def split: if_splits sum.splits option.splits prod.splits)
  then show ?thesis using assms(2)
    by (auto simp: McpFailed mcp_write_def json_MCPError_def json_ErrorDetail_def unless_empty_def json_any_def)
next
  case (McpResponse i res)
  then obtain raw j req where q: "mh_Method r = ''POST''" "mh_Body r = Inr raw" "parse raw = Inr j" "decode_mcpRequest j = Some req"
      "mr_Method req \<in> {MethodInitialize, MethodListTools, MethodCallTool}" "i = mr_ID req"
    using assms(1) by (auto simp: MCPServer_ServeHTTP_def Let_def split: if_splits sum.splits option.splits prod.splits)
  have "through_any renum v = v" if "exact_id renum v" for v using that by (cases v) auto
  then have "json_any (map_option (through_any renum) i) = json_any i" if "exact_id renum (json_any i)"
    using that by (cases i) (auto simp: json_any_def)
  moreover have "status = 200" "body = json_MCPResponse \<lparr>ms_JSONRPC = ''2.0'', ms_ID = map_option (through_any renum) i, ms_Result = json_result tx res\<rparr>"
    using assms(2) by (simp_all add: McpResponse mcp_write_def)
  ultimately show ?thesis using q by (auto simp: json_MCPResponse_def)
qed

definition init_call :: json where
  "init_call = JObj [(''jsonrpc'', JStr ''2.0''), (''id'', JNum ''1''), (''method'', JStr ''initialize'')]"

definition plain_texts :: mcp_texts where
  "plain_texts = \<lparr>mt_error = (\<lambda>e. ''error''), mt_spec = (\<lambda>s. []), mt_schema = (\<lambda>n. JObj [])\<rparr>"

theorem mcp_answers_identified_witness:
  "\<exists>a h' body. MCPServer_ServeHTTP (\<lambda>_. Inr init_call) demo_codec \<lparr>mh_Method = ''POST'', mh_Path = [], mh_Body = Inr ''x''\<rparr> demo_host = (a, h') \<and>
     mcp_write id plain_texts a = (200, body) \<and> json_member ''id'' body = Some (JNum ''1'')"
proof -
  let ?r = "\<lparr>mh_Method = ''POST'', mh_Path = [], mh_Body = Inr ''x''\<rparr>"
  have "fold_key ''jsonrpc'' = ''jsonrpc''" "fold_key ''id'' = ''id''" "fold_key ''method'' = ''method''" by code_simp+
  then have d: "decode_mcpRequest init_call = Some \<lparr>mr_JSONRPC = ''2.0'', mr_ID = Some (JNum ''1''), mr_Method = ''initialize'', mr_Params = None\<rparr>"
    by (simp add: init_call_def decode_mcpRequest_def)
  then have s: "MCPServer_ServeHTTP (\<lambda>_. Inr init_call) demo_codec ?r demo_host = (McpResponse (Some (JNum ''1'')) handleInitialize, demo_host)"
    by (simp add: MCPServer_ServeHTTP_def MethodInitialize_def)
  obtain body where b: "mcp_write id plain_texts (McpResponse (Some (JNum ''1'')) handleInitialize) = (200, body)"
    by (simp add: mcp_write_def)
  from mcp_answers_identified [OF s b] d have "json_member ''id'' body = Some (JNum ''1'')" by (simp add: json_any_def)
  with s b show ?thesis by blast
qed

text \<open>The tools of the documentation are not there: a call of one of them is answered with an error.\<close>

definition documented_tools :: "string list" where
  "documented_tools = [''misbah_list_workspaces'', ''misbah_create_workspace'', ''misbah_get_workspace'', ''misbah_update_manifest'',
     ''misbah_validate_workspace'', ''misbah_get_status'', ''misbah_list_providers'']"

lemma documented_tools_unknown:
  assumes "decode_ToolCall p = Some (name, args)" and "name \<in> set documented_tools"
  shows "handleCallTool k p h = (Inl (''unknown tool: '' @ name), h)"
  using assms by (auto simp: handleCallTool_def mcp_names documented_tools_def)

end
