(* ===== verification/Shell_Quote.thy ===== *)
theory Shell_Quote
  imports Misbah_Prelude
begin

text \<open>
  Quoting for POSIX shells, shared by \<open>runtime/namespace.go\<close> and \<open>cri/convert.go\<close>, and a
  reference splitter that says what a shell makes of a quoted command line.
\<close>

definition shellQuote :: "string \<Rightarrow> string" where
  "shellQuote arg =
     [CHR 0x27] @ replace_byte (CHR 0x27) [CHR 0x27, CHR 0x5C, CHR 0x27, CHR 0x27] arg @ [CHR 0x27]"

text \<open>
  The word splitting of the shell (POSIX, section 2.2): between words spaces are skipped,
  in single quotes every byte stands for itself, a backslash outside of quotes escapes the
  next byte.  A byte with a meaning of its own outside of quotes gives no result, so that
  what is split contains nothing the shell would expand or execute.
\<close>

definition sh_plain :: "char \<Rightarrow> bool" where
  "sh_plain c \<longleftrightarrow> byte_in (CHR ''a'') (CHR ''z'') c \<or> byte_in (CHR ''A'') (CHR ''Z'') c \<or> is_digit c \<or>
     c \<in> set ''/._-+=:,@%''"

fun sh_out :: "string option \<Rightarrow> string \<Rightarrow> string list option"
  and sh_in :: "string \<Rightarrow> string \<Rightarrow> string list option" where
  "sh_out cur [] = Some (case cur of None \<Rightarrow> [] | Some w \<Rightarrow> [w])"
| "sh_out cur (c # cs) =
     (if c = CHR '' '' then
        (case cur of None \<Rightarrow> sh_out None cs | Some w \<Rightarrow> map_option ((#) w) (sh_out None cs))
      else if c = CHR 0x27 then sh_in (case cur of None \<Rightarrow> [] | Some w \<Rightarrow> w) cs
      else if c = CHR 0x5C then
        (case cs of [] \<Rightarrow> None | d # ds \<Rightarrow> sh_out (Some ((case cur of None \<Rightarrow> [] | Some w \<Rightarrow> w) @ [d])) ds)
      else if sh_plain c then sh_out (Some ((case cur of None \<Rightarrow> [] | Some w \<Rightarrow> w) @ [c])) cs
      else None)"
| "sh_in w [] = None"
| "sh_in w (c # cs) = (if c = CHR 0x27 then sh_out (Some w) cs else sh_in (w @ [c]) cs)"

definition sh_words :: "string \<Rightarrow> string list option" where
  "sh_words s = sh_out None s"

lemma sh_in_quoted:
  "sh_in w (replace_byte (CHR 0x27) [CHR 0x27, CHR 0x5C, CHR 0x27, CHR 0x27] a @ CHR 0x27 # rest) =
   sh_out (Some (w @ a)) rest"
  by (induction a arbitrary: w) simp_all

lemma sh_out_quoted: "sh_out None (shellQuote a @ rest) = sh_out (Some a) rest"
  by (simp add: shellQuote_def sh_in_quoted)

lemma sh_words_quoted: "sh_words (str_join '' '' (map shellQuote args)) = Some args"
proof -
  have "args \<noteq> [] \<Longrightarrow> sh_out None (str_join '' '' (map shellQuote args)) = Some args"
  proof (induction args rule: list_nonempty_induct)
    case (single a)
    then show ?case using sh_out_quoted [of a "[]"] by simp
  next
    case (cons a as)
    then show ?case by (simp add: str_join_Cons sh_out_quoted)
  qed
  then show ?thesis by (cases "args = []") (simp_all add: sh_words_def)
qed

end
