(* ===== verification/Cgroup.thy ===== *)
theory Cgroup
  imports Container_Spec Host_OS
begin

text \<open>
  Resource limits: the cgroup manager of \<open>runtime/cgroup.go\<close>, which writes the control
  files of a container's cgroup.  A byte count is an \<open>int64\<close> of Go, here a word of 64 bits
  read as a signed number, so that the multiplication by the unit wraps as it does there.
\<close>

record CgroupManager =
  cg_cgroupRoot :: string
  cg_containerName :: string

definition NewCgroupManager :: "string \<Rightarrow> CgroupManager" where
  "NewCgroupManager name = \<lparr>cg_cgroupRoot = ''/sys/fs/cgroup'', cg_containerName = name\<rparr>"

datatype cgroup_error =
    CgUnavailable
  | CgMkdir os_error
  | CgBadSpec string
  | CgBadNumber string
  | CgBadSuffix string
  | CgWrite string os_error
  | CgRemove os_error

definition getCgroupPath :: "CgroupManager \<Rightarrow> string" where
  "getCgroupPath c = join_path [cg_cgroupRoot c, ''misbah'', cg_containerName c]"

definition isCgroupV2Available :: "CgroupManager \<Rightarrow> host \<Rightarrow> bool" where
  "isCgroupV2Available c h =
     (case os_stat (cg_cgroupRoot c) h of
        Inl _ \<Rightarrow> False
      | Inr _ \<Rightarrow>
        (case os_stat (join_path [cg_cgroupRoot c, ''cgroup.controllers'']) h of Inl _ \<Rightarrow> False | Inr _ \<Rightarrow> True))"

definition parseMemorySpec :: "string \<Rightarrow> cgroup_error + i64" where
  "parseMemorySpec spec =
     (if length spec < 3 then Inl (CgBadSpec spec)
      else
        let suffix = drop (length spec - 2) spec; numPart = take (length spec - 2) spec
        in case parse_int64 numPart of
             None \<Rightarrow> Inl (CgBadNumber numPart)
           | Some num \<Rightarrow>
             if to_upper suffix = ''KB'' then Inr (word_of_int num * 1024)
             else if to_upper suffix = ''MB'' then Inr (word_of_int num * (1024 * 1024))
             else if to_upper suffix = ''GB'' then Inr (word_of_int num * (1024 * 1024 * 1024))
             else Inl (CgBadSuffix suffix))"

text \<open>Writing one control file of the container's cgroup.\<close>

definition write_control :: "CgroupManager \<Rightarrow> string \<Rightarrow> string \<Rightarrow> host \<Rightarrow> cgroup_error option \<times> host" where
  "write_control c file text h =
     map_prod (map_option (CgWrite file)) id (os_write_file (join_path [getCgroupPath c, file]) text h)"

definition setMemoryLimit :: "CgroupManager \<Rightarrow> string \<Rightarrow> host \<Rightarrow> cgroup_error option \<times> host" where
  "setMemoryLimit c spec h =
     (case parseMemorySpec spec of
        Inl e \<Rightarrow> (Some e, h)
      | Inr bytes \<Rightarrow> write_control c ''memory.max'' (itoa (sint bytes)) h)"

definition setCPUWeight :: "CgroupManager \<Rightarrow> int \<Rightarrow> host \<Rightarrow> cgroup_error option \<times> host" where
  "setCPUWeight c shares h = write_control c ''cpu.weight'' (itoa shares) h"

definition setIOWeight :: "CgroupManager \<Rightarrow> int \<Rightarrow> host \<Rightarrow> cgroup_error option \<times> host" where
  "setIOWeight c weight h = write_control c ''io.weight'' (''default '' @ itoa weight) h"

text \<open>\<open>if err := f(); err != nil { return err }\<close> on the host, for the steps of \<open>Setup\<close>.\<close>

fun run_steps :: "(host \<Rightarrow> cgroup_error option \<times> host) list \<Rightarrow> host \<Rightarrow> cgroup_error option \<times> host" where
  "run_steps [] h = (None, h)"
| "run_steps (f # fs) h = (case f h of (Some e, h') \<Rightarrow> (Some e, h') | (None, h') \<Rightarrow> run_steps fs h')"

definition Cgroup_Setup :: "CgroupManager \<Rightarrow> ResourceSpec option \<Rightarrow> host \<Rightarrow> cgroup_error option \<times> host" where
  "Cgroup_Setup c resources h =
     (case resources of
        None \<Rightarrow> (None, h)
      | Some r \<Rightarrow>
        if \<not> isCgroupV2Available c h then (Some CgUnavailable, h)
        else run_steps
          [\<lambda>h. map_prod (map_option CgMkdir) id (os_mkdir_all (getCgroupPath c) h),
           \<lambda>h. if res_Memory r \<noteq> [] then setMemoryLimit c (res_Memory r) h else (None, h),
           \<lambda>h. if 0 < res_CPUShares r then setCPUWeight c (res_CPUShares r) h else (None, h),
           \<lambda>h. if 0 < res_IOWeight r then setIOWeight c (res_IOWeight r) h else (None, h)] h)"

definition AddProcess :: "CgroupManager \<Rightarrow> int \<Rightarrow> host \<Rightarrow> cgroup_error option \<times> host" where
  "AddProcess c pid h = write_control c ''cgroup.procs'' (itoa pid) h"

definition Cgroup_Cleanup :: "CgroupManager \<Rightarrow> host \<Rightarrow> cgroup_error option \<times> host" where
  "Cgroup_Cleanup c h =
     (case os_remove (getCgroupPath c) h of
        (Some e, h') \<Rightarrow> (if is_not_exist e then None else Some (CgRemove e), h')
      | (None, h') \<Rightarrow> (None, h'))"

section \<open>Byte counts\<close>

definition unit_bytes :: "string \<Rightarrow> nat" where
  "unit_bytes u = (if u = ''KB'' then 2 ^ 10 else if u = ''MB'' then 2 ^ 20 else 2 ^ 30)"

lemma parse_int64_digits:
  assumes "ds \<noteq> []" and "\<forall>c\<in>set ds. is_digit c" and "digits_val ds < 2 ^ 63"
  shows "parse_int64 ds = Some (int (digits_val ds))"
proof -
  obtain c cs where ds: "ds = c # cs" using assms(1) by (cases ds) auto
  have "c \<noteq> CHR ''-''" "c \<noteq> CHR ''+''" using assms(2) ds by (auto simp: is_digit_def byte_in_def)
  moreover have "int (digits_val ds) < 2 ^ 63" using assms(3) by (simp add: nat_less_numeral_power_cancel_iff)
  ultimately show ?thesis using assms(2) ds by (simp add: parse_int64_def list_all_iff)
qed

lemma parse_int64_too_big:
  assumes "\<forall>c\<in>set ds. is_digit c" and "2 ^ 63 \<le> digits_val ds"
  shows "parse_int64 ds = None"
proof -
  obtain c cs where ds: "ds = c # cs" using assms(2) by (cases ds) (auto simp: digits_val_def)
  have "c \<noteq> CHR ''-''" "c \<noteq> CHR ''+''" using assms(1) ds by (auto simp: is_digit_def byte_in_def)
  moreover have "2 ^ 63 \<le> int (digits_val ds)" using assms(2) by (simp add: numeral_power_le_nat_cancel_iff)
  ultimately show ?thesis using assms(1) ds by (simp add: parse_int64_def)
qed

lemma sint_small_nat: "n < 2 ^ 63 \<Longrightarrow> sint (of_nat n :: i64) = int n"
proof -
  assume n: "n < 2 ^ 63"
  then have "int n < 2 ^ 63" by (simp add: nat_less_numeral_power_cancel_iff)
  then have "signed_take_bit 63 (int n) = int n" by (intro signed_take_bit_int_eq_self) simp_all
  then show ?thesis by (simp add: signed_of_nat)
qed

lemma to_upper_units: "u \<in> {''KB'', ''MB'', ''GB''} \<Longrightarrow> to_upper u = u"
  by (elim insertE emptyE) (simp_all only:, code_simp+)

lemma parseMemorySpec_valid:
  assumes "ds \<noteq> []" and "\<forall>c\<in>set ds. is_digit c" and "u \<in> {''KB'', ''MB'', ''GB''}" and "digits_val ds < 2 ^ 63"
  shows "parseMemorySpec (ds @ u) = Inr (word_of_int (int (digits_val ds)) * of_nat (unit_bytes u))"
proof -
  have len: "length u = 2" using assms(3) by auto
  have pi: "parse_int64 ds = Some (int (digits_val ds))" by (rule parse_int64_digits [OF assms(1,2,4)])
  have parts: "\<not> length (ds @ u) < 3" "take (length (ds @ u) - 2) (ds @ u) = ds"
    "drop (length (ds @ u) - 2) (ds @ u) = u"
    using assms(1) len by (simp_all add: Suc_le_eq)
  have "parseMemorySpec (ds @ u) = (if u = ''KB'' then Inr (word_of_int (int (digits_val ds)) * 1024)
      else if u = ''MB'' then Inr (word_of_int (int (digits_val ds)) * (1024 * 1024))
      else Inr (word_of_int (int (digits_val ds)) * (1024 * 1024 * 1024)))"
    unfolding parseMemorySpec_def parts Let_def pi using assms(3) parts(1)
    by (auto simp only: to_upper_units [OF assms(3)] option.case if_True if_False simp_thms)
  then show ?thesis by (simp add: unit_bytes_def)
qed

text \<open>
  A memory limit that passes validation and denotes fewer than \<open>2 ^ 63\<close> bytes is parsed
  to exactly the number of bytes it denotes, in the units 1024, 1024 squared and 1024 cubed.
\<close>

theorem parseMemorySpec_exact:
  assumes "isValidMemorySpec (ds @ u)" and "length u = 2" and "digits_val ds * unit_bytes u < 2 ^ 63"
  shows "\<exists>w. parseMemorySpec (ds @ u) = Inr w \<and> sint w = int (digits_val ds * unit_bytes u)"
proof -
  obtain ds' u' where s: "ds @ u = ds' @ u'" and d: "ds' \<noteq> []" "\<forall>c\<in>set ds'. is_digit c"
    and u: "u' \<in> {''KB'', ''MB'', ''GB''}"
    using assms(1) unfolding isValidMemorySpec_iff valid_memory_def by blast
  have "length u' = 2" using u by auto
  then have eq: "ds' = ds" "u' = u" using s assms(2) by (simp_all add: append_eq_append_conv)
  have pos: "1 \<le> unit_bytes u" by (simp add: unit_bytes_def)
  then have "digits_val ds \<le> digits_val ds * unit_bytes u" using mult_le_mono2 [OF pos, of "digits_val ds"] by simp
  then have lt: "digits_val ds < 2 ^ 63" using assms(3) by (rule le_less_trans)
  have "word_of_int (int (digits_val ds)) * of_nat (unit_bytes u) = (of_nat (digits_val ds * unit_bytes u) :: i64)"
    by simp
  moreover have "sint (of_nat (digits_val ds * unit_bytes u) :: i64) = int (digits_val ds * unit_bytes u)"
    by (rule sint_small_nat [OF assms(3)])
  ultimately show ?thesis
    using parseMemorySpec_valid [OF d u] lt unfolding eq by metis
qed

theorem parseMemorySpec_exact_witness:
  "\<exists>w. parseMemorySpec (''2'' @ ''GB'') = Inr w \<and> sint w = 2147483648"
proof -
  have v: "isValidMemorySpec (''2'' @ ''GB'')" by code_simp
  have d: "digits_val ''2'' = 2" by code_simp
  from parseMemorySpec_exact [OF v] show ?thesis by (simp add: d unit_bytes_def)
qed

text \<open>
  Beyond that bound the byte count wraps around.  The limit of \<open>17179869184GB\<close>, which
  is \<open>2 ^ 64\<close> bytes, passes validation and becomes a limit of 0 bytes.
\<close>

theorem memory_limit_wraps:
  "isValidMemorySpec ''17179869184GB'' \<and> parseMemorySpec ''17179869184GB'' = Inr 0"
proof -
  have v: "isValidMemorySpec ''17179869184GB''" by code_simp
  have d: "digits_val ''17179869184'' = 17179869184"
    by (simp add: digits_val_def digit_val_def)
  have "parseMemorySpec (''17179869184'' @ ''GB'') =
      Inr (word_of_int (int (digits_val ''17179869184'')) * of_nat (unit_bytes ''GB''))"
    by (rule parseMemorySpec_valid) (simp_all add: d is_digit_def byte_in_def)
  then have "parseMemorySpec ''17179869184GB'' = Inr (word_of_int (int (digits_val ''17179869184'')) * of_nat (unit_bytes ''GB''))"
    by simp
  also have "word_of_int (int (digits_val ''17179869184'')) * of_nat (unit_bytes ''GB'') = (0 :: i64)"
    by (simp add: d unit_bytes_def)
  finally show ?thesis using v by simp
qed

section \<open>Control files\<close>

lemma write_control_fs:
  "write_control c file t h = (e, h') \<Longrightarrow>
   h' = h \<or> h' = h\<lparr>h_fs := (h_fs h)(join_path [getCgroupPath c, file] \<mapsto> RegFile t)\<rparr>"
  by (auto simp: write_control_def os_write_file_def split: if_splits)

text \<open>A step of \<open>Setup\<close> touches the cgroup's directory and the three limit files only.\<close>

definition limit_paths :: "CgroupManager \<Rightarrow> string set" where
  "limit_paths c = {getCgroupPath c} \<union>
     (\<lambda>f. join_path [getCgroupPath c, f]) ` {''memory.max'', ''cpu.weight'', ''io.weight''}"

lemma Setup_touches:
  assumes "Cgroup_Setup c r h = (e, h')" and "p \<notin> limit_paths c"
  shows "h_fs h' p = h_fs h p"
proof -
  have st: "h_fs h2 p = h_fs h1 p" if "write_control c f t h1 = (e1, h2)" "f \<in> {''memory.max'', ''cpu.weight'', ''io.weight''}"
    for f t h1 e1 h2
    using write_control_fs [OF that(1)] that(2) assms(2) by (auto simp: limit_paths_def)
  have md: "h_fs h2 p = h_fs h1 p" if "os_mkdir_all (getCgroupPath c) h1 = (e1, h2)" for h1 e1 h2
    using os_mkdir_all_cases [OF that] assms(2) by (auto simp: limit_paths_def)
  from assms(1) show ?thesis
    by (auto simp: Cgroup_Setup_def setMemoryLimit_def setCPUWeight_def setIOWeight_def map_prod_def
        split: option.splits prod.splits if_splits sum.splits dest!: md st)
qed

end
