(* ===== verification/Tier_Mounts.thy ===== *)
theory Tier_Mounts
  imports Container_Spec
begin

text \<open>
  The tier packages \<open>tier/tier.go\<close> and \<open>tier/mounts.go\<close>: the tiers eco, sys, com and
  mod, the validation of a tier specification and the mount list generated from it
  (one read-only bind mount per repository, then one overlay per writable path).
\<close>

section \<open>tier.go\<close>

type_synonym Tier = string

definition TierEco :: Tier where "TierEco = ''eco''"
definition TierSys :: Tier where "TierSys = ''sys''"
definition TierCom :: Tier where "TierCom = ''com''"
definition TierMod :: Tier where "TierMod = ''mod''"

lemmas tier_defs = TierEco_def TierSys_def TierCom_def TierMod_def

record TierSpec =
  ts_Tier :: Tier
  ts_Repos :: "string list"
  ts_WritablePaths :: "string list"
  ts_WorkspacePath :: string

definition DefaultWorkspacePath :: string where
  "DefaultWorkspacePath = ''/workspace''"

definition ValidTier :: "Tier \<Rightarrow> bool" where
  "ValidTier t \<longleftrightarrow> t = TierEco \<or> t = TierSys \<or> t = TierCom \<or> t = TierMod"

definition DefaultWritablePaths :: "Tier \<Rightarrow> string list" where
  "DefaultWritablePaths t =
     (if t = TierEco then [] else if t = TierSys then [''src/''] else if t = TierCom then [''pkg/''] else [])"

datatype tier_error =
    TierUnknown string
  | RepoRequired
  | RepoNotAbsolute string
  | EcoNotReadOnly
  | WritableNotRelative string
  | InvalidTierSpec tier_error
  | WritableUnmatched string

definition TierSpec_Validate :: "TierSpec \<Rightarrow> tier_error option" where
  "TierSpec_Validate s =
     err_seq
       ([fail_if (\<not> ValidTier (ts_Tier s)) (TierUnknown (ts_Tier s)),
         fail_if (length (ts_Repos s) = 0) RepoRequired]
        @ map (\<lambda>r. fail_if (\<not> is_abs r) (RepoNotAbsolute r)) (ts_Repos s)
        @ [fail_if (ts_Tier s = TierEco \<and> length (ts_WritablePaths s) > 0) EcoNotReadOnly]
        @ map (\<lambda>w. fail_if (is_abs w) (WritableNotRelative w)) (ts_WritablePaths s))"

definition GetWorkspacePath :: "TierSpec \<Rightarrow> string" where
  "GetWorkspacePath s = (if ts_WorkspacePath s \<noteq> [] then ts_WorkspacePath s else DefaultWorkspacePath)"

section \<open>mounts.go\<close>

text \<open>\<open>resolveWritablePath\<close>: the loop over the repositories, with their number fixed.\<close>

fun resolve_loop :: "nat \<Rightarrow> string list \<Rightarrow> string \<Rightarrow> string \<Rightarrow> tier_error + string \<times> string" where
  "resolve_loop n [] workspace wp = Inl (WritableUnmatched wp)"
| "resolve_loop n (repo # repos) workspace wp =
     (let base = base_path repo;
          candidateSource = join_path [repo, wp];
          candidateDest = join_path [workspace, base, wp]
      in if n > 1 then
           (let repoPrefix = base @ ''/''
            in if length wp > length repoPrefix \<and> take (length repoPrefix) wp = repoPrefix
               then Inr (join_path [repo, drop (length repoPrefix) wp], join_path [workspace, wp])
               else resolve_loop n repos workspace wp)
         else Inr (candidateSource, candidateDest))"

definition resolveWritablePath :: "string list \<Rightarrow> string \<Rightarrow> string \<Rightarrow> tier_error + string \<times> string" where
  "resolveWritablePath repos workspace wp = resolve_loop (length repos) repos workspace wp"

definition roMount :: "string \<Rightarrow> string \<Rightarrow> MountSpec" where
  "roMount workspace repo =
     \<lparr>mnt_Type = MountTypeBind, mnt_Source = repo,
      mnt_Destination = join_path [workspace, base_path repo], mnt_Options = [''ro'', ''rbind''],
      mnt_GitClone = None, mnt_Overlay = None\<rparr>"

definition overlayDir :: "string \<Rightarrow> nat \<Rightarrow> string \<Rightarrow> string" where
  "overlayDir base i leaf = ''/tmp/misbah-overlay-'' @ base @ ''-'' @ itoa_nat i @ ''/'' @ leaf"

definition rwMount :: "string \<Rightarrow> nat \<Rightarrow> string \<times> string \<Rightarrow> MountSpec" where
  "rwMount base i = (\<lambda>(source, dest).
     \<lparr>mnt_Type = MountTypeOverlay, mnt_Source = source, mnt_Destination = dest, mnt_Options = [],
      mnt_GitClone = None,
      mnt_Overlay = Some \<lparr>ov_Lower = source, ov_Upper = overlayDir base i ''upper'',
                          ov_Work = overlayDir base i ''work''\<rparr>\<rparr>)"

fun rw_loop :: "string list \<Rightarrow> string \<Rightarrow> string \<Rightarrow> nat \<Rightarrow> string list \<Rightarrow> tier_error + MountSpec list" where
  "rw_loop repos workspace base i [] = Inr []"
| "rw_loop repos workspace base i (wp # wps) =
     (case resolveWritablePath repos workspace wp of
        Inl e \<Rightarrow> Inl e
      | Inr sd \<Rightarrow>
        (case rw_loop repos workspace base (Suc i) wps of
           Inl e \<Rightarrow> Inl e
         | Inr ms \<Rightarrow> Inr (rwMount base i sd # ms)))"

definition GenerateTierMounts :: "TierSpec \<Rightarrow> tier_error + MountSpec list" where
  "GenerateTierMounts s =
     (case TierSpec_Validate s of
        Some e \<Rightarrow> Inl (InvalidTierSpec e)
      | None \<Rightarrow>
        (let workspace = GetWorkspacePath s
         in case rw_loop (ts_Repos s) workspace (base_path (hd (ts_Repos s))) 0 (ts_WritablePaths s) of
              Inl e \<Rightarrow> Inl e
            | Inr rw \<Rightarrow> Inr (map (roMount workspace) (ts_Repos s) @ rw)))"

section \<open>Lemmas\<close>

lemma TierSpec_Validate_iff:
  "TierSpec_Validate s = None \<longleftrightarrow>
     ValidTier (ts_Tier s) \<and> ts_Repos s \<noteq> [] \<and> list_all is_abs (ts_Repos s) \<and>
     (ts_Tier s = TierEco \<longrightarrow> ts_WritablePaths s = []) \<and>
     list_all (\<lambda>w. \<not> is_abs w) (ts_WritablePaths s)"
  unfolding TierSpec_Validate_def err_seq_None_iff set_append Un_subset_iff
  by (auto simp: list_all_iff)

lemma rw_loop_Inr:
  "rw_loop repos ws base i wps = Inr ms \<Longrightarrow>
     list_all2 (\<lambda>(k, wp) m. \<exists>sd. resolveWritablePath repos ws wp = Inr sd \<and> m = rwMount base k sd)
       (enumerate i wps) ms"
proof (induction wps arbitrary: i ms)
  case (Cons wp wps)
  then obtain sd ms' where sd: "resolveWritablePath repos ws wp = Inr sd"
    and ms': "rw_loop repos ws base (Suc i) wps = Inr ms'" and ms: "ms = rwMount base i sd # ms'"
    by (auto split: sum.splits)
  from Cons.IH [OF ms'] show ?case by (cases sd) (auto simp: ms sd)
qed simp

lemma rw_loop_defined:
  "(\<exists>ms. rw_loop repos ws base i wps = Inr ms) \<longleftrightarrow>
     list_all (\<lambda>wp. \<exists>sd. resolveWritablePath repos ws wp = Inr sd) wps"
proof (induction wps arbitrary: i)
  case (Cons wp wps)
  show ?case using Cons.IH [of "Suc i"]
    by (cases "resolveWritablePath repos ws wp"; cases "rw_loop repos ws base (Suc i) wps") auto
qed simp

lemma GenerateTierMounts_InrE:
  assumes "GenerateTierMounts s = Inr ms"
  obtains rw where "TierSpec_Validate s = None"
    and "rw_loop (ts_Repos s) (GetWorkspacePath s) (base_path (hd (ts_Repos s))) 0 (ts_WritablePaths s) = Inr rw"
    and "ms = map (roMount (GetWorkspacePath s)) (ts_Repos s) @ rw"
  using assms by (auto simp: GenerateTierMounts_def Let_def split: option.splits sum.splits)

lemma rwMount_simps [simp]:
  "mnt_Type (rwMount b i sd) = MountTypeOverlay"
  "mnt_Source (rwMount b i sd) = fst sd"
  "mnt_Destination (rwMount b i sd) = snd sd"
  "mnt_Options (rwMount b i sd) = []"
  "mnt_Overlay (rwMount b i sd) = Some \<lparr>ov_Lower = fst sd, ov_Upper = overlayDir b i ''upper'',
     ov_Work = overlayDir b i ''work''\<rparr>"
  by (simp_all add: rwMount_def split_beta)

lemma roMount_simps [simp]:
  "mnt_Type (roMount ws r) = MountTypeBind"
  "mnt_Source (roMount ws r) = r"
  "mnt_Destination (roMount ws r) = join_path [ws, base_path r]"
  "mnt_Options (roMount ws r) = [''ro'', ''rbind'']"
  by (simp_all add: roMount_def)

lemma overlay_mount_source:
  assumes "GenerateTierMounts s = Inr ms" and "m \<in> set ms" and "mnt_Overlay m = Some v"
  shows "mnt_Source m = ov_Lower v \<and> mnt_Options m = []"
proof -
  obtain rw where r: "rw_loop (ts_Repos s) (GetWorkspacePath s) (base_path (hd (ts_Repos s))) 0 (ts_WritablePaths s) = Inr rw"
    and ms: "ms = map (roMount (GetWorkspacePath s)) (ts_Repos s) @ rw"
    using assms(1) by (rule GenerateTierMounts_InrE)
  have "m \<in> set rw" using assms(2,3) ms by (auto simp: roMount_def)
  then obtain k sd where "m = rwMount (base_path (hd (ts_Repos s))) k sd"
    using rw_loop_Inr [OF r] by (auto simp: list_all2_conv_all_nth in_set_conv_nth)
  then show ?thesis using assms(3) by auto
qed

lemma list_all2_enumerate_fst:
  "list_all2 (\<lambda>(k, x) y. P x y) (enumerate i xs) ys \<longleftrightarrow> list_all2 P xs ys"
proof (induction xs arbitrary: i ys)
  case (Cons x xs)
  then show ?case by (cases ys) auto
qed simp

text \<open>
  The generated mounts are ordered, read-only binds of all repositories first and
  the overlays of the writable paths after them, one for each and in their order; every
  overlay has the resolved host path as its lower layer.
\<close>

theorem GenerateTierMounts_layout:
  assumes "GenerateTierMounts s = Inr ms"
  shows "\<exists>rw. ms = map (roMount (GetWorkspacePath s)) (ts_Repos s) @ rw \<and>
    list_all2 (\<lambda>wp m. \<exists>src dst v.
        resolveWritablePath (ts_Repos s) (GetWorkspacePath s) wp = Inr (src, dst) \<and>
        mnt_Type m = MountTypeOverlay \<and> mnt_Destination m = dst \<and>
        mnt_Overlay m = Some v \<and> ov_Lower v = src) (ts_WritablePaths s) rw"
proof -
  obtain rw where rw: "rw_loop (ts_Repos s) (GetWorkspacePath s) (base_path (hd (ts_Repos s))) 0
      (ts_WritablePaths s) = Inr rw"
    and ms: "ms = map (roMount (GetWorkspacePath s)) (ts_Repos s) @ rw"
    using assms by (elim GenerateTierMounts_InrE)
  have "list_all2 (\<lambda>(k, wp) m. \<exists>src dst v.
        resolveWritablePath (ts_Repos s) (GetWorkspacePath s) wp = Inr (src, dst) \<and>
        mnt_Type m = MountTypeOverlay \<and> mnt_Destination m = dst \<and>
        mnt_Overlay m = Some v \<and> ov_Lower v = src) (enumerate 0 (ts_WritablePaths s)) rw"
    by (rule list_all2_mono [OF rw_loop_Inr [OF rw]]) auto
  with ms show ?thesis by (auto simp: list_all2_enumerate_fst)
qed

definition demo_tier :: TierSpec where
  "demo_tier = \<lparr>ts_Tier = ''com'', ts_Repos = [''/home/u/misbah'', ''/home/u/scribe''],
     ts_WritablePaths = [''misbah/pkg/auth''], ts_WorkspacePath = []\<rparr>"

theorem GenerateTierMounts_layout_witness:
  "\<exists>ms rw. GenerateTierMounts demo_tier = Inr ms \<and>
    ms = map (roMount ''/workspace'') [''/home/u/misbah'', ''/home/u/scribe''] @ rw \<and> length rw = 1"
proof -
  obtain ms where ms: "GenerateTierMounts demo_tier = Inr ms"
    by (rule that) code_simp
  from GenerateTierMounts_layout [OF ms] ms show ?thesis
    by (auto simp: demo_tier_def GetWorkspacePath_def DefaultWorkspacePath_def list_all2_Cons1)
qed

text \<open>
  In the eco tier every generated mount is read-only: no overlay is generated and each
  bind mount carries the option \<open>ro\<close>.
\<close>

theorem eco_mounts_read_only:
  assumes "GenerateTierMounts s = Inr ms" and "ts_Tier s = TierEco" and "m \<in> set ms"
  shows "mnt_Type m = MountTypeBind \<and> ''ro'' \<in> set (mnt_Options m) \<and> ''rw'' \<notin> set (mnt_Options m)"
proof -
  obtain rw where v: "TierSpec_Validate s = None"
    and rw: "rw_loop (ts_Repos s) (GetWorkspacePath s) (base_path (hd (ts_Repos s))) 0
      (ts_WritablePaths s) = Inr rw"
    and ms: "ms = map (roMount (GetWorkspacePath s)) (ts_Repos s) @ rw"
    using assms(1) by (elim GenerateTierMounts_InrE)
  from v assms(2) have "ts_WritablePaths s = []" by (simp add: TierSpec_Validate_iff)
  with rw have "rw = []" by simp
  with ms assms(3) show ?thesis by auto
qed

theorem eco_mounts_read_only_witness:
  "\<exists>ms m. GenerateTierMounts (demo_tier\<lparr>ts_Tier := ''eco'', ts_WritablePaths := []\<rparr>) = Inr ms \<and>
     m \<in> set ms \<and> mnt_Type m = MountTypeBind \<and> ''ro'' \<in> set (mnt_Options m)"
proof -
  obtain m ms where ms: "GenerateTierMounts (demo_tier\<lparr>ts_Tier := ''eco'', ts_WritablePaths := []\<rparr>) = Inr (m # ms)"
    by (rule that) code_simp
  from eco_mounts_read_only [OF ms, of m] ms show ?thesis
    by (intro exI [of _ "m # ms"] exI [of _ m]) (simp add: tier_defs)
qed

section \<open>Writable paths and their repositories\<close>

text \<open>A relative path none of whose elements is \<open>..\<close>.\<close>

definition no_dotdot :: "string \<Rightarrow> bool" where
  "no_dotdot p \<longleftrightarrow> ''..'' \<notin> set (split_on (CHR ''/'') p)"

lemma clean_elems_no_dotdot:
  "''..'' \<notin> set fs \<Longrightarrow>
     clean_elems r acc (es @ fs) = clean_elems r acc es @ filter (\<lambda>e. e \<noteq> [] \<and> e \<noteq> ''.'') fs"
proof (induction r acc es rule: clean_elems.induct)
  case (1 r acc)
  then show ?case by (induction fs arbitrary: acc) auto
next
  case (2 r acc e es)
  then show ?case by (auto split: list.splits)
qed

lemma path_elems_below:
  assumes "is_abs d" and "no_dotdot w"
  shows "prefix (path_elems d) (path_elems (join_path [d, w]))"
proof -
  from assms(1) have d: "d \<noteq> []" by auto
  have j: "join_path [d, w] = ''/'' @ str_join ''/'' (path_elems (d @ ''/'' @ w))"
    using d assms(1) by (simp add: join_path_def clean_path_abs is_abs_append)
  have "path_elems (d @ ''/'' @ w) =
      path_elems d @ filter (\<lambda>e. e \<noteq> [] \<and> e \<noteq> ''.'') (split_on (CHR ''/'') w)" (is "?l = _ @ ?f")
    using assms unfolding no_dotdot_def
    by (simp add: path_elems_def is_abs_append split_on_append clean_elems_no_dotdot)
  moreover have "path_elems (join_path [d, w]) = ?l"
    unfolding j using is_abs_append [OF assms(1), of "''/'' @ w"]
    by (intro path_elems_abs_join) (auto dest: path_elems_plain)
  ultimately show ?thesis by simp
qed

lemma resolve_loop_abs:
  "is_abs ws \<Longrightarrow> list_all is_abs repos \<Longrightarrow> resolve_loop n repos ws wp = Inr (src, dst) \<Longrightarrow>
     is_abs src \<and> is_abs dst"
  by (induction n repos ws wp rule: resolve_loop.induct)
    (auto simp: Let_def is_abs_join split: if_splits)

lemma join_path3_assoc:
  "a \<noteq> [] \<Longrightarrow> join_path [a, b, c] = join_path [a @ ''/'' @ b, c]"
  by (simp add: join_path_def)

lemma path_elems_join2: "is_abs a \<Longrightarrow> path_elems (join_path [a, b]) = path_elems (a @ ''/'' @ b)"
proof -
  assume a: "is_abs a"
  then have "join_path [a, b] = clean_path (a @ ''/'' @ b)" by (auto simp: join_path_def)
  then show ?thesis using path_elems_clean [OF is_abs_append [OF a]] by simp
qed

text \<open>
  Every mount that \<open>GenerateTierMounts\<close> produces for the default workspace passes
  \<open>MountSpec.Validate\<close>.
\<close>

theorem GenerateTierMounts_valid:
  assumes "GenerateTierMounts s = Inr ms" and "is_abs (GetWorkspacePath s)" and "m \<in> set ms"
  shows "MountSpec_Validate m = None"
proof -
  obtain rw where v: "TierSpec_Validate s = None"
    and rw: "rw_loop (ts_Repos s) (GetWorkspacePath s) (base_path (hd (ts_Repos s))) 0
      (ts_WritablePaths s) = Inr rw"
    and ms: "ms = map (roMount (GetWorkspacePath s)) (ts_Repos s) @ rw"
    using assms(1) by (elim GenerateTierMounts_InrE)
  have repos: "list_all is_abs (ts_Repos s)" using v by (simp add: TierSpec_Validate_iff)
  show ?thesis
  proof (cases "m \<in> set rw")
    case True
    then obtain k sd where sd: "m = rwMount (base_path (hd (ts_Repos s))) k sd"
      and r: "\<exists>wp. resolveWritablePath (ts_Repos s) (GetWorkspacePath s) wp = Inr sd"
      using rw_loop_Inr [OF rw] by (fastforce simp: list_all2_conv_all_nth in_set_conv_nth)
    then have "is_abs (fst sd) \<and> is_abs (snd sd)"
      using resolve_loop_abs [OF assms(2) repos] by (cases sd) (auto simp: resolveWritablePath_def)
    then show ?thesis unfolding MountSpec_Validate_iff
      by (auto simp: sd valid_mount_def mount_type_defs overlayDir_def)
  next
    case False
    then obtain r where "r \<in> set (ts_Repos s)" and m: "m = roMount (GetWorkspacePath s) r"
      using ms assms(3) by auto
    then have "is_abs r" using repos by (simp add: list_all_iff)
    then have "r \<noteq> []" by auto
    then show ?thesis unfolding MountSpec_Validate_iff m
      using assms(2) by (auto simp: valid_mount_def mount_type_defs is_abs_join)
  qed
qed

theorem GenerateTierMounts_valid_witness:
  "\<exists>ms m. GenerateTierMounts demo_tier = Inr ms \<and> m \<in> set ms \<and> MountSpec_Validate m = None"
proof -
  obtain m ms where ms: "GenerateTierMounts demo_tier = Inr (m # ms)"
    by (rule that) code_simp
  have ws: "is_abs (GetWorkspacePath demo_tier)" by code_simp
  have "MountSpec_Validate m = None" by (rule GenerateTierMounts_valid [OF ms ws]) simp
  with ms show ?thesis by (intro exI [of _ "m # ms"] exI [of _ m]) simp
qed

text \<open>
  With a single repository, a writable path without \<open>..\<close> elements stays inside it:
  the overlay's lower layer is below the repository on the host, and its destination is
  below the mount point of that repository.
\<close>

theorem writable_path_contained:
  assumes "GenerateTierMounts s = Inr ms" and "ts_Repos s = [repo]"
    and "is_abs (GetWorkspacePath s)" and "\<forall>w\<in>set (ts_WritablePaths s). no_dotdot w"
    and "m \<in> set ms" and "mnt_Overlay m = Some v"
  shows "prefix (path_elems repo) (path_elems (ov_Lower v)) \<and>
    prefix (path_elems (mnt_Destination (roMount (GetWorkspacePath s) repo))) (path_elems (mnt_Destination m))"
proof -
  obtain rw where val: "TierSpec_Validate s = None"
    and rw: "rw_loop (ts_Repos s) (GetWorkspacePath s) (base_path (hd (ts_Repos s))) 0
      (ts_WritablePaths s) = Inr rw"
    and ms: "ms = map (roMount (GetWorkspacePath s)) (ts_Repos s) @ rw"
    using assms(1) by (elim GenerateTierMounts_InrE)
  have "m \<in> set rw" using ms assms(5,6) by (auto simp: roMount_def)
  then obtain k w where w: "w \<in> set (ts_WritablePaths s)"
    and m: "m = rwMount (base_path repo) k
      (join_path [repo, w], join_path [GetWorkspacePath s, base_path repo, w])"
    using rw_loop_Inr [OF rw] assms(2)
    by (fastforce simp: list_all2_conv_all_nth in_set_conv_nth resolveWritablePath_def nth_enumerate_eq)
  have repo: "is_abs repo" using val assms(2) by (simp add: TierSpec_Validate_iff)
  have ws: "GetWorkspacePath s \<noteq> []" using assms(3) by auto
  have nd: "no_dotdot w" using w assms(4) by blast
  show ?thesis
    using m assms(6) path_elems_below [OF repo nd] path_elems_join2 [OF assms(3)]
      path_elems_below [OF is_abs_append [OF assms(3)] nd, of "''/'' @ base_path repo"]
    by (auto simp: join_path3_assoc [OF ws])
qed

definition solo_tier :: "string \<Rightarrow> TierSpec" where
  "solo_tier w = \<lparr>ts_Tier = ''mod'', ts_Repos = [''/home/u/misbah''], ts_WritablePaths = [w],
     ts_WorkspacePath = []\<rparr>"

theorem writable_path_contained_witness:
  "\<exists>ms m v. GenerateTierMounts (solo_tier ''pkg/auth'') = Inr ms \<and> m \<in> set ms \<and> mnt_Overlay m = Some v \<and>
     prefix [''home'', ''u'', ''misbah''] (path_elems (ov_Lower v))"
proof -
  define m where "m = rwMount ''misbah'' 0 (''/home/u/misbah/pkg/auth'', ''/workspace/misbah/pkg/auth'')"
  have ms: "GenerateTierMounts (solo_tier ''pkg/auth'') =
      Inr [roMount ''/workspace'' ''/home/u/misbah'', m]"
    unfolding m_def by code_simp
  have "prefix (path_elems ''/home/u/misbah'') (path_elems (ov_Lower (the (mnt_Overlay m))))"
    using writable_path_contained [OF ms, of "''/home/u/misbah''" m "the (mnt_Overlay m)"]
    by (simp add: m_def solo_tier_def GetWorkspacePath_def DefaultWorkspacePath_def is_abs_def no_dotdot_def)
  moreover have "path_elems ''/home/u/misbah'' = [''home'', ''u'', ''misbah'']" by code_simp
  ultimately show ?thesis using ms by (auto simp: m_def)
qed

text \<open>
  The restriction in the previous property is needed: \<open>TierSpec.Validate\<close> accepts
  \<open>..\<close> elements, and a writable path made of them makes the overlay expose a host
  directory outside the repository at a path outside the workspace.
\<close>

theorem writable_path_escape:
  "TierSpec_Validate (solo_tier ''../../../etc'') = None \<and>
   (\<exists>ms. GenerateTierMounts (solo_tier ''../../../etc'') = Inr ms \<and>
      (\<exists>m\<in>set ms. mnt_Type m = MountTypeOverlay \<and> mnt_Source m = ''/etc'' \<and> mnt_Destination m = ''/etc''))"
proof -
  have v: "TierSpec_Validate (solo_tier ''../../../etc'') = None" by code_simp
  have "GenerateTierMounts (solo_tier ''../../../etc'') =
      Inr [roMount ''/workspace'' ''/home/u/misbah'', rwMount ''misbah'' 0 (''/etc'', ''/etc'')]"
    by code_simp
  with v show ?thesis by simp
qed

text \<open>
  The upper directories of the overlays of one specification are distinct, but they
  depend only on the base name of the first repository and the position of the path:
  two specifications whose first repositories have the same base name share them.
\<close>

theorem overlay_upper_sharing:
  "overlayDir b i ''upper'' = overlayDir b j ''upper'' \<longleftrightarrow> i = j"
proof
  assume "overlayDir b i ''upper'' = overlayDir b j ''upper''"
  then have "itoa_nat i @ ''/upper'' = itoa_nat j @ ''/upper''" by (simp add: overlayDir_def)
  then show "i = j" by (simp add: itoa_nat_inj)
qed simp

theorem overlay_upper_collision:
  "\<exists>ms ms' v. GenerateTierMounts (solo_tier ''pkg'') = Inr ms \<and>
     GenerateTierMounts ((solo_tier ''src'')\<lparr>ts_Repos := [''/srv/other/misbah'']\<rparr>) = Inr ms' \<and>
     mnt_Overlay (last ms) = Some v \<and> (\<exists>v'. mnt_Overlay (last ms') = Some v' \<and>
       ov_Upper v' = ov_Upper v \<and> ov_Work v' = ov_Work v \<and> ov_Lower v' \<noteq> ov_Lower v)"
proof -
  have "GenerateTierMounts (solo_tier ''pkg'') = Inr [roMount ''/workspace'' ''/home/u/misbah'',
      rwMount ''misbah'' 0 (''/home/u/misbah/pkg'', ''/workspace/misbah/pkg'')]" by code_simp
  moreover have "GenerateTierMounts ((solo_tier ''src'')\<lparr>ts_Repos := [''/srv/other/misbah'']\<rparr>) =
      Inr [roMount ''/workspace'' ''/srv/other/misbah'',
        rwMount ''misbah'' 0 (''/srv/other/misbah/src'', ''/workspace/misbah/src'')]" by code_simp
  ultimately show ?thesis by simp
qed

end
