(* ===== verification/CRI_Convert.thy ===== *)
theory CRI_Convert
  imports Shell_Quote Cgroup Tier_Mounts
begin

text \<open>
  The translation of a specification into CRI messages: \<open>cri/convert.go\<close>.  The messages are
  records with the fields that the code sets; a CRI map is a HOL map.
\<close>

definition MountOptReadOnly :: string where "MountOptReadOnly = ''ro''"
definition MountOptNoSuid :: string where "MountOptNoSuid = ''nosuid''"
definition MountOptNoDev :: string where "MountOptNoDev = ''nodev''"
definition MountOptNoExec :: string where "MountOptNoExec = ''noexec''"

text \<open>The zero value of a mount's propagation is \<open>PROPAGATION_PRIVATE\<close>.\<close>

datatype MountPropagation = PROPAGATION_PRIVATE | PROPAGATION_HOST_TO_CONTAINER | PROPAGATION_BIDIRECTIONAL

record cri_mount =
  cm_ContainerPath :: string
  cm_HostPath :: string
  cm_Readonly :: bool
  cm_Propagation :: MountPropagation

definition mount_option :: "string \<Rightarrow> cri_mount \<Rightarrow> cri_mount" where
  "mount_option opt m =
     (if opt = MountOptReadOnly then m\<lparr>cm_Readonly := True\<rparr>
      else if opt = MountOptNoSuid \<or> opt = MountOptNoDev \<or> opt = MountOptNoExec then m\<lparr>cm_Propagation := PROPAGATION_PRIVATE\<rparr>
      else m)"

definition MountsToContainerMounts :: "MountSpec list \<Rightarrow> cri_mount list" where
  "MountsToContainerMounts mounts =
     map (\<lambda>m. fold mount_option (mnt_Options m)
       \<lparr>cm_ContainerPath = mnt_Destination m, cm_HostPath = mnt_Source m, cm_Readonly = False, cm_Propagation = PROPAGATION_PRIVATE\<rparr>) mounts"

text \<open>\<open>parseMemoryToBytes\<close> accumulates the digits in an \<open>int64\<close>, which wraps.\<close>

definition accumulate_digits :: "string \<Rightarrow> i64" where
  "accumulate_digits s = foldl (\<lambda>n c. n * 10 + of_nat (digit_val c)) 0 s"

definition parseMemoryToBytes :: "string \<Rightarrow> go_error + i64" where
  "parseMemoryToBytes spec =
     (if length spec < 3 then Inl ''invalid memory spec''
      else
        let suffix = to_upper (drop (length spec - 2) spec); numStr = take (length spec - 2) spec
        in if \<not> list_all is_digit numStr then Inl ''invalid memory spec number''
           else
             let num = accumulate_digits numStr
             in if suffix = ''KB'' then Inr (num * 1024)
                else if suffix = ''MB'' then Inr (num * 1024 * 1024)
                else if suffix = ''GB'' then Inr (num * 1024 * 1024 * 1024)
                else Inl ''invalid memory suffix'')"

record linux_resources =
  lr_MemoryLimitInBytes :: i64
  lr_CpuShares :: i64

definition ResourcesToLinuxResources :: "ResourceSpec option \<Rightarrow> linux_resources option" where
  "ResourcesToLinuxResources resources =
     (case resources of
        None \<Rightarrow> None
      | Some r \<Rightarrow> Some
        \<lparr>lr_MemoryLimitInBytes =
           (if res_Memory r \<noteq> [] then (case parseMemoryToBytes (res_Memory r) of Inl e \<Rightarrow> 0 | Inr b \<Rightarrow> b) else 0),
         lr_CpuShares = (if 0 < res_CPUShares r then word_of_int (res_CPUShares r) else 0)\<rparr>)"

definition EnvToKeyValues :: "string list \<Rightarrow> (string \<times> string) list" where
  "EnvToKeyValues envs =
     map (\<lambda>env. case split_n2 (CHR ''='') env of
            [k, v] \<Rightarrow> (k, v)
          | k # _ \<Rightarrow> (k, [])
          | [] \<Rightarrow> ([], [])) envs"

datatype netns_mode = NsPod | NsTarget | NsNode

record PodSandboxConfig =
  ps_Name :: string
  ps_Namespace :: string
  ps_Uid :: string
  ps_Labels :: "string \<rightharpoonup> string"
  ps_Annotations :: "string \<rightharpoonup> string"
  ps_Hostname :: string
  ps_Dns :: "(string list \<times> string list) option"
  ps_Network :: netns_mode

definition managed_labels :: "string \<Rightarrow> (string \<rightharpoonup> string)" where
  "managed_labels name = [''misbah.dev/managed'' \<mapsto> ''true'', ''misbah.dev/name'' \<mapsto> name]"

definition BuildPodSandboxConfig :: "string \<Rightarrow> (string \<rightharpoonup> string) \<Rightarrow> PodSandboxConfig" where
  "BuildPodSandboxConfig name annotations =
     \<lparr>ps_Name = name, ps_Namespace = ''misbah'', ps_Uid = ''misbah-'' @ name, ps_Labels = managed_labels name,
      ps_Annotations = annotations, ps_Hostname = [], ps_Dns = None, ps_Network = NsPod\<rparr>"

definition ApplyNetworkConfig :: "NetworkConfig option \<Rightarrow> PodSandboxConfig \<Rightarrow> PodSandboxConfig" where
  "ApplyNetworkConfig network c =
     (case network of
        None \<Rightarrow> c
      | Some n \<Rightarrow>
        let c1 = (if net_Hostname n \<noteq> [] then c\<lparr>ps_Hostname := net_Hostname n\<rparr> else c);
            c2 = (if net_DNSServers n \<noteq> [] \<or> net_DNSSearch n \<noteq> []
                  then c1\<lparr>ps_Dns := Some (net_DNSServers n, net_DNSSearch n)\<rparr> else c1)
        in if net_Mode n = ''none'' then c2\<lparr>ps_Network := NsTarget\<rparr>
           else if net_Mode n = ''host'' then c2\<lparr>ps_Network := NsNode\<rparr>
           else c2)"

record ContainerConfig =
  cc_Name :: string
  cc_Image :: string
  cc_Command :: "string list"
  cc_WorkingDir :: string
  cc_Envs :: "(string \<times> string) list"
  cc_Mounts :: "cri_mount list"
  cc_Labels :: "string \<rightharpoonup> string"
  cc_Resources :: "linux_resources option"

definition BuildContainerConfig :: "ContainerSpec \<Rightarrow> ContainerConfig" where
  "BuildContainerConfig spec =
     \<lparr>cc_Name = md_Name (spec_Metadata spec), cc_Image = spec_Image spec,
      cc_Command = proc_Command (spec_Process spec), cc_WorkingDir = proc_Cwd (spec_Process spec),
      cc_Envs = EnvToKeyValues (proc_Env (spec_Process spec)), cc_Mounts = MountsToContainerMounts (spec_Mounts spec),
      cc_Labels = managed_labels (md_Name (spec_Metadata spec)),
      cc_Resources = ResourcesToLinuxResources (spec_Resources spec)\<rparr>"

definition ForwarderMountPath :: string where "ForwarderMountPath = ''/opt/misbah/bin''"
definition ForwarderBinName :: string where "ForwarderBinName = ''misbah-vsock-fwd''"
definition DefaultNoProxy :: string where "DefaultNoProxy = ''localhost,127.0.0.1''"
definition VsockHostCID :: nat where "VsockHostCID = 2"
definition ConfigProxyPort :: nat where "ConfigProxyPort = 8118"

definition proxyKeys :: "string list" where
  "proxyKeys = [''HTTP_PROXY'', ''HTTPS_PROXY'', ''http_proxy'', ''https_proxy'', ''NO_PROXY'', ''no_proxy'']"

definition shellQuoteArgs :: "string list \<Rightarrow> string" where
  "shellQuoteArgs args = str_join '' '' (map shellQuote args)"

definition InjectVsockForwarder :: "32 word \<Rightarrow> string \<Rightarrow> ContainerConfig \<Rightarrow> ContainerConfig" where
  "InjectVsockForwarder vsockPort binDir cc =
     (let proxyURL = ''http://127.0.0.1:'' @ itoa_nat ConfigProxyPort;
          upstreamAddr = itoa_nat VsockHostCID @ '':'' @ itoa_nat (unat vsockPort);
          cc1 = cc\<lparr>cc_Mounts := cc_Mounts cc @
            [\<lparr>cm_ContainerPath = ForwarderMountPath, cm_HostPath = binDir, cm_Readonly = True, cm_Propagation = PROPAGATION_PRIVATE\<rparr>]\<rparr>;
          cc2 = cc1\<lparr>cc_Envs := filter (\<lambda>kv. fst kv \<notin> set proxyKeys) (cc_Envs cc1) @
            [(''HTTP_PROXY'', proxyURL), (''HTTPS_PROXY'', proxyURL), (''http_proxy'', proxyURL), (''https_proxy'', proxyURL),
             (''NO_PROXY'', DefaultNoProxy), (''no_proxy'', DefaultNoProxy)]\<rparr>
      in if cc_Command cc2 \<noteq> [] then
           cc2\<lparr>cc_Command := [''/bin/sh'', ''-c'',
             ForwarderMountPath @ ''/'' @ ForwarderBinName @ '' --net vsock --upstream '' @ upstreamAddr @ '' &'' @
               [CHR 0x0A] @ ''exec '' @ shellQuoteArgs (cc_Command cc2)]\<rparr>
         else cc2)"

section \<open>Properties\<close>

lemma cri_mount_paths:
  "map cm_HostPath (MountsToContainerMounts ms) = map mnt_Source ms"
  "map cm_ContainerPath (MountsToContainerMounts ms) = map mnt_Destination ms"
proof -
  have "cm_HostPath (fold mount_option os m) = cm_HostPath m \<and> cm_ContainerPath (fold mount_option os m) = cm_ContainerPath m" for os m
    by (induction os arbitrary: m) (simp_all add: mount_option_def)
  then show "map cm_HostPath (MountsToContainerMounts ms) = map mnt_Source ms"
    "map cm_ContainerPath (MountsToContainerMounts ms) = map mnt_Destination ms"
    by (simp_all add: MountsToContainerMounts_def)
qed

lemma cri_mount_readonly:
  "cm_Readonly (fold mount_option os m) \<longleftrightarrow> cm_Readonly m \<or> ''ro'' \<in> set os"
  by (induction os arbitrary: m)
    (auto simp: mount_option_def MountOptReadOnly_def MountOptNoSuid_def MountOptNoDev_def MountOptNoExec_def)

text \<open>
  The options \<open>nosuid\<close>, \<open>nodev\<close> and \<open>noexec\<close> have no effect on the mount of a Kata container:
  they set the propagation to the value it has anyway.
\<close>

lemma cri_mount_options_dropped:
  "fold mount_option os \<lparr>cm_ContainerPath = d, cm_HostPath = h, cm_Readonly = False, cm_Propagation = PROPAGATION_PRIVATE\<rparr> =
     \<lparr>cm_ContainerPath = d, cm_HostPath = h, cm_Readonly = (''ro'' \<in> set os), cm_Propagation = PROPAGATION_PRIVATE\<rparr>"
proof -
  have "fold mount_option os m = m\<lparr>cm_Readonly := cm_Readonly m \<or> ''ro'' \<in> set os\<rparr>" if "cm_Propagation m = PROPAGATION_PRIVATE" for m
    using that by (induction os arbitrary: m)
      (auto simp: mount_option_def MountOptReadOnly_def MountOptNoSuid_def MountOptNoDev_def MountOptNoExec_def)
  then show ?thesis by simp
qed

text \<open>
  In a Kata container the overlay of a writable path is lost: every overlay mount that
  \<open>GenerateTierMounts\<close> produces becomes a writable mount of the real directory of the host,
  the overlay's lower layer, so the container's writes reach the real workspace.
\<close>

theorem kata_overlay_writes_through:
  assumes "GenerateTierMounts ts = Inr ms" and "m \<in> set ms" and "mnt_Overlay m = Some v"
  shows "\<exists>c\<in>set (MountsToContainerMounts ms). cm_ContainerPath c = mnt_Destination m \<and>
    cm_HostPath c = ov_Lower v \<and> \<not> cm_Readonly c"
proof -
  let ?c = "fold mount_option (mnt_Options m)
    \<lparr>cm_ContainerPath = mnt_Destination m, cm_HostPath = mnt_Source m, cm_Readonly = False, cm_Propagation = PROPAGATION_PRIVATE\<rparr>"
  have "mnt_Source m = ov_Lower v" "mnt_Options m = []"
    using overlay_mount_source [OF assms] by simp_all
  moreover have "?c \<in> set (MountsToContainerMounts ms)"
    unfolding MountsToContainerMounts_def set_map using assms(2) by (rule imageI)
  ultimately show ?thesis by (intro bexI [of _ ?c]) simp_all
qed

theorem kata_overlay_writes_through_witness:
  "\<exists>ms c. GenerateTierMounts (solo_tier ''pkg/auth'') = Inr ms \<and> c \<in> set (MountsToContainerMounts ms) \<and>
     cm_HostPath c = ''/home/u/misbah/pkg/auth'' \<and> \<not> cm_Readonly c"
proof -
  define m where "m = rwMount ''misbah'' 0 (''/home/u/misbah/pkg/auth'', ''/workspace/misbah/pkg/auth'')"
  have ms: "GenerateTierMounts (solo_tier ''pkg/auth'') = Inr [roMount ''/workspace'' ''/home/u/misbah'', m]"
    unfolding m_def by code_simp
  from kata_overlay_writes_through [OF ms, of m] show ?thesis unfolding ms by (auto simp: m_def)
qed

lemma accumulate_digits_val: "accumulate_digits s = of_nat (digits_val s)"
proof -
  have "foldl (\<lambda>n c. n * 10 + of_nat (digit_val c)) (of_nat k :: i64) s = of_nat (foldl (\<lambda>n c. n * 10 + digit_val c) k s)" for k
  proof (induction s arbitrary: k)
    case (Cons c s)
    from Cons [of "k * 10 + digit_val c"] show ?case by simp
  qed simp
  from this [of 0] show ?thesis by (simp add: accumulate_digits_def digits_val_def)
qed

text \<open>
  Both parsers of memory limits agree: on every limit that passes validation and whose
  number fits an \<open>int64\<close>, the CRI conversion computes the byte count of the cgroup manager,
  wrap-around included.
\<close>

theorem memory_parsers_agree:
  assumes "isValidMemorySpec (ds @ u)" and "length u = 2" and "digits_val ds < 2 ^ 63"
  shows "\<exists>w. parseMemorySpec (ds @ u) = Inr w \<and> parseMemoryToBytes (ds @ u) = Inr w"
proof -
  obtain ds' u' where s: "ds @ u = ds' @ u'" and d: "ds' \<noteq> []" "\<forall>c\<in>set ds'. is_digit c"
    and u: "u' \<in> {''KB'', ''MB'', ''GB''}"
    using assms(1) unfolding isValidMemorySpec_iff valid_memory_def by blast
  have "length u' = 2" using u by auto
  then have eq: "ds' = ds" "u' = u" using s assms(2) by (simp_all add: append_eq_append_conv)
  have parts: "\<not> length (ds @ u) < 3" "take (length (ds @ u) - 2) (ds @ u) = ds"
    "drop (length (ds @ u) - 2) (ds @ u) = u"
    using d(1) assms(2) eq by (simp_all add: Suc_le_eq)
  have up: "to_upper u = u" using u to_upper_units eq by simp
  have dig: "list_all is_digit ds" using d(2) eq by (simp add: list_all_iff)
  have "parseMemoryToBytes (ds @ u) = (if u = ''KB'' then Inr (of_nat (digits_val ds) * 1024)
      else if u = ''MB'' then Inr (of_nat (digits_val ds) * 1024 * 1024)
      else Inr (of_nat (digits_val ds) * 1024 * 1024 * 1024))"
    unfolding parseMemoryToBytes_def parts Let_def up accumulate_digits_val using u parts(1) dig eq
    by (auto simp only: simp_thms if_True if_False)
  moreover have "parseMemorySpec (ds @ u) = Inr (word_of_int (int (digits_val ds)) * of_nat (unit_bytes u))"
    by (rule parseMemorySpec_valid) (use d u eq assms(3) in simp_all)
  ultimately show ?thesis by (auto simp: unit_bytes_def algebra_simps)
qed

theorem memory_parsers_agree_witness:
  "\<exists>w. parseMemorySpec (''512'' @ ''MB'') = Inr w \<and> parseMemoryToBytes (''512'' @ ''MB'') = Inr w"
proof -
  have "isValidMemorySpec (''512'' @ ''MB'')" by code_simp
  moreover have "digits_val ''512'' = 512" by code_simp
  ultimately show ?thesis by (intro memory_parsers_agree) simp_all
qed

text \<open>
  With the forwarder injected, the program of a Kata container sees each proxy
  variable exactly once and pointing to the forwarder inside the VM, every other variable
  as before, and it is still run with its own arguments: the shell splits the text after
  \<open>exec\<close> back into them.
\<close>

lemma forwarder_envs:
  "cc_Envs (InjectVsockForwarder port dir cc) = filter (\<lambda>kv. fst kv \<notin> set proxyKeys) (cc_Envs cc) @
     [(''HTTP_PROXY'', ''http://127.0.0.1:'' @ itoa_nat ConfigProxyPort),
      (''HTTPS_PROXY'', ''http://127.0.0.1:'' @ itoa_nat ConfigProxyPort),
      (''http_proxy'', ''http://127.0.0.1:'' @ itoa_nat ConfigProxyPort),
      (''https_proxy'', ''http://127.0.0.1:'' @ itoa_nat ConfigProxyPort),
      (''NO_PROXY'', DefaultNoProxy), (''no_proxy'', DefaultNoProxy)]"
  by (simp add: InjectVsockForwarder_def Let_def)

theorem forwarder_injected:
  assumes "cc_Command cc \<noteq> []"
  shows "(\<forall>k\<in>set proxyKeys. length (filter (\<lambda>kv. fst kv = k) (cc_Envs (InjectVsockForwarder port dir cc))) = 1) \<and>
    filter (\<lambda>kv. fst kv \<notin> set proxyKeys) (cc_Envs (InjectVsockForwarder port dir cc)) =
      filter (\<lambda>kv. fst kv \<notin> set proxyKeys) (cc_Envs cc) \<and>
    (\<exists>pre line. cc_Command (InjectVsockForwarder port dir cc) = [''/bin/sh'', ''-c'', pre @ [CHR 0x0A] @ ''exec '' @ line] \<and>
      sh_words line = Some (cc_Command cc))"
proof (intro conjI)
  have "filter (\<lambda>kv. fst kv = k) (filter (\<lambda>kv. fst kv \<notin> set proxyKeys) es) = []" if "k \<in> set proxyKeys" for k and es :: "(string \<times> string) list"
    using that by (induction es) auto
  then show "\<forall>k\<in>set proxyKeys. length (filter (\<lambda>kv. fst kv = k) (cc_Envs (InjectVsockForwarder port dir cc))) = 1"
    by (simp add: forwarder_envs) (simp add: proxyKeys_def)
  show "filter (\<lambda>kv. fst kv \<notin> set proxyKeys) (cc_Envs (InjectVsockForwarder port dir cc)) =
      filter (\<lambda>kv. fst kv \<notin> set proxyKeys) (cc_Envs cc)"
    by (simp add: forwarder_envs) (simp add: proxyKeys_def)
  show "\<exists>pre line. cc_Command (InjectVsockForwarder port dir cc) = [''/bin/sh'', ''-c'', pre @ [CHR 0x0A] @ ''exec '' @ line] \<and>
      sh_words line = Some (cc_Command cc)"
    using assms by (intro exI [of _ "ForwarderMountPath @ ''/'' @ ForwarderBinName @ '' --net vsock --upstream '' @
        (itoa_nat VsockHostCID @ '':'' @ itoa_nat (unat port)) @ '' &''"] exI [of _ "shellQuoteArgs (cc_Command cc)"])
      (simp add: InjectVsockForwarder_def Let_def shellQuoteArgs_def sh_words_quoted)
qed

theorem forwarder_injected_witness:
  "length (filter (\<lambda>kv. fst kv = ''HTTP_PROXY'')
     (cc_Envs (InjectVsockForwarder 8118 ''/usr/local/lib/misbah''
       (BuildContainerConfig (demo_spec\<lparr>spec_Process := (spec_Process demo_spec)\<lparr>proc_Env := [''HTTP_PROXY=http://evil'']\<rparr>\<rparr>))))) = 1"
proof -
  let ?cc = "BuildContainerConfig (demo_spec\<lparr>spec_Process := (spec_Process demo_spec)\<lparr>proc_Env := [''HTTP_PROXY=http://evil'']\<rparr>\<rparr>)"
  have "cc_Command ?cc \<noteq> []" by (simp add: BuildContainerConfig_def demo_spec_def)
  from forwarder_injected [OF this, of 8118 "''/usr/local/lib/misbah''"] show ?thesis
    by (simp add: proxyKeys_def)
qed

text \<open>Splitting an environment entry undoes joining a key without \<open>=\<close> to its value.\<close>

lemma EnvToKeyValues_join:
  "\<forall>kv\<in>set kvs. CHR ''='' \<notin> set (fst kv) \<Longrightarrow> EnvToKeyValues (map (\<lambda>(k, v). k @ ''='' @ v) kvs) = kvs"
  by (induction kvs) (auto simp: EnvToKeyValues_def split_n2_append)

end
