(* ===== verification/Lock_Manager.thy ===== *)
theory Lock_Manager
  imports Container_Spec Host_OS
begin

text \<open>
  Workspace locks: the lock file of \<open>model/lock.go\<close> and the lock manager of
  \<open>runtime/lock.go\<close>.  The JSON text of a lock is a parameter \<open>lock_codec\<close>.
\<close>

record Lock =
  lk_Workspace :: string
  lk_Provider :: string
  lk_PID :: int
  lk_StartedAt :: string
  lk_User :: string
  lk_ContainerID :: string
  lk_SandboxID :: string
  lk_Runtime :: string

record lock_codec =
  lk_Marshal :: "Lock \<Rightarrow> go_error + string"
  lk_Unmarshal :: "string \<Rightarrow> go_error + Lock"

definition NewLock :: "string \<Rightarrow> string \<Rightarrow> int \<Rightarrow> host \<Rightarrow> Lock" where
  "NewLock workspace provider pid h =
     \<lparr>lk_Workspace = workspace, lk_Provider = provider, lk_PID = pid, lk_StartedAt = h_clock h,
      lk_User = (if h_env h ''USER'' = [] then ''unknown'' else h_env h ''USER''),
      lk_ContainerID = [], lk_SandboxID = [], lk_Runtime = []\<rparr>"

text \<open>Any error of \<open>kill\<close> counts as "no such process".\<close>

definition IsStale :: "Lock \<Rightarrow> host \<Rightarrow> bool" where
  "IsStale l h = (\<not> fst (sys_kill (lk_PID l) Sig0 h))"

record LockManager =
  lm_locksDir :: string

datatype lock_error =
    LkMkdir os_error
  | LkRemoveStale os_error
  | LkLocked int
  | LkMarshal go_error
  | LkWrite os_error
  | LkRename os_error
  | LkRead os_error
  | LkParse go_error
  | LkNotOwner int
  | LkRemove os_error

definition getLockPath :: "LockManager \<Rightarrow> string \<Rightarrow> string" where
  "getLockPath lm workspace = join_path [lm_locksDir lm, workspace @ ''.lock'']"

definition readLock :: "lock_codec \<Rightarrow> string \<Rightarrow> host \<Rightarrow> lock_error + Lock" where
  "readLock k path h =
     (case os_read_file path h of
        Inl e \<Rightarrow> Inl (LkRead e)
      | Inr data \<Rightarrow> (case lk_Unmarshal k data of Inl e \<Rightarrow> Inl (LkParse e) | Inr l \<Rightarrow> Inr l))"

text \<open>
  \<open>AcquireLock\<close> in two parts, which other processes may interleave with: the check of an
  existing lock, and the writing of the new one.
\<close>

definition acquire_check :: "lock_codec \<Rightarrow> LockManager \<Rightarrow> string \<Rightarrow> host \<Rightarrow> lock_error option \<times> host" where
  "acquire_check k lm workspace h =
     (case os_mkdir_all (lm_locksDir lm) h of
        (Some e, h1) \<Rightarrow> (Some (LkMkdir e), h1)
      | (None, h1) \<Rightarrow>
        let lockPath = getLockPath lm workspace
        in case readLock k lockPath h1 of
             Inl e \<Rightarrow> (None, h1)
           | Inr l \<Rightarrow>
             if IsStale l h1
             then (case os_remove lockPath h1 of
                     (Some e, h2) \<Rightarrow> (Some (LkRemoveStale e), h2)
                   | (None, h2) \<Rightarrow> (None, h2))
             else (Some (LkLocked (lk_PID l)), h1))"

definition acquire_write ::
  "lock_codec \<Rightarrow> LockManager \<Rightarrow> string \<Rightarrow> string \<Rightarrow> host \<Rightarrow> (lock_error + Lock) \<times> host" where
  "acquire_write k lm workspace provider h =
     (let lockPath = getLockPath lm workspace;
          lock = NewLock workspace provider (h_pid h) h;
          tempPath = lockPath @ ''.tmp''
      in case lk_Marshal k lock of
           Inl e \<Rightarrow> (Inl (LkMarshal e), h)
         | Inr data \<Rightarrow>
           (case os_write_file tempPath data h of
              (Some e, h1) \<Rightarrow> (Inl (LkWrite e), h1)
            | (None, h1) \<Rightarrow>
              (case os_rename tempPath lockPath h1 of
                 (Some e, h2) \<Rightarrow> (Inl (LkRename e), snd (os_remove tempPath h2))
               | (None, h2) \<Rightarrow> (Inr lock, h2))))"

definition AcquireLock ::
  "lock_codec \<Rightarrow> LockManager \<Rightarrow> string \<Rightarrow> string \<Rightarrow> host \<Rightarrow> (lock_error + Lock) \<times> host" where
  "AcquireLock k lm workspace provider h =
     (case acquire_check k lm workspace h of
        (Some e, h1) \<Rightarrow> (Inl e, h1)
      | (None, h1) \<Rightarrow> acquire_write k lm workspace provider h1)"

definition remove_lock :: "string \<Rightarrow> host \<Rightarrow> lock_error option \<times> host" where
  "remove_lock path h = map_prod (map_option LkRemove) id (os_remove path h)"

definition ReleaseLock :: "lock_codec \<Rightarrow> LockManager \<Rightarrow> string \<Rightarrow> host \<Rightarrow> lock_error option \<times> host" where
  "ReleaseLock k lm workspace h =
     (let lockPath = getLockPath lm workspace
      in if (case os_stat lockPath h of Inl e \<Rightarrow> is_not_exist e | Inr n \<Rightarrow> False) then (None, h)
         else case readLock k lockPath h of
                Inl e \<Rightarrow> remove_lock lockPath h
              | Inr l \<Rightarrow>
                if lk_PID l \<noteq> h_pid h
                then (if IsStale l h then remove_lock lockPath h else (Some (LkNotOwner (lk_PID l)), h))
                else remove_lock lockPath h)"

text \<open>
  The loop that waits for the process to exit: the process table is seen anew at every
  poll, \<open>polls\<close> being what the polls before the deadline see.
\<close>

fun wait_exit :: "Lock \<Rightarrow> (int \<Rightarrow> proc_status) list \<Rightarrow> host \<Rightarrow> bool \<times> host" where
  "wait_exit l [] h = (False, h)"
| "wait_exit l (pt # pts) h =
     (let h1 = h\<lparr>h_proc := pt\<rparr>
      in if IsStale l h1 then (True, h1) else wait_exit l pts h1)"

definition ForceRelease ::
  "lock_codec \<Rightarrow> LockManager \<Rightarrow> (int \<Rightarrow> proc_status) list \<Rightarrow> string \<Rightarrow> host \<Rightarrow> lock_error option \<times> host" where
  "ForceRelease k lm polls workspace h =
     (let lockPath = getLockPath lm workspace
      in case readLock k lockPath h of
           Inl (LkRead e) \<Rightarrow> if is_not_exist e then (None, h) else (Some (LkRead e), h)
         | Inl e \<Rightarrow> (Some e, h)
         | Inr l \<Rightarrow>
           if IsStale l h then remove_lock lockPath h
           else
             let h1 = snd (sys_kill (lk_PID l) SIGTERM h)
             in case wait_exit l polls h1 of
                  (True, h2) \<Rightarrow> remove_lock lockPath h2
                | (False, h2) \<Rightarrow> remove_lock lockPath (snd (sys_kill (lk_PID l) SIGKILL h2)))"

definition GetLock :: "lock_codec \<Rightarrow> LockManager \<Rightarrow> string \<Rightarrow> host \<Rightarrow> lock_error + Lock" where
  "GetLock k lm workspace h = readLock k (getLockPath lm workspace) h"

definition IsLocked :: "lock_codec \<Rightarrow> LockManager \<Rightarrow> string \<Rightarrow> host \<Rightarrow> bool" where
  "IsLocked k lm workspace h =
     (case GetLock k lm workspace h of Inl e \<Rightarrow> False | Inr l \<Rightarrow> \<not> IsStale l h)"

section \<open>Lock paths\<close>

text \<open>
  For container names that pass validation the lock file lies directly in the locks
  directory, under the container's name, and different names have different lock files.
\<close>

theorem lock_paths_contained:
  assumes "is_abs (lm_locksDir lm)" and "validateContainerName n = None" and "validateContainerName m = None"
  shows "path_elems (getLockPath lm n) = path_elems (lm_locksDir lm) @ [n @ ''.lock''] \<and>
    (getLockPath lm n = getLockPath lm m \<longleftrightarrow> n = m)"
proof -
  have p: "plain_elem (x @ ''.lock'')" if "validateContainerName x = None" for x
    using that by (simp add: validateContainerName_iff valid_name_plain)
  have e: "path_elems (getLockPath lm x) = path_elems (lm_locksDir lm) @ [x @ ''.lock'']"
    if "validateContainerName x = None" for x
    unfolding getLockPath_def by (rule join_path_plain(1) [OF assms(1) p [OF that]])
  have "n = m" if eq: "getLockPath lm n = getLockPath lm m"
  proof -
    have "path_elems (lm_locksDir lm) @ [n @ ''.lock''] = path_elems (lm_locksDir lm) @ [m @ ''.lock'']"
      by (simp only: e [OF assms(2), symmetric] e [OF assms(3), symmetric] eq)
    then show ?thesis by simp
  qed
  then show ?thesis using e [OF assms(2)] by blast
qed

theorem lock_paths_contained_witness:
  "getLockPath \<lparr>lm_locksDir = ''/run/locks''\<rparr> ''a'' \<noteq> getLockPath \<lparr>lm_locksDir = ''/run/locks''\<rparr> ''b''"
  using lock_paths_contained [of "\<lparr>lm_locksDir = ''/run/locks''\<rparr>" "''a''" "''b''"]
  by (simp add: is_abs_def validateContainerName_iff valid_name_def) code_simp

section \<open>The contract of a lock service\<close>

datatype lock_op = TryAcquire string | TryRelease

text \<open>
  What users of the lock manager rely on: over the process that a lock names as its owner,
  acquiring makes the caller the owner, a lock whose owner is alive can be neither taken
  nor released by anyone else, and its owner can release it.  \<open>sane\<close> says that the host
  serves the calls, \<open>as_process\<close> is a switch to another process.
\<close>

locale lock_service =
  fixes acquire :: "string \<Rightarrow> 'h \<Rightarrow> bool \<times> 'h"
    and release :: "'h \<Rightarrow> bool \<times> 'h"
    and owner :: "'h \<Rightarrow> int option"
    and self :: "'h \<Rightarrow> int"
    and alive :: "int \<Rightarrow> 'h \<Rightarrow> bool"
    and sane :: "'h \<Rightarrow> bool"
    and as_process :: "int \<Rightarrow> 'h \<Rightarrow> 'h"
  assumes switch: "owner (as_process q h) = owner h" "self (as_process q h) = q"
      "alive p (as_process q h) = alive p h" "sane (as_process q h) = sane h"
    and frame: "sane h \<Longrightarrow> sane (snd (acquire pv h))" "sane h \<Longrightarrow> sane (snd (release h))"
      "alive p (snd (acquire pv h)) = alive p h" "alive p (snd (release h)) = alive p h"
    and acquired: "sane h \<Longrightarrow> fst (acquire pv h) \<Longrightarrow> owner (snd (acquire pv h)) = Some (self h)"
    and taken: "owner h = Some p \<Longrightarrow> alive p h \<Longrightarrow>
      \<not> fst (acquire pv h) \<and> owner (snd (acquire pv h)) = Some p"
    and not_mine: "owner h = Some p \<Longrightarrow> alive p h \<Longrightarrow> self h \<noteq> p \<Longrightarrow>
      \<not> fst (release h) \<and> owner (snd (release h)) = Some p"
    and released: "sane h \<Longrightarrow> owner h = Some (self h) \<Longrightarrow> fst (release h) \<and> owner (snd (release h)) = None"
begin

definition perform :: "int \<times> lock_op \<Rightarrow> 'h \<Rightarrow> bool \<times> 'h" where
  "perform qo h = (case qo of
     (q, TryAcquire pv) \<Rightarrow> acquire pv (as_process q h) | (q, TryRelease) \<Rightarrow> release (as_process q h))"

lemma perform_other:
  assumes "owner h = Some p" "alive p h" "fst qo \<noteq> p"
  shows "\<not> fst (perform qo h) \<and> owner (snd (perform qo h)) = Some p \<and> alive p (snd (perform qo h))"
  using assms by (cases qo; cases "snd qo") (simp_all add: perform_def switch frame taken not_mine)

text \<open>While its owner lives, a lock survives whatever other processes try.\<close>

lemma held_lock_stays:
  assumes "owner h = Some p" "alive p h" "\<forall>qo\<in>set ops. fst qo \<noteq> p"
  shows "owner (foldl (\<lambda>h qo. snd (perform qo h)) h ops) = Some p"
  using assms
proof (induction ops arbitrary: h)
  case (Cons qo ops)
  then show ?case using perform_other [of h p qo] by simp
qed simp

end

section \<open>The lock manager keeps the contract\<close>

text \<open>
  What \<open>encoding/json\<close> promises of a lock that it wrote: reading it back gives a lock with the same
  process number.  Its strings need not come back, since bytes that are not UTF-8 are replaced.
  \<open>lock_env\<close> is a host without faults where the paths of a lock are usable.
\<close>

definition codec_ok :: "lock_codec \<Rightarrow> bool" where
  "codec_ok k \<longleftrightarrow> (\<forall>l d. lk_Marshal k l = Inr d \<longrightarrow> (\<exists>l'. lk_Unmarshal k d = Inr l' \<and> lk_PID l' = lk_PID l))"

definition lock_env :: "lock_codec \<Rightarrow> LockManager \<Rightarrow> string \<Rightarrow> host \<Rightarrow> bool" where
  "lock_env k lm ws h \<longleftrightarrow> codec_ok k \<and> fault_free h \<and>
     (let p = getLockPath lm ws
      in p \<noteq> lm_locksDir lm \<and> p @ ''.tmp'' \<noteq> lm_locksDir lm \<and> h_fs h p \<noteq> Some Directory \<and>
         h_fs h (p @ ''.tmp'') \<noteq> Some Directory)"

definition lock_owner :: "lock_codec \<Rightarrow> LockManager \<Rightarrow> string \<Rightarrow> host \<Rightarrow> int option" where
  "lock_owner k lm ws h = (case GetLock k lm ws h of Inl e \<Rightarrow> None | Inr l \<Rightarrow> Some (lk_PID l))"

definition lm_acquire :: "lock_codec \<Rightarrow> LockManager \<Rightarrow> string \<Rightarrow> string \<Rightarrow> host \<Rightarrow> bool \<times> host" where
  "lm_acquire k lm ws pv h = (case AcquireLock k lm ws pv h of (Inl e, h') \<Rightarrow> (False, h') | (Inr l, h') \<Rightarrow> (True, h'))"

definition lm_release :: "lock_codec \<Rightarrow> LockManager \<Rightarrow> string \<Rightarrow> host \<Rightarrow> bool \<times> host" where
  "lm_release k lm ws h = (case ReleaseLock k lm ws h of (e, h') \<Rightarrow> (e = None, h'))"

definition running :: "int \<Rightarrow> host \<Rightarrow> bool" where
  "running p h \<longleftrightarrow> h_proc h p = OwnProcess"

lemma IsStale_running [simp]: "IsStale l h \<longleftrightarrow> \<not> running (lk_PID l) h"
  by (simp add: IsStale_def sys_kill_def running_def)

lemma lock_env_fault [simp]: "lock_env k lm ws h \<Longrightarrow> \<not> h_fault h op p"
  by (simp add: lock_env_def fault_free_def)

text \<open>Making the locks directory and removing the lock file keep the host usable.\<close>

lemma lock_env_fs:
  assumes "lock_env k lm ws h"
    and "\<And>p. p \<noteq> lm_locksDir lm \<Longrightarrow> fs p = Some Directory \<Longrightarrow> h_fs h p = Some Directory"
  shows "lock_env k lm ws (h\<lparr>h_fs := fs\<rparr>)"
  using assms by (auto simp: lock_env_def Let_def fault_free_def)

lemma mkdir_locks:
  assumes "lock_env k lm ws h" and "os_mkdir_all (lm_locksDir lm) h = (e, h1)"
  shows "lock_env k lm ws h1 \<and> h_proc h1 = h_proc h \<and> h_pid h1 = h_pid h \<and> h_clock h1 = h_clock h \<and>
    h_env h1 = h_env h \<and> (\<forall>p. p \<noteq> lm_locksDir lm \<longrightarrow> h_fs h1 p = h_fs h p)"
  using assms os_mkdir_all_cases [OF assms(2)]
  by (auto simp: lock_env_def Let_def fault_free_def)

lemma readLock_cong: "h_fs h1 p = h_fs h p \<Longrightarrow> h_fault h1 = h_fault h \<Longrightarrow> readLock k p h1 = readLock k p h"
  by (simp add: readLock_def os_read_file_def)

lemma remove_lock_env:
  assumes "lock_env k lm ws h" and "h_fs h (getLockPath lm ws) \<noteq> None"
  shows "os_remove (getLockPath lm ws) h = (None, h\<lparr>h_fs := (h_fs h)(getLockPath lm ws := None)\<rparr>) \<and>
    lock_env k lm ws (h\<lparr>h_fs := (h_fs h)(getLockPath lm ws := None)\<rparr>)"
  using assms by (auto simp: os_remove_def split: if_splits intro!: lock_env_fs)

lemma lock_owner_fs:
  "lock_owner k lm ws h = Some p \<Longrightarrow> h_fs h (getLockPath lm ws) \<noteq> None"
  by (auto simp: lock_owner_def GetLock_def readLock_def os_read_file_def split: option.splits if_splits)

lemma lock_owner_GetLock:
  "lock_owner k lm ws h = Some p \<longleftrightarrow> (\<exists>l. GetLock k lm ws h = Inr l \<and> lk_PID l = p)"
  by (auto simp: lock_owner_def split: sum.splits)

lemma lock_owner_none:
  "h_fs h (getLockPath lm ws) = None \<Longrightarrow> lock_owner k lm ws h = None"
  by (simp add: lock_owner_def GetLock_def readLock_def os_read_file_def)

lemma acquire_check_env:
  assumes "lock_env k lm ws h" and "acquire_check k lm ws h = (e, h1)"
  shows "lock_env k lm ws h1 \<and> h_proc h1 = h_proc h \<and> h_pid h1 = h_pid h \<and>
    (\<forall>p. lock_owner k lm ws h = Some p \<and> running p h \<longrightarrow> e \<noteq> None \<and> lock_owner k lm ws h1 = Some p)"
proof -
  obtain e0 h0 where md: "os_mkdir_all (lm_locksDir lm) h = (e0, h0)" by fastforce
  note env0 = mkdir_locks [OF assms(1) md]
  let ?p = "getLockPath lm ws"
  have ne: "?p \<noteq> lm_locksDir lm" using assms(1) by (simp add: lock_env_def Let_def)
  have rd: "readLock k ?p h0 = readLock k ?p h"
    by (rule readLock_cong) (use env0 ne os_frame(2) [of "lm_locksDir lm" h] md in auto)
  have own: "lock_owner k lm ws h0 = lock_owner k lm ws h" by (simp add: lock_owner_def GetLock_def rd)
  have run: "running q h0 = running q h" for q using env0 by (simp add: running_def)
  show ?thesis
  proof (cases e0)
    case (Some x)
    with assms(2) md have "e = Some (LkMkdir x)" "h1 = h0" by (simp_all add: acquire_check_def)
    with env0 own show ?thesis by simp
  next
    case None
    show ?thesis
    proof (cases "readLock k ?p h0")
      case (Inl x)
      with assms(2) md None have "h1 = h0" by (simp add: acquire_check_def Let_def)
      with env0 Inl rd show ?thesis by (simp add: lock_owner_GetLock GetLock_def)
    next
      case (Inr l)
      then have o: "lock_owner k lm ws h0 = Some (lk_PID l)" by (simp add: lock_owner_GetLock GetLock_def)
      note rm = remove_lock_env [OF conjunct1 [OF env0] lock_owner_fs [OF o]]
      show ?thesis
      proof (cases "running (lk_PID l) h0")
        case True
        with assms(2) md None Inr have "h1 = h0" "e = Some (LkLocked (lk_PID l))"
          by (simp_all add: acquire_check_def Let_def)
        with env0 own show ?thesis by simp
      next
        case False
        with assms(2) md None Inr rm have "h1 = h0\<lparr>h_fs := (h_fs h0)(?p := None)\<rparr>"
          by (simp add: acquire_check_def Let_def)
        with env0 rm False o own run show ?thesis by auto
      qed
    qed
  qed
qed

lemma NewLock_PID [simp]: "lk_PID (NewLock ws pv p h) = p"
  by (simp add: NewLock_def)

lemma acquire_write_ok:
  assumes "lock_env k lm ws h" and "lk_Marshal k (NewLock ws pv (h_pid h) h) = Inr t"
  shows "acquire_write k lm ws pv h = (Inr (NewLock ws pv (h_pid h) h),
    h\<lparr>h_fs := (h_fs h)(getLockPath lm ws @ ''.tmp'' := None, getLockPath lm ws \<mapsto> RegFile t)\<rparr>)"
proof -
  have "h_fs h (getLockPath lm ws @ ''.tmp'') \<noteq> Some Directory" "h_fs h (getLockPath lm ws) \<noteq> Some Directory"
    using assms(1) by (simp_all add: lock_env_def Let_def)
  then show ?thesis
    using assms by (simp add: acquire_write_def Let_def os_write_file_def os_rename_def)
qed

lemma acquire_write_env:
  assumes "lock_env k lm ws h" and "acquire_write k lm ws pv h = (r, h1)"
  shows "lock_env k lm ws h1 \<and> h_proc h1 = h_proc h \<and> h_pid h1 = h_pid h \<and>
    (\<forall>l. r = Inr l \<longrightarrow> lock_owner k lm ws h1 = Some (h_pid h) \<and> l = NewLock ws pv (h_pid h) h)"
proof -
  let ?p = "getLockPath lm ws"
  let ?l = "NewLock ws pv (h_pid h) h"
  have d: "h_fs h (?p @ ''.tmp'') \<noteq> Some Directory" "codec_ok k"
    using assms(1) by (simp_all add: lock_env_def Let_def)
  show ?thesis
  proof (cases "lk_Marshal k ?l")
    case (Inl e)
    then show ?thesis using assms by (auto simp: acquire_write_def Let_def)
  next
    case (Inr t)
    let ?h = "h\<lparr>h_fs := (h_fs h)(?p @ ''.tmp'' := None, ?p \<mapsto> RegFile t)\<rparr>"
    have "(r, h1) = (Inr ?l, ?h)"
      using assms(2) acquire_write_ok [OF assms(1) Inr] by simp
    moreover have "lock_env k lm ws ?h"
      by (rule lock_env_fs [OF assms(1)]) (auto split: if_splits)
    moreover obtain l' where "lk_Unmarshal k t = Inr l'" "lk_PID l' = h_pid h"
      using d(2) Inr unfolding codec_ok_def by (metis NewLock_PID)
    then have "lock_owner k lm ws ?h = Some (h_pid h)"
      using assms(1) by (simp add: lock_owner_def GetLock_def readLock_def os_read_file_def)
    ultimately show ?thesis by simp
  qed
qed

lemma AcquireLock_env:
  assumes "lock_env k lm ws h" and "AcquireLock k lm ws pv h = (r, h')"
  shows "lock_env k lm ws h' \<and> h_proc h' = h_proc h \<and> h_pid h' = h_pid h \<and>
    (\<forall>l. r = Inr l \<longrightarrow> lock_owner k lm ws h' = Some (h_pid h) \<and> lk_PID l = h_pid h) \<and>
    (\<forall>p. lock_owner k lm ws h = Some p \<and> running p h \<longrightarrow> (\<exists>e. r = Inl e) \<and> lock_owner k lm ws h' = Some p)"
proof -
  obtain e h1 where c: "acquire_check k lm ws h = (e, h1)" by fastforce
  note ck = acquire_check_env [OF assms(1) c]
  show ?thesis
  proof (cases e)
    case (Some x)
    with assms(2) c have "r = Inl x" "h' = h1" by (simp_all add: AcquireLock_def)
    with ck show ?thesis by auto
  next
    case None
    with assms(2) c have w: "acquire_write k lm ws pv h1 = (r, h')" by (simp add: AcquireLock_def)
    from ck have e1: "lock_env k lm ws h1" by simp
    from acquire_write_env [OF e1 w] ck None show ?thesis by (auto simp: NewLock_def)
  qed
qed

lemma ReleaseLock_env:
  assumes env: "lock_env k lm ws h" and "ReleaseLock k lm ws h = (e, h')"
  shows "lock_env k lm ws h' \<and> h_proc h' = h_proc h \<and> h_pid h' = h_pid h \<and>
    (lock_owner k lm ws h = Some (h_pid h) \<longrightarrow> e = None \<and> h_fs h' (getLockPath lm ws) = None) \<and>
    (\<forall>p. lock_owner k lm ws h = Some p \<and> running p h \<and> p \<noteq> h_pid h \<longrightarrow> e = Some (LkNotOwner p) \<and> h' = h)"
proof (cases "h_fs h (getLockPath lm ws)")
  case None
  with assms have "h' = h" by (simp add: ReleaseLock_def os_stat_def is_not_exist_def)
  with env show ?thesis using lock_owner_none [OF None] by simp
next
  case (Some n)
  let ?p = "getLockPath lm ws"
  let ?h = "h\<lparr>h_fs := (h_fs h)(?p := None)\<rparr>"
  have rm: "remove_lock ?p h = (None, ?h)" "lock_env k lm ws ?h"
    using remove_lock_env [OF env] Some by (simp_all add: remove_lock_def)
  have st: "os_stat ?p h = Inr n" using env Some by (simp add: os_stat_def)
  show ?thesis
  proof (cases "readLock k ?p h")
    case (Inl x)
    then have "ReleaseLock k lm ws h = remove_lock ?p h" by (simp add: ReleaseLock_def st)
    with assms(2) rm show ?thesis by (auto simp: lock_owner_GetLock GetLock_def Inl)
  next
    case (Inr l)
    then have o: "lock_owner k lm ws h = Some (lk_PID l)" by (simp add: lock_owner_GetLock GetLock_def)
    have "ReleaseLock k lm ws h =
        (if lk_PID l \<noteq> h_pid h \<and> running (lk_PID l) h then (Some (LkNotOwner (lk_PID l)), h) else remove_lock ?p h)"
      by (simp add: ReleaseLock_def st Inr Let_def)
    with assms(2) rm env o show ?thesis by (auto split: if_splits)
  qed
qed

lemma os_procD:
  "os_mkdir_all p h = (e, h') \<Longrightarrow> h_proc h' = h_proc h" "os_write_file p d h = (e, h') \<Longrightarrow> h_proc h' = h_proc h"
  "os_remove p h = (e, h') \<Longrightarrow> h_proc h' = h_proc h" "os_rename p q h = (e, h') \<Longrightarrow> h_proc h' = h_proc h"
  using os_frame(5-8) by (metis snd_conv)+

lemma os_frameD:
  "os_mkdir_all p h = (e, h') \<Longrightarrow> h_fault h' = h_fault h \<and> h_pid h' = h_pid h"
  "os_remove p h = (e, h') \<Longrightarrow> h_fault h' = h_fault h \<and> h_pid h' = h_pid h"
  using os_frame(2,3,10,11) by (metis snd_conv)+

lemma acquire_check_proc: "acquire_check k lm ws h = (e, h') \<Longrightarrow> h_proc h' = h_proc h"
  by (auto simp: acquire_check_def Let_def split: prod.splits option.splits sum.splits if_splits dest!: os_procD)

lemma acquire_write_proc: "acquire_write k lm ws pv h = (r, h') \<Longrightarrow> h_proc h' = h_proc h"
  by (auto simp: acquire_write_def Let_def split: prod.splits option.splits sum.splits dest!: os_procD)

lemma AcquireLock_proc: "AcquireLock k lm ws pv h = (r, h') \<Longrightarrow> h_proc h' = h_proc h"
  by (auto simp: AcquireLock_def split: prod.splits option.splits dest!: acquire_check_proc acquire_write_proc)

lemma ReleaseLock_proc: "ReleaseLock k lm ws h = (e, h') \<Longrightarrow> h_proc h' = h_proc h"
  by (auto simp: ReleaseLock_def remove_lock_def Let_def map_prod_def
      split: prod.splits sum.splits if_splits dest!: os_procD)

text \<open>A live owner keeps its lock against the calls of others, whichever calls of the operating system fail.\<close>

lemma held_lock_read:
  assumes "lock_owner k lm ws h = Some p"
  shows "\<exists>l d. readLock k (getLockPath lm ws) h = Inr l \<and> lk_PID l = p \<and> h_fs h (getLockPath lm ws) = Some (RegFile d)"
  using assms by (auto simp: lock_owner_GetLock GetLock_def readLock_def os_read_file_def split: if_splits option.splits node.splits sum.splits)

lemma acquire_held:
  assumes "lock_owner k lm ws h = Some p" and "running p h" and "AcquireLock k lm ws pv h = (r, h')"
  shows "(\<exists>e. r = Inl e) \<and> lock_owner k lm ws h' = Some p"
proof -
  let ?p = "getLockPath lm ws"
  obtain l d where l: "readLock k ?p h = Inr l" "lk_PID l = p" "h_fs h ?p = Some (RegFile d)" using held_lock_read [OF assms(1)] by blast
  obtain e h1 where md: "os_mkdir_all (lm_locksDir lm) h = (e, h1)" by fastforce
  have "h_fs h1 ?p = Some (RegFile d)" by (rule os_mkdir_all_keeps_files [OF md l(3)])
  moreover have f: "h_fault h1 = h_fault h" "h_proc h1 = h_proc h" using os_frame(2,6) md by (metis snd_conv)+
  ultimately have r1: "readLock k ?p h1 = Inr l" using l readLock_cong [of h1 ?p h] by simp
  then have "lock_owner k lm ws h1 = Some p" using l(2) by (simp add: lock_owner_GetLock GetLock_def)
  moreover have "running (lk_PID l) h1" using assms(2) l(2) f by (simp add: running_def)
  ultimately show ?thesis using assms(3) md r1
    by (cases e) (auto simp: AcquireLock_def acquire_check_def Let_def)
qed

lemma release_held:
  assumes "lock_owner k lm ws h = Some p" and "running p h" and "h_pid h \<noteq> p" and "ReleaseLock k lm ws h = (e, h')"
  shows "e \<noteq> None \<and> h' = h"
proof -
  obtain l d where "readLock k (getLockPath lm ws) h = Inr l" "lk_PID l = p" "h_fs h (getLockPath lm ws) = Some (RegFile d)"
    using held_lock_read [OF assms(1)] by blast
  with assms show ?thesis by (auto simp: ReleaseLock_def Let_def os_stat_def is_not_exist_def split: if_splits)
qed

definition as_pid :: "int \<Rightarrow> host \<Rightarrow> host" where
  "as_pid q h = h\<lparr>h_pid := q\<rparr>"

interpretation manager: lock_service
  "lm_acquire k lm ws" "lm_release k lm ws" "lock_owner k lm ws" h_pid running "lock_env k lm ws" as_pid for k lm ws
proof
  fix h q p pv
  show "lock_owner k lm ws (as_pid q h) = lock_owner k lm ws h"
    by (simp add: lock_owner_def GetLock_def readLock_def os_read_file_def as_pid_def)
  show "h_pid (as_pid q h) = q" "running p (as_pid q h) = running p h"
    "lock_env k lm ws (as_pid q h) = lock_env k lm ws h"
    by (simp_all add: as_pid_def running_def lock_env_def fault_free_def)
  obtain r ha where a: "AcquireLock k lm ws pv h = (r, ha)" by fastforce
  obtain e hr where r: "ReleaseLock k lm ws h = (e, hr)" by fastforce
  have proc: "h_proc ha = h_proc h" "h_proc hr = h_proc h"
    using AcquireLock_proc [OF a] ReleaseLock_proc [OF r] by simp_all
  have la: "lm_acquire k lm ws pv h = (\<exists>l. r = Inr l, ha)"
    by (cases r) (simp_all add: lm_acquire_def a)
  have lr: "lm_release k lm ws h = (e = None, hr)" by (simp add: lm_release_def r)
  show "running p (snd (lm_acquire k lm ws pv h)) = running p h" "running p (snd (lm_release k lm ws h)) = running p h"
    by (simp_all add: la lr running_def proc)
  show "\<not> fst (lm_acquire k lm ws pv h) \<and> lock_owner k lm ws (snd (lm_acquire k lm ws pv h)) = Some p"
    if "lock_owner k lm ws h = Some p" "running p h" using acquire_held [OF that a] by (auto simp: la)
  show "\<not> fst (lm_release k lm ws h) \<and> lock_owner k lm ws (snd (lm_release k lm ws h)) = Some p"
    if "lock_owner k lm ws h = Some p" "running p h" "h_pid h \<noteq> p" using release_held [OF that r] that(1) by (simp add: lr)
  assume env: "lock_env k lm ws h"
  note A = AcquireLock_env [OF env a] and R = ReleaseLock_env [OF env r]
  show "lock_env k lm ws (snd (lm_acquire k lm ws pv h))" "lock_env k lm ws (snd (lm_release k lm ws h))"
    using A R by (simp_all add: la lr)
  show "lock_owner k lm ws (snd (lm_acquire k lm ws pv h)) = Some (h_pid h)" if "fst (lm_acquire k lm ws pv h)"
    using A that by (auto simp: la lock_owner_GetLock)
  show "fst (lm_release k lm ws h) \<and> lock_owner k lm ws (snd (lm_release k lm ws h)) = None"
    if "lock_owner k lm ws h = Some (h_pid h)" using R that lock_owner_none by (simp add: lr)
qed

section \<open>Properties of the lock manager\<close>

text \<open>A codec for the locks of one workspace, which writes the process number only.\<close>

definition pid_lock :: "int \<Rightarrow> Lock" where
  "pid_lock p = \<lparr>lk_Workspace = ''ws'', lk_Provider = ''pv'', lk_PID = p, lk_StartedAt = ''now'',
     lk_User = ''unknown'', lk_ContainerID = [], lk_SandboxID = [], lk_Runtime = []\<rparr>"

definition pid_codec :: lock_codec where
  "pid_codec = \<lparr>lk_Marshal = (\<lambda>l. if 0 \<le> lk_PID l \<and> l = pid_lock (lk_PID l) then Inr (itoa_nat (nat (lk_PID l)))
                                 else Inl ''unsupported''),
     lk_Unmarshal = (\<lambda>d. Inr (pid_lock (int (digits_val d))))\<rparr>"

abbreviation run_locks :: LockManager where
  "run_locks \<equiv> \<lparr>lm_locksDir = ''/run/locks''\<rparr>"

lemma pid_codec_ok: "codec_ok pid_codec"
  by (auto simp: codec_ok_def pid_codec_def split: if_splits)

lemma demo_lock_path: "getLockPath run_locks ''ws'' = ''/run/locks/ws.lock''"
  by code_simp

lemma demo_lock_env: "lock_env pid_codec run_locks ''ws'' demo_host"
  by (simp add: lock_env_def pid_codec_ok fault_free_def demo_lock_path)

lemma demo_acquire_fs:
  "\<exists>h1. AcquireLock pid_codec run_locks ''ws'' ''pv'' demo_host = (Inr (pid_lock 100), h1) \<and> h_fs h1 ''/tmp/misbah-clone-1'' = None"
proof -
  let ?h = "demo_host\<lparr>h_fs := [''/run/locks'' \<mapsto> Directory]\<rparr>"
  have l: "NewLock ''ws'' ''pv'' (h_pid ?h) ?h = pid_lock 100" by (simp add: NewLock_def pid_lock_def demo_host_def)
  have m: "lk_Marshal pid_codec (pid_lock 100) = Inr (itoa_nat 100)" by (simp add: pid_codec_def pid_lock_def)
  have c: "acquire_check pid_codec run_locks ''ws'' demo_host = (None, ?h)"
    by (simp add: acquire_check_def os_defs readLock_def demo_lock_path Let_def)
  have env: "lock_env pid_codec run_locks ''ws'' ?h"
    by (simp add: lock_env_def pid_codec_ok fault_free_def demo_lock_path)
  show ?thesis using acquire_write_ok [OF env, of "''pv''"] l m c by (simp add: AcquireLock_def demo_lock_path)
qed

lemma demo_acquire: "\<exists>h1. AcquireLock pid_codec run_locks ''ws'' ''pv'' demo_host = (Inr (pid_lock 100), h1)"
  using demo_acquire_fs by blast

definition locked_host :: host where
  "locked_host = demo_host\<lparr>h_fs := [''/run/locks/ws.lock'' \<mapsto> RegFile ''100'']\<rparr>"

lemma locked_host_env: "lock_env pid_codec run_locks ''ws'' locked_host"
  by (simp add: lock_env_def pid_codec_ok fault_free_def demo_lock_path locked_host_def)

lemma locked_host_owner: "lock_owner pid_codec run_locks ''ws'' locked_host = Some 100"
proof -
  have "digits_val ''100'' = 100" by code_simp
  then show ?thesis
    by (simp add: lock_owner_def GetLock_def demo_lock_path readLock_def os_read_file_def locked_host_def
        pid_codec_def pid_lock_def)
qed



text \<open>
  A lock that was acquired is held by the caller, and the caller's release gives the
  workspace free again: the lock file is gone and anyone may acquire the lock.
\<close>

theorem acquire_release:
  assumes "lock_env k lm ws h" and "AcquireLock k lm ws pv h = (Inr l, h1)" and "running (h_pid h) h"
  shows "lock_owner k lm ws h1 = Some (h_pid h) \<and> lk_PID l = h_pid h \<and> IsLocked k lm ws h1 \<and>
    (\<exists>h2. ReleaseLock k lm ws h1 = (None, h2) \<and> h_fs h2 (getLockPath lm ws) = None \<and> \<not> IsLocked k lm ws h2)"
proof -
  note A = AcquireLock_env [OF assms(1,2)]
  obtain e h2 where r: "ReleaseLock k lm ws h1 = (e, h2)" by fastforce
  have own: "lock_owner k lm ws h1 = Some (h_pid h1)" using A by simp
  have "e = None" "h_fs h2 (getLockPath lm ws) = None"
    using ReleaseLock_env [OF conjunct1 [OF A] r] own by simp_all
  moreover have "\<not> IsLocked k lm ws h2"
    using lock_owner_none [OF calculation(2), of k] by (auto simp: IsLocked_def lock_owner_def split: sum.splits)
  ultimately show ?thesis using A r assms(3) by (auto simp: IsLocked_def running_def lock_owner_GetLock)
qed

theorem acquire_release_witness:
  "\<exists>l h1. AcquireLock pid_codec run_locks ''ws'' ''pv'' demo_host = (Inr l, h1) \<and> IsLocked pid_codec run_locks ''ws'' h1"
proof -
  obtain h1 where a: "AcquireLock pid_codec run_locks ''ws'' ''pv'' demo_host = (Inr (pid_lock 100), h1)"
    using demo_acquire by blast
  from acquire_release [OF demo_lock_env a] a show ?thesis by (auto simp: running_def)
qed

text \<open>
  The exclusion does not extend to overlapping calls.  On a host without faults and
  without a lock, two processes that both look before either writes both acquire the lock:
  the rename that puts the new file in place does not check that it is still absent.
\<close>

theorem acquire_race:
  assumes "lock_env k lm ws h" and "h_fs h (getLockPath lm ws) = None"
    and "h_fs h (lm_locksDir lm) = Some Directory"
    and "lk_Marshal k (NewLock ws pv p h) = Inr t" and "lk_Marshal k (NewLock ws pv q h) = Inr u"
  shows "let (c1, h1) = acquire_check k lm ws (as_pid p h);
             (c2, h2) = acquire_check k lm ws (as_pid q h1);
             (r1, h3) = acquire_write k lm ws pv (as_pid p h2);
             (r2, h4) = acquire_write k lm ws pv (as_pid q h3)
         in c1 = None \<and> c2 = None \<and> (\<exists>l. r1 = Inr l \<and> lk_PID l = p) \<and> (\<exists>l. r2 = Inr l \<and> lk_PID l = q)"
proof -
  have noop: "acquire_check k lm ws (as_pid x h) = (None, as_pid x h)" for x
    using assms(1-3)
    by (simp add: acquire_check_def os_mkdir_all_def as_pid_def readLock_def os_read_file_def Let_def fun_upd_idem)
  have pp: "as_pid a (as_pid b h) = as_pid a h" for a b by (simp add: as_pid_def)
  have new: "NewLock ws pv x (as_pid y h) = NewLock ws pv x h" "NewLock ws pv x (h'\<lparr>h_fs := f\<rparr>) = NewLock ws pv x h'"
    "lk_PID (NewLock ws pv x h) = x" "as_pid x (h'\<lparr>h_fs := f\<rparr>) = (as_pid x h')\<lparr>h_fs := f\<rparr>" for x y h' f
    by (simp_all add: NewLock_def as_pid_def)
  have env: "lock_env k lm ws (as_pid x h)" for x using assms(1) manager.switch(4) by blast
  let ?fs = "(h_fs h)(getLockPath lm ws @ ''.tmp'' := None, getLockPath lm ws \<mapsto> RegFile t)"
  have fs: "h_fs (as_pid x h) = h_fs h" for x by (simp add: as_pid_def)
  have w1: "acquire_write k lm ws pv (as_pid p h) = (Inr (NewLock ws pv p h), (as_pid p h)\<lparr>h_fs := ?fs\<rparr>)"
    using acquire_write_ok [OF env [of p], of pv t] assms(4) by (simp add: manager.switch(2) new fs)
  have env1: "lock_env k lm ws ((as_pid q h)\<lparr>h_fs := ?fs\<rparr>)"
    by (rule lock_env_fs [OF env]) (auto simp: fs split: if_splits)
  have "fst (acquire_write k lm ws pv ((as_pid q h)\<lparr>h_fs := ?fs\<rparr>)) = Inr (NewLock ws pv q h)"
    using acquire_write_ok [OF env1, of pv u] assms(5) by (simp add: manager.switch(2) new)
  then show ?thesis using noop w1 by (auto simp: pp new split: prod.splits)
qed

theorem acquire_race_witness:
  "let (c1, h1) = acquire_check pid_codec run_locks ''ws'' (as_pid 7 (demo_host\<lparr>h_fs := [''/run/locks'' \<mapsto> Directory]\<rparr>));
       (c2, h2) = acquire_check pid_codec run_locks ''ws'' (as_pid 8 h1);
       (r1, h3) = acquire_write pid_codec run_locks ''ws'' ''pv'' (as_pid 7 h2);
       (r2, h4) = acquire_write pid_codec run_locks ''ws'' ''pv'' (as_pid 8 h3)
   in c1 = None \<and> c2 = None \<and> (\<exists>l. r1 = Inr l \<and> lk_PID l = 7) \<and> (\<exists>l. r2 = Inr l \<and> lk_PID l = 8)"
proof -
  let ?h = "demo_host\<lparr>h_fs := [''/run/locks'' \<mapsto> Directory]\<rparr>"
  have "NewLock ''ws'' ''pv'' x ?h = pid_lock x" for x by (simp add: NewLock_def pid_lock_def demo_host_def)
  then have m: "lk_Marshal pid_codec (NewLock ''ws'' ''pv'' 7 ?h) = Inr (itoa_nat 7)"
    "lk_Marshal pid_codec (NewLock ''ws'' ''pv'' 8 ?h) = Inr (itoa_nat 8)"
    by (simp_all add: pid_codec_def pid_lock_def)
  have env: "lock_env pid_codec run_locks ''ws'' ?h"
    by (simp add: lock_env_def pid_codec_ok fault_free_def demo_lock_path)
  show ?thesis by (rule acquire_race [OF env _ _ m]) (simp_all add: demo_lock_path)
qed

text \<open>
  A lock whose owner runs under another user is taken over although the owner is
  alive, since the EPERM of \<open>kill\<close> counts as a dead process: \<open>AcquireLock\<close> succeeds and the
  caller is the owner from then on.
\<close>

theorem foreign_lock_taken_over:
  assumes "lock_env k lm ws h" and "lock_owner k lm ws h = Some p" and "h_proc h p = ForeignProcess"
    and "h_fs h (lm_locksDir lm) = Some Directory" and "lk_Marshal k (NewLock ws pv (h_pid h) h) = Inr t"
  shows "\<exists>l h'. AcquireLock k lm ws pv h = (Inr l, h') \<and> lock_owner k lm ws h' = Some (h_pid h)"
proof -
  let ?p = "getLockPath lm ws"
  let ?h = "h\<lparr>h_fs := (h_fs h)(?p := None)\<rparr>"
  obtain l where l: "readLock k ?p h = Inr l" "lk_PID l = p" using assms(2) by (auto simp: lock_owner_GetLock GetLock_def)
  note rm = remove_lock_env [OF assms(1) lock_owner_fs [OF assms(2)]]
  have md: "os_mkdir_all (lm_locksDir lm) h = (None, h)"
    using assms(1,4) by (simp add: os_mkdir_all_def fun_upd_idem)
  have c: "acquire_check k lm ws h = (None, ?h)"
    using rm l assms(3) by (simp add: acquire_check_def md Let_def running_def)
  have m: "lk_Marshal k (NewLock ws pv (h_pid ?h) ?h) = Inr t"
    using assms(5) by (cases "h_env h ''USER'' = []") (simp_all add: NewLock_def)
  obtain h' where w: "acquire_write k lm ws pv ?h = (Inr (NewLock ws pv (h_pid h) ?h), h')"
    using acquire_write_ok [OF conjunct2 [OF rm] m] by simp
  then have "lock_owner k lm ws h' = Some (h_pid h)"
    using acquire_write_env [OF conjunct2 [OF rm] w] by simp
  with c w show ?thesis by (auto simp: AcquireLock_def)
qed

definition foreign_host :: host where
  "foreign_host = locked_host\<lparr>h_fs := [''/run/locks/ws.lock'' \<mapsto> RegFile ''55'', ''/run/locks'' \<mapsto> Directory],
     h_proc := (\<lambda>p. if p = 55 then ForeignProcess else OwnProcess)\<rparr>"

theorem foreign_lock_taken_over_witness:
  "\<exists>l h'. AcquireLock pid_codec run_locks ''ws'' ''pv'' foreign_host = (Inr l, h') \<and>
     lock_owner pid_codec run_locks ''ws'' h' = Some 100"
proof -
  have d: "digits_val ''55'' = 55" by code_simp
  have env: "lock_env pid_codec run_locks ''ws'' foreign_host"
    by (simp add: lock_env_def pid_codec_ok fault_free_def demo_lock_path locked_host_def foreign_host_def)
  have own: "lock_owner pid_codec run_locks ''ws'' foreign_host = Some 55"
    by (simp add: lock_owner_def GetLock_def demo_lock_path readLock_def os_read_file_def foreign_host_def
        locked_host_def pid_codec_def pid_lock_def d)
  have pid: "h_pid foreign_host = 100" by (simp add: foreign_host_def locked_host_def)
  have "NewLock ''ws'' ''pv'' (h_pid foreign_host) foreign_host = pid_lock 100"
    by (simp add: NewLock_def pid_lock_def foreign_host_def locked_host_def demo_host_def)
  then have m: "lk_Marshal pid_codec (NewLock ''ws'' ''pv'' (h_pid foreign_host) foreign_host) = Inr (itoa_nat 100)"
    by (simp add: pid_codec_def pid_lock_def)
  show ?thesis using foreign_lock_taken_over [OF env own _ _ m]
    by (simp add: pid foreign_host_def locked_host_def)
qed

lemma wait_exit_result:
  "\<exists>pt. wait_exit l polls h = (\<exists>pt\<in>set polls. pt (lk_PID l) \<noteq> OwnProcess, h\<lparr>h_proc := pt\<rparr>) \<and>
     ((\<forall>pt\<in>set polls. pt (lk_PID l) = OwnProcess) \<longrightarrow> h_proc h (lk_PID l) = OwnProcess \<longrightarrow> pt (lk_PID l) = OwnProcess)"
proof (induction polls arbitrary: h)
  case Nil
  show ?case by (intro exI [of _ "h_proc h"]) simp
next
  case (Cons q polls)
  show ?case
  proof (cases "q (lk_PID l) = OwnProcess")
    case True
    with Cons.IH [of "h\<lparr>h_proc := q\<rparr>"] show ?thesis by (auto simp: running_def Let_def)
  next
    case False
    then show ?thesis by (intro exI [of _ q]) (auto simp: running_def Let_def)
  qed
qed

lemma ForceRelease_result:
  assumes "lock_env k lm ws h" and "GetLock k lm ws h = Inr l"
  shows "\<exists>h'. ForceRelease k lm polls ws h = (None, h') \<and> h_fs h' (getLockPath lm ws) = None \<and>
    h_signals h' = h_signals h @
      (if \<not> running (lk_PID l) h then []
       else if \<exists>pt\<in>set polls. pt (lk_PID l) \<noteq> OwnProcess then [(lk_PID l, SIGTERM)]
       else [(lk_PID l, SIGTERM), (lk_PID l, SIGKILL)])"
proof -
  let ?p = "getLockPath lm ws"
  have rd: "readLock k ?p h = Inr l" using assms(2) by (simp add: GetLock_def)
  have some: "h_fs h ?p \<noteq> None"
    by (rule lock_owner_fs [of k lm ws h "lk_PID l"]) (simp add: lock_owner_GetLock assms(2))
  have rm: "remove_lock ?p g = (None, g\<lparr>h_fs := (h_fs g)(?p := None)\<rparr>)"
    if "h_fs g = h_fs h" "h_fault g = h_fault h" for g
    using some that assms(1) by (auto simp: remove_lock_def os_remove_def split: option.splits)
  show ?thesis
  proof (cases "running (lk_PID l) h")
    case False
    then show ?thesis by (simp add: ForceRelease_def rd rm)
  next
    case True
    let ?h1 = "h\<lparr>h_signals := h_signals h @ [(lk_PID l, SIGTERM)]\<rparr>"
    obtain pt where w: "wait_exit l polls ?h1 = (\<exists>pt\<in>set polls. pt (lk_PID l) \<noteq> OwnProcess, ?h1\<lparr>h_proc := pt\<rparr>)"
      and alive: "(\<forall>pt\<in>set polls. pt (lk_PID l) = OwnProcess) \<longrightarrow> h_proc ?h1 (lk_PID l) = OwnProcess \<longrightarrow> pt (lk_PID l) = OwnProcess"
      using wait_exit_result [of l polls ?h1] by blast
    have k: "sys_kill (lk_PID l) SIGTERM h = (True, ?h1)" using True by (simp add: sys_kill_def running_def)
    show ?thesis
    proof (cases "\<exists>pt\<in>set polls. pt (lk_PID l) \<noteq> OwnProcess")
      case True
      with w k \<open>running (lk_PID l) h\<close> show ?thesis by (simp add: ForceRelease_def rd rm)
    next
      case False
      with alive \<open>running (lk_PID l) h\<close> have "pt (lk_PID l) = OwnProcess" by (simp add: running_def)
      with w k False \<open>running (lk_PID l) h\<close> show ?thesis by (simp add: ForceRelease_def rd rm sys_kill_def)
    qed
  qed
qed

text \<open>
  \<open>ForceRelease\<close> on a readable lock always ends with the lock file removed and no
  error.  A dead owner gets no signal; a live one gets SIGTERM first, and SIGKILL
  afterwards exactly if every poll of the waiting loop still sees it running.
\<close>

theorem ForceRelease_outcome:
  assumes "lock_env k lm ws h" and "GetLock k lm ws h = Inr l"
  shows "\<exists>h'. ForceRelease k lm polls ws h = (None, h') \<and> h_fs h' (getLockPath lm ws) = None \<and>
    h_signals h' = h_signals h @
      (if \<not> running (lk_PID l) h then []
       else if \<exists>pt\<in>set polls. pt (lk_PID l) \<noteq> OwnProcess then [(lk_PID l, SIGTERM)]
       else [(lk_PID l, SIGTERM), (lk_PID l, SIGKILL)])"
  by (rule ForceRelease_result [OF assms])

theorem ForceRelease_outcome_witness:
  "\<exists>h'. ForceRelease pid_codec run_locks [\<lambda>p. OwnProcess, \<lambda>p. NoProcess] ''ws'' locked_host = (None, h') \<and>
     h_signals h' = [(100, SIGTERM)]"
proof -
  have "digits_val ''100'' = 100" by code_simp
  then have l: "GetLock pid_codec run_locks ''ws'' locked_host = Inr (pid_lock 100)"
    by (simp add: GetLock_def demo_lock_path readLock_def os_read_file_def locked_host_def pid_codec_def)
  from ForceRelease_outcome [OF locked_host_env l, of "[\<lambda>p. OwnProcess, \<lambda>p. NoProcess]"] show ?thesis
    by (auto simp: running_def locked_host_def pid_lock_def demo_host_def)
qed

end
