(* ===== verification/Namespace.thy ===== *)
theory Namespace
  imports Shell_Quote Cgroup
begin

text \<open>
  The namespace runtime: \<open>runtime/namespace.go\<close>, which turns a specification into a shell
  script and an \<open>unshare\<close> command line and runs it, with the bind mounter of
  \<open>runtime/bind.go\<close>.  The commands that are run are recorded; what they do on the host and
  whether they fail is the environment's part (\<open>ns_env\<close>).
\<close>

section \<open>Mount scripts\<close>

abbreviation LF :: string where "LF \<equiv> [CHR 0x0A]"
abbreviation TAB :: string where "TAB \<equiv> [CHR 0x09]"

definition dquoted :: "string \<Rightarrow> string" where
  "dquoted s = [CHR 0x22] @ s @ [CHR 0x22]"

definition mkdir_line :: "string \<Rightarrow> string" where
  "mkdir_line d = ''mkdir -p '' @ dquoted d @ LF"

definition bind_options :: "string list \<Rightarrow> string" where
  "bind_options opts =
     foldl (\<lambda>acc opt. if opt \<noteq> ''bind'' \<and> opt \<noteq> ''rbind'' then acc @ '','' @ opt else acc) ''bind'' opts"

definition buildBindMount :: "MountSpec \<Rightarrow> string" where
  "buildBindMount m =
     mkdir_line (mnt_Destination m) @
     ''mount --bind -o '' @ bind_options (mnt_Options m) @ '' '' @ dquoted (mnt_Source m) @ '' '' @
       dquoted (mnt_Destination m) @ LF"

definition buildTmpfsMount :: "MountSpec \<Rightarrow> string" where
  "buildTmpfsMount m =
     mkdir_line (mnt_Destination m) @
     ''mount -t tmpfs'' @ (if mnt_Options m \<noteq> [] then '' -o '' @ str_join '','' (mnt_Options m) else []) @
       '' tmpfs '' @ dquoted (mnt_Destination m) @ LF"

text \<open>An overlay mount without its configuration is a nil dereference: no script.\<close>

definition buildOverlayMount :: "MountSpec \<Rightarrow> string option" where
  "buildOverlayMount m =
     (case mnt_Overlay m of
        None \<Rightarrow> None
      | Some v \<Rightarrow> Some
        (concat (map mkdir_line [ov_Upper v, ov_Work v, mnt_Destination m]) @
         ''fuse-overlayfs -o lowerdir='' @ ov_Lower v @ '',upperdir='' @ ov_Upper v @ '',workdir='' @ ov_Work v @
           '' '' @ mnt_Destination m @ LF))"

definition buildProcMount :: "MountSpec \<Rightarrow> string" where
  "buildProcMount m =
     mkdir_line (mnt_Destination m) @ ''mount -t proc proc '' @ dquoted (mnt_Destination m) @ LF"

text \<open>The switch on the mount's type; an unknown type is only logged.\<close>

definition mount_lines :: "MountSpec \<Rightarrow> string option" where
  "mount_lines m =
     (if mnt_Type m = MountTypeBind then Some (buildBindMount m)
      else if mnt_Type m = MountTypeTmpfs then Some (buildTmpfsMount m)
      else if mnt_Type m = MountTypeProc then Some (buildProcMount m)
      else if mnt_Type m = MountTypeOverlay then buildOverlayMount m
      else Some [])"

fun all_mount_lines :: "MountSpec list \<Rightarrow> string option" where
  "all_mount_lines [] = Some []"
| "all_mount_lines (m # ms) =
     (case mount_lines m of
        None \<Rightarrow> None
      | Some l \<Rightarrow> map_option (\<lambda>rest. l @ rest) (all_mount_lines ms))"

definition socket_lines :: "string \<Rightarrow> string" where
  "socket_lines socketPath =
     ''if mkdir -p '' @ dquoted (dir_path socketPath) @ '' 2>/dev/null && touch '' @ dquoted socketPath @
       '' 2>/dev/null; then'' @ LF @
     ''  mount --bind '' @ dquoted socketPath @ '' '' @ dquoted socketPath @ LF @
     ''fi'' @ LF"

definition buildMountScript :: "string \<Rightarrow> MountSpec list \<Rightarrow> host \<Rightarrow> string option" where
  "buildMountScript socketPath mounts h =
     map_option (\<lambda>s. s @ (case os_stat socketPath h of Inl _ \<Rightarrow> [] | Inr _ \<Rightarrow> socket_lines socketPath))
       (all_mount_lines mounts)"

definition buildShellCommand :: "ContainerSpec \<Rightarrow> string \<Rightarrow> string" where
  "buildShellCommand spec mountScript =
     LF @ TAB @ TAB @ ''set -e'' @ LF @ TAB @ TAB @ mountScript @ LF @ TAB @ TAB @
     ''cd '' @ dquoted (proc_Cwd (spec_Process spec)) @ LF @ TAB @ TAB @
     ''exec '' @ str_join '' '' (map shellQuote (proc_Command (spec_Process spec))) @ LF @ TAB"

definition buildUnshareArgs :: "NamespaceSpec \<Rightarrow> string list" where
  "buildUnshareArgs ns =
     (if ns_User ns then [''--user'', ''--map-root-user''] else []) @
     (if ns_Mount ns then [''--mount''] else []) @
     (if ns_PID ns then [''--pid'', ''--fork''] else []) @
     (if ns_Network ns then [''--net''] else []) @
     (if ns_IPC ns then [''--ipc''] else []) @
     (if ns_UTS ns then [''--uts''] else [])"

section \<open>Creating a container\<close>

text \<open>
  The parts of the environment: the operating system's name, whether \<open>unshare\<close> is found,
  the process environment, the daemon's socket path, and the outcome of a command run with
  an environment on a host (an error if it fails, and the host it leaves behind).
\<close>

record ns_env =
  nv_GOOS :: string
  nv_LookPath :: "go_error option"
  nv_Environ :: "string list"
  nv_DaemonSocket :: string
  nv_Run :: "string list \<Rightarrow> string list \<Rightarrow> host \<Rightarrow> go_error option \<times> host"

datatype ns_error =
    NsUnsupportedOS string
  | NsInvalidSpec spec_error
  | NsNoUnshare
  | NsPanic
  | NsRunFailed go_error

definition container_command :: "ContainerSpec \<Rightarrow> string \<Rightarrow> string list" where
  "container_command spec shellCmd =
     (let netns = proc_NetNsName (spec_Process spec);
          ns = (if netns \<noteq> [] then (spec_Namespaces spec)\<lparr>ns_Network := False\<rparr> else spec_Namespaces spec);
          args = buildUnshareArgs ns @ [''bash'', ''-c'', shellCmd]
      in if netns \<noteq> [] then [''ip'', ''netns'', ''exec'', netns, ''unshare''] @ args else ''unshare'' # args)"

definition CreateContainer ::
  "ns_env \<Rightarrow> CgroupManager \<Rightarrow> ContainerSpec \<Rightarrow> host \<Rightarrow> ns_error option \<times> string list list \<times> host" where
  "CreateContainer env cg spec h =
     (if nv_GOOS env \<noteq> ''linux'' then (Some (NsUnsupportedOS (nv_GOOS env)), [], h)
      else case ContainerSpec_Validate spec of
        Some e \<Rightarrow> (Some (NsInvalidSpec e), [], h)
      | None \<Rightarrow>
        if nv_LookPath env \<noteq> None then (Some NsNoUnshare, [], h)
        else case buildMountScript (nv_DaemonSocket env) (spec_Mounts spec) h of
          None \<Rightarrow> (Some NsPanic, [], h)
        | Some script \<Rightarrow>
          let cmd = container_command spec (buildShellCommand spec script);
              h1 = (if spec_Resources spec \<noteq> None then snd (Cgroup_Setup cg (spec_Resources spec) h) else h)
          in case nv_Run env cmd (nv_Environ env @ proc_Env (spec_Process spec)) h1 of
               (Some e, h2) \<Rightarrow> (Some (NsRunFailed e), [cmd], h2)
             | (None, h2) \<Rightarrow> (None, [cmd], snd (Cgroup_Cleanup cg h2)))"

text \<open>The probe for unprivileged user namespaces.\<close>

definition CheckNamespaceSupport :: "ns_env \<Rightarrow> host \<Rightarrow> ns_error option \<times> host" where
  "CheckNamespaceSupport env h =
     (if nv_GOOS env \<noteq> ''linux'' then (Some (NsUnsupportedOS (nv_GOOS env)), h)
      else if nv_LookPath env \<noteq> None then (Some NsNoUnshare, h)
      else apfst (map_option NsRunFailed)
        (nv_Run env [''unshare'', ''--user'', ''--mount'', ''--map-root-user'', ''--pid'', ''--fork'', ''true''] (nv_Environ env) h))"

section \<open>Bind mounter\<close>

definition PrepareMountPoint :: "string \<Rightarrow> host \<Rightarrow> os_error option \<times> host" where
  "PrepareMountPoint path h = os_mkdir_all path h"

definition BindMounter_Cleanup :: "string \<Rightarrow> host \<Rightarrow> os_error option \<times> host" where
  "BindMounter_Cleanup path h =
     (if (case os_stat path h of Inl e \<Rightarrow> is_not_exist e | Inr _ \<Rightarrow> False) then (None, h)
      else os_remove_all path h)"

section \<open>Properties\<close>

text \<open>
  The probe runs a program with the same flags that a container with user, mount and process
  namespaces is run with.
\<close>

lemma probe_flags:
  "set [''--user'', ''--mount'', ''--map-root-user'', ''--pid'', ''--fork''] =
     set (buildUnshareArgs \<lparr>ns_User = True, ns_Mount = True, ns_PID = True, ns_Network = False, ns_IPC = False, ns_UTS = False\<rparr>)"
  by (auto simp: buildUnshareArgs_def)

text \<open>A specification that passes validation never hits the nil dereference.\<close>

lemma valid_mount_lines: "valid_mount m \<Longrightarrow> mount_lines m \<noteq> None"
  by (auto simp: valid_mount_def mount_lines_def mount_type_defs buildOverlayMount_def)

lemma valid_all_mount_lines: "list_all valid_mount ms \<Longrightarrow> all_mount_lines ms \<noteq> None"
  by (induction ms) (auto simp: valid_mount_lines split: option.splits dest: valid_mount_lines)

text \<open>
  C27: the shell command of a container hands the program exactly the argument list of
  the specification: whatever bytes the arguments hold, the shell splits the quoted text
  after \<open>exec\<close> back into them, and nothing in it is expanded or executed.
\<close>

theorem command_quoting_roundtrip:
  "\<exists>pre line. buildShellCommand spec script = pre @ ''exec '' @ line @ LF @ TAB \<and>
     sh_words line = Some (proc_Command (spec_Process spec))"
  by (intro exI [of _ "LF @ TAB @ TAB @ ''set -e'' @ LF @ TAB @ TAB @ script @ LF @ TAB @ TAB @
        ''cd '' @ dquoted (proc_Cwd (spec_Process spec)) @ LF @ TAB @ TAB"]
      exI [of _ "str_join '' '' (map shellQuote (proc_Command (spec_Process spec)))"])
    (simp add: buildShellCommand_def sh_words_quoted)

text \<open>
  C28: a container is only ever run in its own user and mount namespaces, by one command:
  \<open>CreateContainer\<close> runs nothing for a specification that does not validate, and otherwise
  one \<open>unshare\<close> whose arguments ask for them, within the given network namespace if there
  is one, and for a network namespace of its own otherwise if the specification says so.
\<close>

theorem CreateContainer_isolates:
  assumes "CreateContainer env cg spec h = (e, cmds, h')" and "cmds \<noteq> []"
  shows "valid_spec spec \<and> (\<exists>cmd args sh. cmds = [cmd] \<and>
    cmd = (if proc_NetNsName (spec_Process spec) \<noteq> []
           then [''ip'', ''netns'', ''exec'', proc_NetNsName (spec_Process spec), ''unshare''] else [''unshare'']) @
          args @ [''bash'', ''-c'', sh] \<and>
    {''--user'', ''--map-root-user'', ''--mount''} \<subseteq> set args \<and>
    (''--net'' \<in> set args \<longleftrightarrow> ns_Network (spec_Namespaces spec) \<and> proc_NetNsName (spec_Process spec) = []))"
proof -
  from assms obtain script where v: "ContainerSpec_Validate spec = None"
    and c: "cmds = [container_command spec (buildShellCommand spec script)]"
    by (auto simp: CreateContainer_def Let_def split: if_splits option.splits prod.splits)
  have vs: "valid_spec spec" using v by (simp add: Validate_iff)
  have ns: "ns_User (spec_Namespaces spec)" "ns_Mount (spec_Namespaces spec)"
    using vs by (simp_all add: valid_spec_def)
  let ?ns = "if proc_NetNsName (spec_Process spec) \<noteq> [] then (spec_Namespaces spec)\<lparr>ns_Network := False\<rparr>
    else spec_Namespaces spec"
  have "{''--user'', ''--map-root-user'', ''--mount''} \<subseteq> set (buildUnshareArgs ?ns)"
    using ns by (auto simp: buildUnshareArgs_def)
  moreover have "''--net'' \<in> set (buildUnshareArgs ?ns) \<longleftrightarrow>
      ns_Network (spec_Namespaces spec) \<and> proc_NetNsName (spec_Process spec) = []"
    by (auto simp: buildUnshareArgs_def)
  ultimately show ?thesis using vs
    by (intro conjI exI [of _ "container_command spec (buildShellCommand spec script)"] exI [of _ "buildUnshareArgs ?ns"]
        exI [of _ "buildShellCommand spec script"]) (simp_all add: c container_command_def Let_def)
qed

definition demo_ns_env :: ns_env where
  "demo_ns_env = \<lparr>nv_GOOS = ''linux'', nv_LookPath = None, nv_Environ = [], nv_DaemonSocket = ''/run/d.sock'',
     nv_Run = (\<lambda>cmd en h. (None, h))\<rparr>"

theorem CreateContainer_isolates_witness:
  "\<exists>cmd h'. CreateContainer demo_ns_env (NewCgroupManager ''demo'') demo_spec demo_host = (None, [cmd], h') \<and>
     ''--user'' \<in> set cmd"
proof -
  obtain cmd h' where c: "CreateContainer demo_ns_env (NewCgroupManager ''demo'') demo_spec demo_host = (None, [cmd], h')"
    by (simp add: CreateContainer_def demo_ns_env_def demo_spec_valid buildMountScript_def Let_def)
      (simp add: demo_spec_def)
  from CreateContainer_isolates [OF c] c show ?thesis by auto
qed

lemma cgroup_path_elems:
  assumes "valid_name n"
  shows "is_abs (getCgroupPath (NewCgroupManager n)) \<and>
    path_elems (getCgroupPath (NewCgroupManager n)) = [''sys'', ''fs'', ''cgroup'', ''misbah'', n]"
proof -
  have pl: "plain_elem n" using assms by (cases n) (auto simp: valid_name_def plain_elem_def)
  let ?d = "''/sys/fs/cgroup/misbah''"
  have a: "is_abs ?d" by (simp add: is_abs_def)
  have e: "path_elems ?d = [''sys'', ''fs'', ''cgroup'', ''misbah'']" by code_simp
  have g: "getCgroupPath (NewCgroupManager n) = join_path [?d, n]"
    by (simp add: getCgroupPath_def NewCgroupManager_def join_path_def)
  show ?thesis
    unfolding g join_path_plain(1) [OF a pl] e
    by (simp add: join_path_plain(2) [OF a pl] is_abs_def)
qed

lemma cgroup_file_paths:
  assumes "valid_name n" and "plain_elem f"
  shows "path_elems (join_path [getCgroupPath (NewCgroupManager n), f]) = [''sys'', ''fs'', ''cgroup'', ''misbah'', n, f]"
  using join_path_plain(1) [OF _ assms(2)] cgroup_path_elems [OF assms(1)] by simp

text \<open>
  The limits of a specification are never enforced on the container's process.  The
  file \<open>cgroup.procs\<close> of the container's cgroup, through which a process joins it, is not
  written by \<open>CreateContainer\<close>: after it, the file is as it was, unless the container's own
  command changed it.  \<open>AddProcess\<close>, which would write it, has no caller.
\<close>

theorem limits_not_enforced:
  assumes "valid_name n"
    and "\<And>cmd en h1 x h2. nv_Run env cmd en h1 = (x, h2) \<Longrightarrow>
      h_fs h2 (join_path [getCgroupPath (NewCgroupManager n), ''cgroup.procs'']) =
      h_fs h1 (join_path [getCgroupPath (NewCgroupManager n), ''cgroup.procs''])"
    and "CreateContainer env (NewCgroupManager n) spec h = (e, cmds, h')"
  shows "h_fs h' (join_path [getCgroupPath (NewCgroupManager n), ''cgroup.procs'']) =
    h_fs h (join_path [getCgroupPath (NewCgroupManager n), ''cgroup.procs''])"
proof -
  let ?c = "NewCgroupManager n"
  let ?p = "join_path [getCgroupPath ?c, ''cgroup.procs'']"
  have pl: "plain_elem ''cgroup.procs''" "plain_elem ''memory.max''" "plain_elem ''cpu.weight''" "plain_elem ''io.weight''"
    by (simp_all add: plain_elem_def)
  note el = cgroup_file_paths [OF assms(1) pl(1)] cgroup_file_paths [OF assms(1) pl(2)]
    cgroup_file_paths [OF assms(1) pl(3)] cgroup_file_paths [OF assms(1) pl(4)]
  have ne: "?p \<noteq> getCgroupPath ?c" using el(1) cgroup_path_elems [OF assms(1)] by auto
  have "?p \<noteq> join_path [getCgroupPath ?c, ''memory.max'']" "?p \<noteq> join_path [getCgroupPath ?c, ''cpu.weight'']"
    "?p \<noteq> join_path [getCgroupPath ?c, ''io.weight'']"
    using el by (auto dest!: arg_cong [where f = path_elems])
  with ne have nl: "?p \<notin> limit_paths ?c" by (simp add: limit_paths_def)
  have limits: "h_fs (snd (Cgroup_Setup ?c r g)) ?p = h_fs g ?p" for r g
    using Setup_touches [OF _ nl, of r g] by (metis prod.collapse)
  have clean: "h_fs (snd (Cgroup_Cleanup ?c g)) ?p = h_fs g ?p" for g
    using ne by (auto simp: Cgroup_Cleanup_def os_remove_def split: option.splits)
  show ?thesis using assms(3)
    by (auto simp: CreateContainer_def Let_def clean limits split: if_splits option.splits prod.splits dest!: assms(2))
qed

theorem limits_not_enforced_witness:
  "h_fs (snd (snd (CreateContainer demo_ns_env (NewCgroupManager ''demo'')
      (demo_spec\<lparr>spec_Resources := Some \<lparr>res_Memory = ''1GB'', res_CPUShares = 5, res_IOWeight = 5\<rparr>\<rparr>) demo_host)))
     (join_path [getCgroupPath (NewCgroupManager ''demo''), ''cgroup.procs'']) = None"
proof -
  let ?s = "demo_spec\<lparr>spec_Resources := Some \<lparr>res_Memory = ''1GB'', res_CPUShares = 5, res_IOWeight = 5\<rparr>\<rparr>"
  have v: "valid_name ''demo''" using Validate_name [OF demo_spec_valid] by (simp add: demo_spec_def)
  obtain e cmds h' where c: "CreateContainer demo_ns_env (NewCgroupManager ''demo'') ?s demo_host = (e, cmds, h')"
    by (metis prod_cases3)
  have "nv_Run demo_ns_env cmd en h1 = (None, h1)" for cmd en h1 by (simp add: demo_ns_env_def)
  then show ?thesis using limits_not_enforced [OF v _ c] by (simp add: c)
qed

end
