(* ===== verification/Git_Clone.thy ===== *)
theory Git_Clone
  imports Container_Spec Host_OS
begin

text \<open>
  Resolution of git-clone mounts: \<open>runtime/gitclone.go\<close>.  \<open>os.MkdirTemp\<close> and the command
  \<open>git\<close> are parameters of the environment: the name of a fresh directory below a parent,
  and the outcome of a clone.
\<close>

record git_env =
  ge_MkdirTemp :: "string \<Rightarrow> host \<Rightarrow> go_error + string"
  ge_Git :: "string list \<Rightarrow> host \<Rightarrow> go_error option \<times> host"

record GitCloneManager =
  gm_tempDir :: string
  gm_clonedDirs :: "string list"

datatype git_error = GitTempDir go_error | GitCloneFailed go_error

definition NewGitCloneManager :: "string \<Rightarrow> GitCloneManager" where
  "NewGitCloneManager tempDir = \<lparr>gm_tempDir = tempDir, gm_clonedDirs = []\<rparr>"

definition repoBaseName :: "string \<Rightarrow> string" where
  "repoBaseName repo =
     (let base = base_path repo;
          base' = (if 4 < length base \<and> drop (length base - 4) base = ''.git''
                   then take (length base - 4) base else base)
      in if base' = [] \<or> base' = ''.'' then ''repo'' else base')"

definition git_args :: "GitCloneSpec \<Rightarrow> string \<Rightarrow> string list" where
  "git_args g targetDir =
     [''clone'', ''--depth'', itoa (if gc_Depth g \<le> 0 then 1 else gc_Depth g)] @
     (if gc_Ref g \<noteq> [] then [''--branch'', gc_Ref g] else []) @ [gc_Repository g, targetDir]"

definition cloneRepo :: "git_env \<Rightarrow> GitCloneSpec \<Rightarrow> GitCloneManager \<Rightarrow> host \<Rightarrow> (git_error + string) \<times> host" where
  "cloneRepo env g gm h =
     (case ge_MkdirTemp env (gm_tempDir gm) h of
        Inl e \<Rightarrow> (Inl (GitTempDir e), h)
      | Inr cloneDir \<Rightarrow>
        let h1 = h\<lparr>h_fs := (h_fs h)(cloneDir \<mapsto> Directory)\<rparr>;
            targetDir = join_path [cloneDir, repoBaseName (gc_Repository g)]
        in case ge_Git env (git_args g targetDir) h1 of
             (Some e, h2) \<Rightarrow> (Inl (GitCloneFailed e), snd (os_remove_all cloneDir h2))
           | (None, h2) \<Rightarrow> (Inr targetDir, h2))"

text \<open>
  The loop over the mounts.  A git-clone mount has its configuration: mounts come here
  after validation; without it the code dereferences nil, the outcome \<open>None\<close>.
\<close>

fun resolve_mounts ::
  "git_env \<Rightarrow> MountSpec list \<Rightarrow> GitCloneManager \<Rightarrow> host \<Rightarrow>
     (git_error + MountSpec list) option \<times> GitCloneManager \<times> host" where
  "resolve_mounts env [] gm h = (Some (Inr []), gm, h)"
| "resolve_mounts env (m # ms) gm h =
     (if mnt_Type m \<noteq> MountTypeGitClone then
        (case resolve_mounts env ms gm h of
           (Some (Inr rs), gm', h') \<Rightarrow> (Some (Inr (m # rs)), gm', h')
         | other \<Rightarrow> other)
      else case mnt_GitClone m of
        None \<Rightarrow> (None, gm, h)
      | Some g \<Rightarrow>
        (case cloneRepo env g gm h of
           (Inl e, h1) \<Rightarrow> (Some (Inl e), gm, h1)
         | (Inr cloneDir, h1) \<Rightarrow>
           (case resolve_mounts env ms (gm\<lparr>gm_clonedDirs := gm_clonedDirs gm @ [cloneDir]\<rparr>) h1 of
              (Some (Inr rs), gm', h') \<Rightarrow>
                (Some (Inr (\<lparr>mnt_Type = MountTypeBind, mnt_Source = cloneDir, mnt_Destination = mnt_Destination m,
                    mnt_Options = mnt_Options m, mnt_GitClone = None, mnt_Overlay = None\<rparr> # rs)), gm', h')
            | other \<Rightarrow> other)))"

definition ResolveGitCloneMounts ::
  "git_env \<Rightarrow> MountSpec list \<Rightarrow> GitCloneManager \<Rightarrow> host \<Rightarrow>
     (git_error + MountSpec list) option \<times> GitCloneManager \<times> host" where
  "ResolveGitCloneMounts env ms gm h = resolve_mounts env ms gm h"

text \<open>All directories are removed; the first error is returned.\<close>

fun remove_dirs :: "string list \<Rightarrow> os_error option \<Rightarrow> host \<Rightarrow> os_error option \<times> host" where
  "remove_dirs [] first h = (first, h)"
| "remove_dirs (d # ds) first h =
     (case os_remove_all d h of
        (Some e, h') \<Rightarrow> remove_dirs ds (if first = None then Some e else first) h'
      | (None, h') \<Rightarrow> remove_dirs ds first h')"

definition GitClone_Cleanup :: "GitCloneManager \<Rightarrow> host \<Rightarrow> os_error option \<times> GitCloneManager \<times> host" where
  "GitClone_Cleanup gm h =
     (case remove_dirs (gm_clonedDirs gm) None h of (e, h') \<Rightarrow> (e, gm\<lparr>gm_clonedDirs := []\<rparr>, h'))"

section \<open>Properties\<close>

text \<open>
  A resolved mount: the original, or for a git-clone mount a bind mount of the clone at the
  same place with the same options.
\<close>

definition resolved_from :: "MountSpec \<Rightarrow> MountSpec \<Rightarrow> bool" where
  "resolved_from m r \<longleftrightarrow>
     (if mnt_Type m = MountTypeGitClone
      then mnt_Type r = MountTypeBind \<and> mnt_Destination r = mnt_Destination m \<and> mnt_Options r = mnt_Options m \<and>
        mnt_Source r \<noteq> []
      else r = m)"

text \<open>
  Resolution rewrites exactly the git-clone mounts, in place and in order, into bind
  mounts of the clones at the same destination with the same options; the result has no
  git-clone mount left, and valid mounts stay valid.  Temporary directories are absolute.
\<close>

theorem ResolveGitCloneMounts_sound:
  assumes "ResolveGitCloneMounts env ms gm h = (Some (Inr rs), gm', h')" and "list_all valid_mount ms"
    and "\<And>d h c. ge_MkdirTemp env d h = Inr c \<Longrightarrow> is_abs c"
  shows "list_all2 resolved_from ms rs \<and> list_all valid_mount rs \<and> (\<forall>r\<in>set rs. mnt_Type r \<noteq> MountTypeGitClone)"
  using assms(1,2) unfolding ResolveGitCloneMounts_def
proof (induction ms arbitrary: gm h rs)
  case (Cons m ms)
  show ?case
  proof (cases "mnt_Type m = MountTypeGitClone")
    case False
    then obtain rs0 where r: "resolve_mounts env ms gm h = (Some (Inr rs0), gm', h')" "rs = m # rs0"
      using Cons.prems(1) by (auto split: prod.splits option.splits sum.splits)
    from Cons.IH [OF r(1)] r(2) False Cons.prems(2) show ?thesis by (simp add: resolved_from_def)
  next
    case True
    then obtain g where g: "mnt_GitClone m = Some g" using Cons.prems(1) by (auto split: option.splits)
    then obtain c h1 gm1 rs0 where c: "cloneRepo env g gm h = (Inr c, h1)"
      and r: "resolve_mounts env ms gm1 h1 = (Some (Inr rs0), gm', h')"
      and rs: "rs = \<lparr>mnt_Type = MountTypeBind, mnt_Source = c, mnt_Destination = mnt_Destination m,
          mnt_Options = mnt_Options m, mnt_GitClone = None, mnt_Overlay = None\<rparr> # rs0"
      using Cons.prems(1) True by (auto split: prod.splits option.splits sum.splits)
    have "is_abs c" using c assms(3) by (auto simp: cloneRepo_def Let_def is_abs_join split: sum.splits prod.splits option.splits)
    then have "c \<noteq> []" by auto
    then show ?thesis using Cons.IH [OF r] rs True Cons.prems(2)
      by (simp add: resolved_from_def valid_mount_def mount_type_defs)
  qed
qed simp

definition demo_git :: git_env where
  "demo_git = \<lparr>ge_MkdirTemp = (\<lambda>d h. Inr ''/tmp/misbah-clone-1''), ge_Git = (\<lambda>args h. (None, h))\<rparr>"

definition git_mount :: MountSpec where
  "git_mount = \<lparr>mnt_Type = ''git-clone'', mnt_Source = [], mnt_Destination = ''/src'', mnt_Options = [''ro''],
     mnt_GitClone = Some \<lparr>gc_Repository = ''https://host/lib.git'', gc_Ref = [], gc_Depth = 0\<rparr>, mnt_Overlay = None\<rparr>"

lemma demo_resolve:
  "ResolveGitCloneMounts demo_git [git_mount] (NewGitCloneManager ''/tmp'') demo_host =
     (Some (Inr [\<lparr>mnt_Type = ''bind'', mnt_Source = ''/tmp/misbah-clone-1/lib'', mnt_Destination = ''/src'',
        mnt_Options = [''ro''], mnt_GitClone = None, mnt_Overlay = None\<rparr>]),
      \<lparr>gm_tempDir = ''/tmp'', gm_clonedDirs = [''/tmp/misbah-clone-1/lib'']\<rparr>,
      demo_host\<lparr>h_fs := [''/tmp/misbah-clone-1'' \<mapsto> Directory]\<rparr>)"
proof -
  have "join_path [''/tmp/misbah-clone-1'', repoBaseName ''https://host/lib.git''] = ''/tmp/misbah-clone-1/lib''"
    by code_simp
  then show ?thesis
    by (simp add: ResolveGitCloneMounts_def git_mount_def demo_git_def NewGitCloneManager_def cloneRepo_def
        mount_type_defs Let_def)
qed

theorem ResolveGitCloneMounts_sound_witness:
  "list_all valid_mount [\<lparr>mnt_Type = ''bind'', mnt_Source = ''/tmp/misbah-clone-1/lib'', mnt_Destination = ''/src'',
     mnt_Options = [''ro''], mnt_GitClone = None, mnt_Overlay = None\<rparr>]"
proof -
  have "list_all valid_mount [git_mount]"
    by (simp add: git_mount_def valid_mount_def is_abs_def)
  from ResolveGitCloneMounts_sound [OF demo_resolve this] show ?thesis
    by (simp add: demo_git_def is_abs_def)
qed

text \<open>
  Cleaning up after a clone removes the working tree but not the temporary directory
  that was made for it: \<open>Cleanup\<close> records and removes the directory below it.
\<close>

theorem clone_temp_dir_leaks:
  "\<exists>gm h. ResolveGitCloneMounts demo_git [git_mount] (NewGitCloneManager ''/tmp'') demo_host =
      (Some (Inr [git_mount\<lparr>mnt_Type := ''bind'', mnt_Source := ''/tmp/misbah-clone-1/lib'', mnt_GitClone := None\<rparr>]), gm, h) \<and>
     fst (GitClone_Cleanup gm h) = None \<and>
     h_fs (snd (snd (GitClone_Cleanup gm h))) ''/tmp/misbah-clone-1'' = Some Directory"
  by (simp add: demo_resolve [unfolded git_mount_def] git_mount_def GitClone_Cleanup_def os_remove_all_def has_prefix_def)

end
