(* ===== verification/Lifecycle.thy ===== *)
theory Lifecycle
  imports Tier_Mounts Lock_Manager Namespace Git_Clone
begin

text \<open>
  The container lifecycle: \<open>runtime/lifecycle.go\<close> over the interface \<open>ContainerBackend\<close> of
  \<open>runtime/backend.go\<close>, with the namespace backend of \<open>runtime/backend_namespace.go\<close>.
  A backend works on the host and on a state of its own.
\<close>

record 's ContainerBackend =
  be_Start :: "ContainerSpec \<Rightarrow> host \<times> 's \<Rightarrow> (go_error + string) \<times> host \<times> 's"
  be_Stop :: "string \<Rightarrow> bool \<Rightarrow> host \<times> 's \<Rightarrow> go_error option \<times> host \<times> 's"
  be_Destroy :: "string \<Rightarrow> host \<times> 's \<Rightarrow> go_error option \<times> host \<times> 's"
  be_Exec :: "string \<Rightarrow> string list \<Rightarrow> i64 \<Rightarrow> host \<times> 's \<Rightarrow> (go_error + (string \<times> string \<times> 32 word)) \<times> host \<times> 's"
  be_Status :: "string \<Rightarrow> host \<times> 's \<Rightarrow> go_error + ContainerInfo"
  be_List :: "host \<times> 's \<Rightarrow> go_error + ContainerInfo list"

section \<open>The namespace backend\<close>

definition ErrNotSupported :: go_error where
  "ErrNotSupported = ''operation not supported by this backend''"

text \<open>The commands that were run are the backend's state.\<close>

definition ns_error_text :: "ns_error \<Rightarrow> go_error" where
  "ns_error_text e = (case e of
     NsUnsupportedOS s \<Rightarrow> ''namespace creation failed: containers are only supported on Linux''
   | NsInvalidSpec se \<Rightarrow> ''invalid container spec''
   | NsNoUnshare \<Rightarrow> ''namespace creation failed: unshare command not found''
   | NsPanic \<Rightarrow> ''panic''
   | NsRunFailed s \<Rightarrow> ''namespace creation failed: '' @ s)"

definition NamespaceBackend :: "ns_env \<Rightarrow> string list list ContainerBackend" where
  "NamespaceBackend env = \<lparr>
     be_Start = (\<lambda>spec (h, ran).
       case CreateContainer env (NewCgroupManager (md_Name (spec_Metadata spec))) spec h of
         (Some e, cmds, h') \<Rightarrow> (Inl (ns_error_text e), h', ran @ cmds)
       | (None, cmds, h') \<Rightarrow> (Inr (md_Name (spec_Metadata spec)), h', ran @ cmds)),
     be_Stop = (\<lambda>name force s. (None, s)),
     be_Destroy = (\<lambda>name (h, ran).
       case Cgroup_Cleanup (NewCgroupManager name) h of
         (None, h') \<Rightarrow> (None, h', ran)
       | (Some e, h') \<Rightarrow> (Some ''failed to remove cgroup'', h', ran)),
     be_Exec = (\<lambda>name cmd timeout s. (Inl (ErrNotSupported @ '': exec not available for namespace backend''), s)),
     be_Status = (\<lambda>name s. Inl (ErrNotSupported @ '': status not available for namespace backend'')),
     be_List = (\<lambda>s. Inl (ErrNotSupported @ '': list not available for namespace backend''))\<rparr>"

section \<open>The lifecycle\<close>

text \<open>What a \<open>Lifecycle\<close> is made of, with the environment of its parts.\<close>

record 's Lifecycle =
  lc_lockManager :: LockManager
  lc_codec :: lock_codec
  lc_git :: git_env
  lc_tempDir :: string
  lc_backend :: "'s ContainerBackend"

datatype lifecycle_error =
    LcValidation spec_error
  | LcLock lock_error
  | LcGit git_error
  | LcPanic
  | LcTier tier_error
  | LcBackend go_error
  | LcForceRelease lock_error
  | LcRelease lock_error

text \<open>Step 4 of \<open>Start\<close>: the mounts of the tier replace those of the specification.\<close>

definition apply_tier :: "ContainerSpec \<Rightarrow> tier_error + ContainerSpec" where
  "apply_tier spec =
     (case spec_TierConfig spec of
        None \<Rightarrow> Inr spec
      | Some tc \<Rightarrow>
        let repos = [mnt_Source m. m \<leftarrow> spec_Mounts spec, mnt_Type m = MountTypeBind \<and> mnt_Source m \<noteq> []];
            ts = \<lparr>ts_Tier = tc_Tier tc, ts_Repos = repos, ts_WritablePaths = tc_WritablePaths tc, ts_WorkspacePath = []\<rparr>
        in if repos = [] then Inr spec
           else case GenerateTierMounts ts of
                  Inl e \<Rightarrow> Inl e
                | Inr ms \<Rightarrow> Inr (spec\<lparr>spec_Mounts := ms\<rparr>))"

definition provider_label :: "ContainerSpec \<Rightarrow> string" where
  "provider_label spec =
     (case md_Labels (spec_Metadata spec) ''provider'' of None \<Rightarrow> ''container'' | Some l \<Rightarrow> l)"

text \<open>The deferred release of the lock, and the deferred removal of the clones.\<close>

definition release_lock :: "'s Lifecycle \<Rightarrow> ContainerSpec \<Rightarrow> host \<Rightarrow> host" where
  "release_lock lc spec h = snd (ReleaseLock (lc_codec lc) (lc_lockManager lc) (md_Name (spec_Metadata spec)) h)"

definition clean_clones :: "GitCloneManager \<Rightarrow> host \<Rightarrow> host" where
  "clean_clones gm h = snd (snd (GitClone_Cleanup gm h))"

definition Lifecycle_Start ::
  "'s Lifecycle \<Rightarrow> ContainerSpec \<Rightarrow> host \<times> 's \<Rightarrow> lifecycle_error option \<times> host \<times> 's" where
  "Lifecycle_Start lc spec hs =
     (case hs of (h, s) \<Rightarrow>
      case ContainerSpec_Validate spec of
        Some e \<Rightarrow> (Some (LcValidation e), h, s)
      | None \<Rightarrow>
        (case AcquireLock (lc_codec lc) (lc_lockManager lc) (md_Name (spec_Metadata spec)) (provider_label spec) h of
           (Inl e, h1) \<Rightarrow> (Some (LcLock e), h1, s)
         | (Inr lock, h1) \<Rightarrow>
           (case ResolveGitCloneMounts (lc_git lc) (spec_Mounts spec) (NewGitCloneManager (lc_tempDir lc)) h1 of
              (None, gm, h2) \<Rightarrow> (Some LcPanic, h2, s)
            | (Some (Inl e), gm, h2) \<Rightarrow> (Some (LcGit e), release_lock lc spec h2, s)
            | (Some (Inr ms), gm, h2) \<Rightarrow>
              (case apply_tier (spec\<lparr>spec_Mounts := ms\<rparr>) of
                 Inl e \<Rightarrow> (Some (LcTier e), release_lock lc spec (clean_clones gm h2), s)
               | Inr spec' \<Rightarrow>
                 (case be_Start (lc_backend lc) spec' (h2, s) of
                    (Inl e, h3, s') \<Rightarrow> (Some (LcBackend e), release_lock lc spec (clean_clones gm h3), s')
                  | (Inr ident, h3, s') \<Rightarrow> (None, clean_clones gm (release_lock lc spec h3), s'))))))"

definition Lifecycle_Stop ::
  "'s Lifecycle \<Rightarrow> (int \<Rightarrow> proc_status) list \<Rightarrow> string \<Rightarrow> bool \<Rightarrow> host \<times> 's \<Rightarrow> lifecycle_error option \<times> host \<times> 's" where
  "Lifecycle_Stop lc polls name force hs =
     (case hs of (h, s) \<Rightarrow>
      case (case GetLock (lc_codec lc) (lc_lockManager lc) name h of
              Inl e \<Rightarrow> (None, h)
            | Inr lock \<Rightarrow>
              if force then map_prod (map_option LcForceRelease) id (ForceRelease (lc_codec lc) (lc_lockManager lc) polls name h)
              else map_prod (map_option LcRelease) id (ReleaseLock (lc_codec lc) (lc_lockManager lc) name h)) of
        (Some e, h1) \<Rightarrow> (Some e, h1, s)
      | (None, h1) \<Rightarrow> (None, snd (be_Stop (lc_backend lc) name force (h1, s))))"

definition Lifecycle_Destroy :: "'s Lifecycle \<Rightarrow> string \<Rightarrow> host \<times> 's \<Rightarrow> host \<times> 's" where
  "Lifecycle_Destroy lc name hs = snd (be_Destroy (lc_backend lc) name hs)"

definition Lifecycle_Exec ::
  "'s Lifecycle \<Rightarrow> string \<Rightarrow> string list \<Rightarrow> i64 \<Rightarrow> host \<times> 's \<Rightarrow>
     (go_error + (string \<times> string \<times> 32 word)) \<times> host \<times> 's" where
  "Lifecycle_Exec lc name cmd timeout hs = be_Exec (lc_backend lc) name cmd timeout hs"

definition Lifecycle_Status :: "'s Lifecycle \<Rightarrow> string \<Rightarrow> host \<times> 's \<Rightarrow> go_error + ContainerInfo" where
  "Lifecycle_Status lc name hs = be_Status (lc_backend lc) name hs"

definition Lifecycle_List :: "'s Lifecycle \<Rightarrow> host \<times> 's \<Rightarrow> go_error + ContainerInfo list" where
  "Lifecycle_List lc hs = be_List (lc_backend lc) hs"

section \<open>The lock around a container\<close>

lemma resolve_without_clones:
  "list_all (\<lambda>m. mnt_Type m \<noteq> MountTypeGitClone) ms \<Longrightarrow> resolve_mounts env ms gm h = (Some (Inr ms), gm, h)"
  by (induction ms) simp_all

text \<open>A specification that validates has the details of every git clone, so \<open>Start\<close> never dereferences nil.\<close>

lemma resolve_no_panic:
  "list_all valid_mount ms \<Longrightarrow> resolve_mounts env ms gm h \<noteq> (None, gm', h')"
proof (induction ms arbitrary: gm h)
  case (Cons m ms)
  then have IH: "resolve_mounts env ms gm1 h1 \<noteq> (None, gm', h')" for gm1 h1 by simp
  have git: "mnt_GitClone m \<noteq> None" if "mnt_Type m = MountTypeGitClone"
    using Cons.prems that by (auto simp: valid_mount_def MountTypeGitClone_def)
  show ?case
  proof
    assume "resolve_mounts env (m # ms) gm h = (None, gm', h')"
    then show False using IH git
      by (cases "mnt_Type m = MountTypeGitClone") (auto split: prod.splits option.splits sum.splits)
  qed
qed simp

lemma Lifecycle_Start_no_panic: "fst (Lifecycle_Start lc spec hs) \<noteq> Some LcPanic"
proof (cases "ContainerSpec_Validate spec")
  case None
  then have m: "list_all valid_mount (spec_Mounts spec)" by (simp add: Validate_iff valid_spec_def)
  have "ResolveGitCloneMounts (lc_git lc) (spec_Mounts spec) gm h \<noteq> (None, gm', h')" for gm h gm' h'
    unfolding ResolveGitCloneMounts_def by (rule resolve_no_panic [OF m])
  then show ?thesis using None
    by (auto simp: Lifecycle_Start_def split: prod.splits option.splits sum.splits)
qed (simp add: Lifecycle_Start_def split: prod.splits)

lemma clean_no_clones: "clean_clones (NewGitCloneManager d) h = h"
  by (simp add: clean_clones_def GitClone_Cleanup_def NewGitCloneManager_def)

lemma apply_tier_name: "apply_tier spec = Inr spec' \<Longrightarrow> spec_Metadata spec' = spec_Metadata spec"
  by (auto simp: apply_tier_def Let_def split: option.splits if_splits sum.splits)

abbreviation spec_name :: "ContainerSpec \<Rightarrow> string" where
  "spec_name spec \<equiv> md_Name (spec_Metadata spec)"

text \<open>The file of a container's lock, the process and the faults are as they were.\<close>

definition lock_kept :: "'s Lifecycle \<Rightarrow> string \<Rightarrow> host \<Rightarrow> host \<Rightarrow> bool" where
  "lock_kept lc n h h' \<longleftrightarrow>
     (let p = getLockPath (lc_lockManager lc) n in h_fs h' p = h_fs h p \<and> h_fault h' = h_fault h \<and> h_pid h' = h_pid h)"

abbreviation lc_env :: "'s Lifecycle \<Rightarrow> string \<Rightarrow> host \<Rightarrow> bool" where
  "lc_env lc n h \<equiv> lock_env (lc_codec lc) (lc_lockManager lc) n h"

abbreviation lc_owner :: "'s Lifecycle \<Rightarrow> string \<Rightarrow> host \<Rightarrow> int option" where
  "lc_owner lc n h \<equiv> lock_owner (lc_codec lc) (lc_lockManager lc) n h"

text \<open>
  From the acquisition to the release the lock file holds a lock of this process, or is gone: the
  clean-up of the clones may have removed a directory above it.
\<close>

definition mine_or_gone :: "'s Lifecycle \<Rightarrow> string \<Rightarrow> host \<Rightarrow> host \<Rightarrow> bool" where
  "mine_or_gone lc n h g \<longleftrightarrow> h_fault g = h_fault h \<and> h_pid g = h_pid h \<and>
     (case h_fs g (getLockPath (lc_lockManager lc) n) of
        None \<Rightarrow> True
      | Some Directory \<Rightarrow> False
      | Some (RegFile d) \<Rightarrow> \<exists>l. lk_Unmarshal (lc_codec lc) d = Inr l \<and> lk_PID l = h_pid h)"

lemma release_mine:
  assumes "mine_or_gone lc (spec_name spec) h g" and "\<not> h_fault h OpRemove (getLockPath (lc_lockManager lc) (spec_name spec))"
  shows "h_fs (release_lock lc spec g) (getLockPath (lc_lockManager lc) (spec_name spec)) = None"
proof -
  let ?p = "getLockPath (lc_lockManager lc) (spec_name spec)"
  have rm: "h_fs (snd (remove_lock ?p g)) ?p = None"
    using assms by (auto simp: mine_or_gone_def remove_lock_def os_remove_def split: option.splits)
  show ?thesis
  proof (cases "readLock (lc_codec lc) ?p g")
    case (Inl e)
    then show ?thesis using rm by (auto simp: release_lock_def ReleaseLock_def Let_def os_stat_def is_not_exist_def split: if_splits option.splits)
  next
    case (Inr l)
    then have "lk_PID l = h_pid g"
      using assms(1) by (auto simp: mine_or_gone_def readLock_def os_read_file_def split: if_splits option.splits node.splits sum.splits)
    with Inr rm show ?thesis by (auto simp: release_lock_def ReleaseLock_def Let_def os_stat_def is_not_exist_def split: if_splits option.splits)
  qed
qed

lemma acquired_mine:
  assumes "codec_ok (lc_codec lc)" and "AcquireLock (lc_codec lc) (lc_lockManager lc) n pv h = (Inr l, h1)"
  shows "mine_or_gone lc n h h1 \<and> h_fs h1 (getLockPath (lc_lockManager lc) n) \<noteq> None"
proof -
  let ?p = "getLockPath (lc_lockManager lc) n"
  obtain h0 where c: "acquire_check (lc_codec lc) (lc_lockManager lc) n h = (None, h0)"
    and w: "acquire_write (lc_codec lc) (lc_lockManager lc) n pv h0 = (Inr l, h1)"
    using assms(2) by (auto simp: AcquireLock_def split: prod.splits option.splits)
  have h0: "h_fault h0 = h_fault h" "h_pid h0 = h_pid h"
    using c by (auto simp: acquire_check_def Let_def split: prod.splits option.splits sum.splits if_splits dest!: os_frameD)
  obtain t where m: "lk_Marshal (lc_codec lc) l = Inr t" "lk_PID l = h_pid h0" "h_fault h1 = h_fault h0" "h_pid h1 = h_pid h0"
      "h_fs h1 ?p = Some (RegFile t)"
    using w by (auto simp: acquire_write_def Let_def os_write_file_def os_rename_def split: sum.splits prod.splits option.splits if_splits)
  then obtain l' where "lk_Unmarshal (lc_codec lc) t = Inr l'" "lk_PID l' = h_pid h"
    using assms(1) h0 unfolding codec_ok_def by metis
  with m h0 show ?thesis by (simp add: mine_or_gone_def)
qed

lemma kept_mine: "lock_kept lc n g g' \<Longrightarrow> mine_or_gone lc n h g \<Longrightarrow> mine_or_gone lc n h g'"
  by (auto simp: lock_kept_def mine_or_gone_def Let_def)

lemma removed_mine: "mine_or_gone lc n h g \<Longrightarrow> mine_or_gone lc n h (snd (os_remove_all d g))"
  by (auto simp: mine_or_gone_def os_remove_all_def)

lemma clean_mine: "mine_or_gone lc n h g \<Longrightarrow> mine_or_gone lc n h (clean_clones gm g)"
proof -
  have "mine_or_gone lc n h g \<Longrightarrow> mine_or_gone lc n h (snd (remove_dirs ds x g))" for ds x
  proof (induction ds arbitrary: x g)
    case (Cons d ds)
    then show ?case using removed_mine [OF Cons.prems, of d] by (auto split: prod.splits option.splits)
  qed simp
  then show "mine_or_gone lc n h g \<Longrightarrow> mine_or_gone lc n h (clean_clones gm g)"
    by (simp add: clean_clones_def GitClone_Cleanup_def split_beta)
qed

lemma clean_gone: "h_fs g p = None \<Longrightarrow> h_fs (clean_clones gm g) p = None"
proof -
  have "h_fs g p = None \<Longrightarrow> h_fs (snd (remove_dirs ds x g)) p = None" for ds x
    by (induction ds arbitrary: x g) (auto simp: os_remove_all_def)
  then show "h_fs g p = None \<Longrightarrow> h_fs (clean_clones gm g) p = None"
    by (simp add: clean_clones_def GitClone_Cleanup_def split_beta)
qed

text \<open>
  What the documentation of \<open>os.MkdirTemp\<close> promises: the directory is a new one.  The git command
  leaves the lock file alone.
\<close>

definition git_ok :: "'s Lifecycle \<Rightarrow> string \<Rightarrow> bool" where
  "git_ok lc n \<longleftrightarrow>
     (\<forall>d g c. ge_MkdirTemp (lc_git lc) d g = Inr c \<longrightarrow> h_fs g c = None) \<and>
     (\<forall>args g. lock_kept lc n g (snd (ge_Git (lc_git lc) args g)))"

lemma clone_mine:
  assumes "git_ok lc n" and "cloneRepo (lc_git lc) g gm h1 = (r, h2)" and "mine_or_gone lc n h h1"
    and "h_fs h1 (getLockPath (lc_lockManager lc) n) \<noteq> None"
  shows "mine_or_gone lc n h h2" and "(\<exists>c. r = Inr c) \<Longrightarrow> h_fs h2 (getLockPath (lc_lockManager lc) n) \<noteq> None"
proof -
  let ?p = "getLockPath (lc_lockManager lc) n"
  have "mine_or_gone lc n h h2 \<and> ((\<exists>c. r = Inr c) \<longrightarrow> h_fs h2 ?p \<noteq> None)"
  proof (cases "ge_MkdirTemp (lc_git lc) (gm_tempDir gm) h1")
    case (Inl e)
    with assms show ?thesis by (auto simp: cloneRepo_def)
  next
    case (Inr c)
    let ?h = "h1\<lparr>h_fs := (h_fs h1)(c \<mapsto> Directory)\<rparr>"
    have "c \<noteq> ?p" using assms(1,4) Inr by (auto simp: git_ok_def)
    then have m: "mine_or_gone lc n h ?h" "h_fs ?h ?p \<noteq> None" using assms(3,4) by (simp_all add: mine_or_gone_def)
    let ?t = "join_path [c, repoBaseName (gc_Repository g)]"
    obtain e h3 where git: "ge_Git (lc_git lc) (git_args g ?t) ?h = (e, h3)" by fastforce
    have k: "lock_kept lc n ?h h3" using assms(1) git unfolding git_ok_def by (metis snd_conv)
    have "mine_or_gone lc n h h3" "h_fs h3 ?p \<noteq> None"
      using kept_mine [OF k m(1)] k m(2) by (simp_all add: lock_kept_def Let_def)
    then show ?thesis using assms(2) Inr git by (cases e) (auto simp: cloneRepo_def Let_def removed_mine)
  qed
  then show "mine_or_gone lc n h h2" "(\<exists>c. r = Inr c) \<Longrightarrow> h_fs h2 ?p \<noteq> None" by simp_all
qed

lemma resolve_mine:
  assumes "git_ok lc n"
  shows "resolve_mounts (lc_git lc) ms gm h1 = (r, gm', h2) \<Longrightarrow> mine_or_gone lc n h h1 \<Longrightarrow>
    h_fs h1 (getLockPath (lc_lockManager lc) n) \<noteq> None \<Longrightarrow> mine_or_gone lc n h h2"
proof (induction ms arbitrary: gm h1 r)
  case (Cons m ms)
  show ?case
  proof (cases "mnt_Type m = MountTypeGitClone")
    case False
    then obtain r' where "resolve_mounts (lc_git lc) ms gm h1 = (r', gm', h2)"
      using Cons.prems(1) by (auto split: prod.splits option.splits sum.splits)
    then show ?thesis using Cons.IH Cons.prems(2,3) by blast
  next
    case True
    show ?thesis
    proof (cases "mnt_GitClone m")
      case None
      with Cons.prems True show ?thesis by simp
    next
      case (Some g)
      obtain c h3 where c: "cloneRepo (lc_git lc) g gm h1 = (c, h3)" by fastforce
      note C = clone_mine [OF assms c Cons.prems(2,3)]
      show ?thesis
      proof (cases c)
        case (Inl e)
        with Cons.prems(1) True Some c C(1) show ?thesis by simp
      next
        case (Inr d)
        then obtain r' gm1 where "resolve_mounts (lc_git lc) ms gm1 h3 = (r', gm', h2)"
          using Cons.prems(1) True Some c by (auto split: prod.splits option.splits sum.splits)
        from Cons.IH [OF this C(1)] C(2) Inr show ?thesis by blast
      qed
    qed
  qed
qed simp

text \<open>
  C14: \<open>Start\<close> keeps the lock discipline: a specification that does not validate changes nothing;
  without the lock the backend is not called; and once the lock was acquired its file is gone
  on every way out, errors of the clones, of the tier resolution and of the backend included.  The
  backend and git may do anything but touch the lock file, and any call of the operating system
  may fail but the removal of that file.
\<close>

theorem Start_releases_lock:
  assumes codec: "codec_ok (lc_codec lc)" and git: "git_ok lc (spec_name spec)"
    and backend: "\<And>sp g t r g' t'. be_Start (lc_backend lc) sp (g, t) = (r, g', t') \<Longrightarrow> lock_kept lc (spec_name spec) g g'"
    and removable: "\<not> h_fault h OpRemove (getLockPath (lc_lockManager lc) (spec_name spec))"
    and start: "Lifecycle_Start lc spec (h, s) = (e, h', s')"
  shows "case e of
      Some (LcValidation x) \<Rightarrow> h' = h \<and> s' = s
    | Some (LcLock x) \<Rightarrow> s' = s
    | Some LcPanic \<Rightarrow> False
    | _ \<Rightarrow> h_fs h' (getLockPath (lc_lockManager lc) (spec_name spec)) = None"
proof (cases "ContainerSpec_Validate spec")
  case (Some x)
  with start show ?thesis by (auto simp: Lifecycle_Start_def)
next
  case None
  let ?n = "spec_name spec"
  let ?p = "getLockPath (lc_lockManager lc) ?n"
  obtain r h1 where a: "AcquireLock (lc_codec lc) (lc_lockManager lc) ?n (provider_label spec) h = (r, h1)" by fastforce
  obtain rs gm h2 where g: "ResolveGitCloneMounts (lc_git lc) (spec_Mounts spec) (NewGitCloneManager (lc_tempDir lc)) h1 = (rs, gm, h2)"
    by (metis prod_cases3)
  note gone = release_mine [OF _ removable]
  show ?thesis
  proof (cases r)
    case (Inl x)
    with start None a show ?thesis by (auto simp: Lifecycle_Start_def)
  next
    case (Inr lock)
    note A = acquired_mine [OF codec a [unfolded Inr]]
    have m2: "mine_or_gone lc ?n h h2" using resolve_mine [OF git] g A unfolding ResolveGitCloneMounts_def by blast
    have np: "e \<noteq> Some LcPanic" using Lifecycle_Start_no_panic start by (metis fst_conv)
    show ?thesis
    proof (cases rs)
      case None': None
      with start None a Inr g np show ?thesis by (simp add: Lifecycle_Start_def)
    next
      case res: (Some q)
      show ?thesis
      proof (cases q)
        case (Inl x)
        with start None a Inr g res gone [OF m2] show ?thesis by (auto simp: Lifecycle_Start_def)
      next
        case ms: (Inr ms)
        show ?thesis
        proof (cases "apply_tier (spec\<lparr>spec_Mounts := ms\<rparr>)")
          case (Inl x)
          with start None a Inr g res ms gone [OF clean_mine [OF m2]] show ?thesis by (auto simp: Lifecycle_Start_def)
        next
          case ok: (Inr spec')
          obtain b h3 s3 where b: "be_Start (lc_backend lc) spec' (h2, s) = (b, h3, s3)" by (metis prod_cases3)
          have m3: "mine_or_gone lc ?n h h3" by (rule kept_mine [OF backend [OF b] m2])
          have "h_fs (clean_clones gm (release_lock lc spec h3)) ?p = None" by (rule clean_gone [OF gone [OF m3]])
          with start None a Inr g res ms ok b gone [OF clean_mine [OF m3]] show ?thesis
            by (cases b) (auto simp: Lifecycle_Start_def)
        qed
      qed
    qed
  qed
qed

text \<open>A lifecycle over a backend that does nothing, for the concrete instances.\<close>

definition idle_backend :: "unit ContainerBackend" where
  "idle_backend = \<lparr>be_Start = (\<lambda>sp hs. (Inr ''id'', hs)), be_Stop = (\<lambda>n f hs. (None, hs)),
     be_Destroy = (\<lambda>n hs. (None, hs)), be_Exec = (\<lambda>n c t hs. (Inl [], hs)),
     be_Status = (\<lambda>n hs. Inl []), be_List = (\<lambda>hs. Inr [])\<rparr>"

definition demo_lifecycle :: "unit Lifecycle" where
  "demo_lifecycle = \<lparr>lc_lockManager = run_locks, lc_codec = pid_codec, lc_git = demo_git, lc_tempDir = ''/tmp'',
     lc_backend = idle_backend\<rparr>"

definition ws_spec :: ContainerSpec where
  "ws_spec = demo_spec\<lparr>spec_Metadata := \<lparr>md_Name = ''ws'', md_Description = [], md_Labels = [''provider'' \<mapsto> ''pv'']\<rparr>\<rparr>"

lemma ws_spec_simps [simp]:
  "spec_name ws_spec = ''ws''" "provider_label ws_spec = ''pv''" "ContainerSpec_Validate ws_spec = None"
  "spec_Mounts ws_spec = []" "apply_tier ws_spec = Inr ws_spec" "ws_spec\<lparr>spec_Mounts := []\<rparr> = ws_spec"
proof -
  show "ContainerSpec_Validate ws_spec = None" by code_simp
qed (simp_all add: ws_spec_def demo_spec_def provider_label_def apply_tier_def)

lemma demo_lifecycle_simps [simp]:
  "lc_lockManager demo_lifecycle = run_locks" "lc_codec demo_lifecycle = pid_codec"
  "lc_backend demo_lifecycle = idle_backend"
  by (simp_all add: demo_lifecycle_def)

definition fresh_git :: git_env where
  "fresh_git = \<lparr>ge_MkdirTemp = (\<lambda>d h. if h_fs h ''/tmp/misbah-clone-1'' = None then Inr ''/tmp/misbah-clone-1'' else Inl ''exists''),
     ge_Git = (\<lambda>args h. (Some ''exit status 128'', h))\<rparr>"

text \<open>A container with a git-clone mount whose clone fails.\<close>

theorem Start_releases_lock_witness:
  "\<exists>x h'. Lifecycle_Start (demo_lifecycle\<lparr>lc_git := fresh_git\<rparr>) (ws_spec\<lparr>spec_Mounts := [git_mount]\<rparr>) (demo_host, ()) = (Some (LcGit x), h', ()) \<and>
     h_fs h' ''/run/locks/ws.lock'' = None"
proof -
  let ?lc = "demo_lifecycle\<lparr>lc_git := fresh_git\<rparr>" and ?spec = "ws_spec\<lparr>spec_Mounts := [git_mount]\<rparr>"
  obtain h1 where a: "AcquireLock pid_codec run_locks ''ws'' ''pv'' demo_host = (Inr (pid_lock 100), h1)"
    and fs: "h_fs h1 ''/tmp/misbah-clone-1'' = None"
    using demo_acquire_fs by blast
  have valid: "ContainerSpec_Validate ?spec = None" by code_simp
  have v: "spec_name ?spec = ''ws''" "provider_label ?spec = ''pv''" "ContainerSpec_Validate ?spec = None"
    using valid by (simp_all add: ws_spec_def provider_label_def)
  obtain x h2 where g: "ResolveGitCloneMounts fresh_git [git_mount] (NewGitCloneManager ''/tmp'') h1 = (Some (Inl x), NewGitCloneManager ''/tmp'', h2)"
    using fs by (simp add: ResolveGitCloneMounts_def git_mount_def fresh_git_def NewGitCloneManager_def cloneRepo_def mount_type_defs Let_def)
  obtain h' where s: "Lifecycle_Start ?lc ?spec (demo_host, ()) = (Some (LcGit x), h', ())"
    using v a g by (simp add: Lifecycle_Start_def demo_lifecycle_def)
  have "git_ok ?lc (spec_name ?spec)" by (auto simp: git_ok_def fresh_git_def lock_kept_def)
  from Start_releases_lock [OF _ this _ _ s] s show ?thesis
    by (simp add: idle_backend_def lock_kept_def demo_lock_path pid_codec_ok v)
qed



text \<open>
  A forced stop sends SIGTERM to the process that the lock names, and for a container
  started through the daemon that is the daemon itself: with the caller's own process as
  the lock's owner, \<open>Stop\<close> with force terminates the caller before it reaches the backend.
\<close>

theorem force_stop_signals_owner:
  assumes "lc_env lc n h" and "lc_owner lc n h = Some (h_pid h)" and "running (h_pid h) h"
    and "\<And>g t. fst (snd (be_Stop (lc_backend lc) n True (g, t))) = g"
  shows "\<exists>h' s'. Lifecycle_Stop lc polls n True (h, s) = (None, h', s') \<and>
    prefix (h_signals h @ [(h_pid h, SIGTERM)]) (h_signals h')"
proof -
  obtain l where l: "GetLock (lc_codec lc) (lc_lockManager lc) n h = Inr l" "lk_PID l = h_pid h"
    using assms(2) by (auto simp: lock_owner_GetLock)
  obtain h1 where f: "ForceRelease (lc_codec lc) (lc_lockManager lc) polls n h = (None, h1)"
    and s: "prefix (h_signals h @ [(h_pid h, SIGTERM)]) (h_signals h1)"
    using ForceRelease_result [OF assms(1) l(1), of polls] assms(3) l(2) by (auto split: if_splits)
  have "Lifecycle_Stop lc polls n True (h, s) = (None, snd (be_Stop (lc_backend lc) n True (h1, s)))"
    by (simp add: Lifecycle_Stop_def l f)
  with s assms(4) [of h1 s] show ?thesis by (metis prod.collapse)
qed

theorem force_stop_signals_owner_witness:
  "\<exists>h' s'. Lifecycle_Stop demo_lifecycle [] ''ws'' True (locked_host, ()) = (None, h', s') \<and>
     prefix [(100, SIGTERM)] (h_signals h')"
proof -
  have p: "h_pid locked_host = 100" "running 100 locked_host" "h_signals locked_host = []"
    by (simp_all add: locked_host_def running_def demo_host_def)
  show ?thesis
    using force_stop_signals_owner [of demo_lifecycle "''ws''" locked_host "[]" "()"]
      locked_host_env locked_host_owner p by (simp add: idle_backend_def)
qed

end
