(* ===== verification/CRI_Backend.thy ===== *)
theory CRI_Backend
  imports CRI_Convert Lifecycle
begin

text \<open>
  The CRI backend: the client of \<open>cri/client.go\<close>, which wraps the gRPC calls of a container
  runtime, and the backend of \<open>cri/backend.go\<close> on top of it.  The runtime itself is not part
  of the sources: it is a record of functions on a state of its own, and every call made to
  it that may change something is logged, so that the order of the calls can be stated.  The
  deadline of a call's context is one of the reasons for which the runtime may fail it.
\<close>

datatype cri_call =
    PullImageCall string
  | RunPodSandboxCall PodSandboxConfig string
  | CreateContainerCall string ContainerConfig PodSandboxConfig
  | StartContainerCall string
  | StopContainerCall string i64
  | RemoveContainerCall string
  | StopPodSandboxCall string
  | RemovePodSandboxCall string
  | ExecSyncCall string "string list" i64
  | RemoveImageCall string

datatype cri_state = CONTAINER_CREATED | CONTAINER_RUNNING | CONTAINER_EXITED | CONTAINER_UNKNOWN

record cri_container =
  ct_Id :: string
  ct_Labels :: "string \<rightharpoonup> string"
  ct_State :: cri_state

record cri_status =
  st_State :: cri_state
  st_CreatedAt :: i64
  st_ExitCode :: "32 word"

record 'r cri_runtime =
  rt_unit :: "cri_call \<Rightarrow> 'r \<Rightarrow> go_error option \<times> 'r"
  rt_ident :: "cri_call \<Rightarrow> 'r \<Rightarrow> (go_error + string) \<times> 'r"
  rt_exec :: "string \<Rightarrow> string list \<Rightarrow> i64 \<Rightarrow> 'r \<Rightarrow> (go_error + (string \<times> string \<times> 32 word)) \<times> 'r"
  rt_list :: "'r \<Rightarrow> go_error + cri_container list"
  rt_status :: "string \<Rightarrow> 'r \<Rightarrow> go_error + cri_status"

record 'r cri_client =
  cl_log :: "cri_call list"
  cl_state :: 'r

section \<open>The client\<close>

text \<open>A call with no result and a call that returns an identifier, with the error wrapped.\<close>

definition call_unit ::
  "'r cri_runtime \<Rightarrow> string \<Rightarrow> cri_call \<Rightarrow> 'r cri_client \<Rightarrow> go_error option \<times> 'r cri_client" where
  "call_unit rt what c k =
     (case rt_unit rt c (cl_state k) of
        (e, r') \<Rightarrow> (map_option (\<lambda>m. what @ '': '' @ m) e, \<lparr>cl_log = cl_log k @ [c], cl_state = r'\<rparr>))"

definition call_ident ::
  "'r cri_runtime \<Rightarrow> string \<Rightarrow> cri_call \<Rightarrow> 'r cri_client \<Rightarrow> (go_error + string) \<times> 'r cri_client" where
  "call_ident rt what c k =
     (case rt_ident rt c (cl_state k) of
        (v, r') \<Rightarrow> (map_sum (\<lambda>m. what @ '': '' @ m) id v, \<lparr>cl_log = cl_log k @ [c], cl_state = r'\<rparr>))"

definition PullImage where
  "PullImage rt ref = call_unit rt (''failed to pull image '' @ ref) (PullImageCall ref)"

definition RunPodSandbox where
  "RunPodSandbox rt cfg handler = call_ident rt (''failed to run pod sandbox '' @ ps_Name cfg) (RunPodSandboxCall cfg handler)"

definition cri_CreateContainer where
  "cri_CreateContainer rt sid cfg sc = call_ident rt (''failed to create container in sandbox '' @ sid) (CreateContainerCall sid cfg sc)"

definition StartContainer where
  "StartContainer rt cid = call_unit rt (''failed to start container '' @ cid) (StartContainerCall cid)"

definition StopContainer where
  "StopContainer rt cid timeout = call_unit rt (''failed to stop container '' @ cid) (StopContainerCall cid timeout)"

definition RemoveContainer where
  "RemoveContainer rt cid = call_unit rt (''failed to remove container '' @ cid) (RemoveContainerCall cid)"

definition StopPodSandbox where
  "StopPodSandbox rt sid = call_unit rt (''failed to stop pod sandbox '' @ sid) (StopPodSandboxCall sid)"

definition RemovePodSandbox where
  "RemovePodSandbox rt sid = call_unit rt (''failed to remove pod sandbox '' @ sid) (RemovePodSandboxCall sid)"

definition ExecSync ::
  "'r cri_runtime \<Rightarrow> string \<Rightarrow> string list \<Rightarrow> i64 \<Rightarrow> 'r cri_client \<Rightarrow>
     (go_error + (string \<times> string \<times> 32 word)) \<times> 'r cri_client" where
  "ExecSync rt cid cmd timeout k =
     (case rt_exec rt cid cmd timeout (cl_state k) of
        (v, r') \<Rightarrow> (map_sum (\<lambda>m. ''failed to exec in container '' @ cid @ '': '' @ m) id v,
                     \<lparr>cl_log = cl_log k @ [ExecSyncCall cid cmd timeout], cl_state = r'\<rparr>))"

definition ListContainers :: "'r cri_runtime \<Rightarrow> 'r cri_client \<Rightarrow> go_error + cri_container list" where
  "ListContainers rt k = map_sum (\<lambda>m. ''failed to list containers: '' @ m) id (rt_list rt (cl_state k))"

definition ContainerStatus :: "'r cri_runtime \<Rightarrow> string \<Rightarrow> 'r cri_client \<Rightarrow> go_error + cri_status" where
  "ContainerStatus rt cid k =
     map_sum (\<lambda>m. ''failed to get container status '' @ cid @ '': '' @ m) id (rt_status rt cid (cl_state k))"

definition RemoveImage where
  "RemoveImage rt ref = call_unit rt (''failed to remove image '' @ ref) (RemoveImageCall ref)"

section \<open>The backend\<close>

record 'r Backend =
  bd_client :: "'r cri_client"
  bd_sandboxes :: "string \<rightharpoonup> string"
  bd_containers :: "string \<rightharpoonup> string"

record cri_config =
  cf_runtimeHandler :: string
  cf_annotations :: "string \<rightharpoonup> string"

definition cleanupSandbox :: "'r cri_runtime \<Rightarrow> string \<Rightarrow> 'r cri_client \<Rightarrow> go_error option \<times> 'r cri_client" where
  "cleanupSandbox rt sid k = RemovePodSandbox rt sid (snd (StopPodSandbox rt sid k))"

definition cleanupContainer ::
  "'r cri_runtime \<Rightarrow> string \<Rightarrow> string \<Rightarrow> 'r cri_client \<Rightarrow> go_error option \<times> 'r cri_client" where
  "cleanupContainer rt cid sid k = cleanupSandbox rt sid (snd (RemoveContainer rt cid k))"

definition cleanupFull :: "'r cri_runtime \<Rightarrow> string \<Rightarrow> string \<Rightarrow> i64 \<Rightarrow> string \<Rightarrow> 'r Backend \<Rightarrow> 'r Backend" where
  "cleanupFull rt cid sid timeout name b =
     (let k1 = snd (StopContainer rt cid timeout (bd_client b));
          k2 = snd (RemoveContainer rt cid k1);
          k3 = (if sid \<noteq> [] then snd (RemovePodSandbox rt sid (snd (StopPodSandbox rt sid k2))) else k2)
      in b\<lparr>bd_client := k3, bd_containers := (bd_containers b)(name := None),
           bd_sandboxes := (bd_sandboxes b)(name := None)\<rparr>)"

definition container_config :: "ContainerSpec \<Rightarrow> ContainerConfig" where
  "container_config spec =
     (case spec_VsockForwarder spec of
        None \<Rightarrow> BuildContainerConfig spec
      | Some v \<Rightarrow> InjectVsockForwarder (vf_Port v) (vf_BinDir v) (BuildContainerConfig spec))"

definition Backend_Start ::
  "'r cri_runtime \<Rightarrow> cri_config \<Rightarrow> ContainerSpec \<Rightarrow> 'r Backend \<Rightarrow> (go_error + string) \<times> 'r Backend" where
  "Backend_Start rt cf spec b =
     (let name = md_Name (spec_Metadata spec)
      in case PullImage rt (spec_Image spec) (bd_client b) of
           (Some e, k1) \<Rightarrow> (Inl (''pull image: '' @ e), b\<lparr>bd_client := k1\<rparr>)
         | (None, k1) \<Rightarrow>
           let sc = ApplyNetworkConfig (spec_Network spec) (BuildPodSandboxConfig name (cf_annotations cf))
           in case RunPodSandbox rt sc (cf_runtimeHandler cf) k1 of
                (Inl e, k2) \<Rightarrow> (Inl (''run pod sandbox: '' @ e), b\<lparr>bd_client := k2\<rparr>)
              | (Inr sid, k2) \<Rightarrow>
                let b2 = b\<lparr>bd_client := k2, bd_sandboxes := (bd_sandboxes b)(name \<mapsto> sid)\<rparr>
                in case cri_CreateContainer rt sid (container_config spec) sc k2 of
                     (Inl e, k3) \<Rightarrow>
                       (Inl (''create container: '' @ e), b2\<lparr>bd_client := snd (cleanupSandbox rt sid k3)\<rparr>)
                   | (Inr cid, k3) \<Rightarrow>
                     let b3 = b2\<lparr>bd_client := k3, bd_containers := (bd_containers b2)(name \<mapsto> cid)\<rparr>
                     in case StartContainer rt cid k3 of
                          (Some e, k4) \<Rightarrow>
                            (Inl (''start container: '' @ e), b3\<lparr>bd_client := snd (cleanupContainer rt cid sid k4)\<rparr>)
                        | (None, k4) \<Rightarrow> (Inr cid, b3\<lparr>bd_client := k4\<rparr>))"

text \<open>A Go map gives the empty string for a missing key.\<close>

definition lookup_id :: "(string \<rightharpoonup> string) \<Rightarrow> string \<Rightarrow> string" where
  "lookup_id m name = (case m name of None \<Rightarrow> [] | Some i \<Rightarrow> i)"

definition Backend_Stop :: "'r cri_runtime \<Rightarrow> string \<Rightarrow> bool \<Rightarrow> 'r Backend \<Rightarrow> go_error option \<times> 'r Backend" where
  "Backend_Stop rt name force b =
     (let cid = lookup_id (bd_containers b) name; sid = lookup_id (bd_sandboxes b) name
      in if cid = [] then (Some (''no CRI container found for '' @ name), b)
         else (None, cleanupFull rt cid sid (if force then 0 else 10) name b))"

definition Backend_Destroy :: "'r cri_runtime \<Rightarrow> string \<Rightarrow> 'r Backend \<Rightarrow> go_error option \<times> 'r Backend" where
  "Backend_Destroy rt name b = Backend_Stop rt name True b"

definition Backend_Exec ::
  "'r cri_runtime \<Rightarrow> string \<Rightarrow> string list \<Rightarrow> i64 \<Rightarrow> 'r Backend \<Rightarrow>
     (go_error + (string \<times> string \<times> 32 word)) \<times> 'r Backend" where
  "Backend_Exec rt name cmd timeout b =
     (let cid = lookup_id (bd_containers b) name
      in if cid = [] then (Inl (''no CRI container found for '' @ name), b)
         else case ExecSync rt cid cmd timeout (bd_client b) of (v, k) \<Rightarrow> (v, b\<lparr>bd_client := k\<rparr>))"

definition containerStateString :: "cri_state \<Rightarrow> string" where
  "containerStateString s = (case s of
     CONTAINER_CREATED \<Rightarrow> ''created'' | CONTAINER_RUNNING \<Rightarrow> ''running''
   | CONTAINER_EXITED \<Rightarrow> ''exited'' | CONTAINER_UNKNOWN \<Rightarrow> ''unknown'')"

definition Backend_Status :: "'r cri_runtime \<Rightarrow> string \<Rightarrow> 'r Backend \<Rightarrow> go_error + ContainerInfo" where
  "Backend_Status rt name b =
     (let cid = lookup_id (bd_containers b) name; sid = lookup_id (bd_sandboxes b) name
      in if cid = [] then Inl (''no CRI container found for '' @ name)
         else map_sum id (\<lambda>st. \<lparr>ci_ID = cid, ci_Name = name, ci_State = containerStateString (st_State st),
             ci_SandboxID = sid, ci_CreatedAt = st_CreatedAt st, ci_ExitCode = st_ExitCode st\<rparr>)
           (ContainerStatus rt cid (bd_client b)))"

definition Backend_List :: "'r cri_runtime \<Rightarrow> 'r Backend \<Rightarrow> go_error + ContainerInfo list" where
  "Backend_List rt b =
     map_sum id (\<lambda>cs. [\<lparr>ci_ID = ct_Id c, ci_Name = lookup_id (ct_Labels c) ''misbah.dev/name'',
         ci_State = containerStateString (ct_State c), ci_SandboxID = [], ci_CreatedAt = 0, ci_ExitCode = 0\<rparr>.
         c \<leftarrow> cs, lookup_id (ct_Labels c) ''misbah.dev/managed'' = ''true''])
       (ListContainers rt (bd_client b))"

text \<open>The backend as the interface of the lifecycle; it does not touch the host.\<close>

definition CRIBackend :: "'r cri_runtime \<Rightarrow> cri_config \<Rightarrow> 'r Backend ContainerBackend" where
  "CRIBackend rt cf = \<lparr>
     be_Start = (\<lambda>spec (h, b). case Backend_Start rt cf spec b of (r, b') \<Rightarrow> (r, h, b')),
     be_Stop = (\<lambda>name force (h, b). case Backend_Stop rt name force b of (r, b') \<Rightarrow> (r, h, b')),
     be_Destroy = (\<lambda>name (h, b). case Backend_Destroy rt name b of (r, b') \<Rightarrow> (r, h, b')),
     be_Exec = (\<lambda>name cmd t (h, b). case Backend_Exec rt name cmd t b of (r, b') \<Rightarrow> (r, h, b')),
     be_Status = (\<lambda>name (h, b). Backend_Status rt name b),
     be_List = (\<lambda>(h, b). Backend_List rt b)\<rparr>"

section \<open>Order of the calls\<close>

lemma call_logs [simp]:
  "cl_log (snd (call_unit rt w c k)) = cl_log k @ [c]" "cl_log (snd (call_ident rt w c k)) = cl_log k @ [c]"
  by (simp_all add: call_unit_def call_ident_def split: prod.splits)

lemma call_logD:
  "call_unit rt w c k = (e, k') \<Longrightarrow> cl_log k' = cl_log k @ [c]"
  "call_ident rt w c k = (v, k') \<Longrightarrow> cl_log k' = cl_log k @ [c]"
  by (metis call_logs snd_conv)+

lemmas cri_call_defs = PullImage_def RunPodSandbox_def cri_CreateContainer_def StartContainer_def StopContainer_def
  RemoveContainer_def StopPodSandbox_def RemovePodSandbox_def

lemma cleanup_logs:
  "cl_log (snd (cleanupSandbox rt sid k)) = cl_log k @ [StopPodSandboxCall sid, RemovePodSandboxCall sid]"
  "cl_log (snd (cleanupContainer rt cid sid k)) =
     cl_log k @ [RemoveContainerCall cid, StopPodSandboxCall sid, RemovePodSandboxCall sid]"
  by (simp_all add: cleanupSandbox_def cleanupContainer_def cri_call_defs)

text \<open>
  The answers of a runtime to a sequence of calls, each made in the state that the call before it
  left.  A call without a result answers with the empty string.
\<close>

definition rt_answer :: "'r cri_runtime \<Rightarrow> cri_call \<Rightarrow> 'r \<Rightarrow> (go_error + string) \<times> 'r" where
  "rt_answer rt c s =
     (case c of
        RunPodSandboxCall sc h \<Rightarrow> rt_ident rt c s
      | CreateContainerCall sid cc sc \<Rightarrow> rt_ident rt c s
      | _ \<Rightarrow> (case rt_unit rt c s of (e, s') \<Rightarrow> (case e of None \<Rightarrow> Inr [] | Some m \<Rightarrow> Inl m, s')))"

fun answered :: "'r cri_runtime \<Rightarrow> 'r \<Rightarrow> (cri_call \<times> (go_error + string)) list \<Rightarrow> bool" where
  "answered rt s [] = True"
| "answered rt s ((c, a) # xs) = (case rt_answer rt c s of (a', s') \<Rightarrow> a = a' \<and> answered rt s' xs)"

text \<open>The four calls of a start in the order of the comment on \<open>Start\<close>, each with the prefix of its error.\<close>

definition start_plan :: "string \<Rightarrow> ContainerSpec \<Rightarrow> PodSandboxConfig \<Rightarrow> string \<Rightarrow> string \<Rightarrow> (cri_call \<times> string) list" where
  "start_plan handler spec sc sid cid =
     [(PullImageCall (spec_Image spec), ''pull image: failed to pull image '' @ spec_Image spec),
      (RunPodSandboxCall sc handler, ''run pod sandbox: failed to run pod sandbox '' @ ps_Name sc),
      (CreateContainerCall sid (container_config spec) sc, ''create container: failed to create container in sandbox '' @ sid),
      (StartContainerCall cid, ''start container: failed to start container '' @ cid)]"

text \<open>What has to be removed after the call of that number failed.\<close>

definition undo_calls :: "nat \<Rightarrow> string \<Rightarrow> string \<Rightarrow> cri_call list" where
  "undo_calls n sid cid =
     (if n = 3 then [RemoveContainerCall cid] else []) @ (if 2 \<le> n then [StopPodSandboxCall sid, RemovePodSandboxCall sid] else [])"

lemma call_unit_answer:
  assumes "call_unit rt w c k = (e, k')" and "\<And>s. rt_answer rt c s = (case rt_unit rt c s of (e, s') \<Rightarrow> (case e of None \<Rightarrow> Inr [] | Some m \<Rightarrow> Inl m, s'))"
  shows "cl_log k' = cl_log k @ [c] \<and> (e = None \<and> rt_answer rt c (cl_state k) = (Inr [], cl_state k') \<or>
    (\<exists>m. e = Some (w @ '': '' @ m) \<and> rt_answer rt c (cl_state k) = (Inl m, cl_state k')))"
  using assms by (auto simp: call_unit_def split: prod.splits option.splits)

lemma call_ident_answer:
  assumes "call_ident rt w c k = (v, k')" and "\<And>s. rt_answer rt c s = rt_ident rt c s"
  shows "cl_log k' = cl_log k @ [c] \<and> ((\<exists>i. v = Inr i \<and> rt_answer rt c (cl_state k) = (Inr i, cl_state k')) \<or>
    (\<exists>m. v = Inl (w @ '': '' @ m) \<and> rt_answer rt c (cl_state k) = (Inl m, cl_state k')))"
proof -
  obtain a s where "rt_ident rt c (cl_state k) = (a, s)" by fastforce
  with assms show ?thesis by (cases a) (auto simp: call_ident_def)
qed

text \<open>
  What \<open>Start\<close> did, with the calls it \<open>asked\<close> of the runtime and their answers: it made all four, or
  those up to the first that failed and then the ones that undo what was made.
\<close>

definition start_outcome ::
  "'r cri_runtime \<Rightarrow> cri_config \<Rightarrow> ContainerSpec \<Rightarrow> 'r Backend \<Rightarrow> (go_error + string) \<Rightarrow> 'r Backend \<Rightarrow>
     PodSandboxConfig \<Rightarrow> string \<Rightarrow> string \<Rightarrow> (cri_call \<times> (go_error + string)) list \<Rightarrow> bool" where
  "start_outcome rt cf spec b r b' sc sid cid asked \<longleftrightarrow>
     (let name = md_Name (spec_Metadata spec); plan = start_plan (cf_runtimeHandler cf) spec sc sid cid in
      answered rt (cl_state (bd_client b)) asked \<and>
      (1 < length asked \<longrightarrow> snd (asked ! 1) = Inr sid \<or> (\<exists>m. snd (asked ! 1) = Inl m)) \<and>
      (2 < length asked \<longrightarrow> snd (asked ! 2) = Inr cid \<or> (\<exists>m. snd (asked ! 2) = Inl m)) \<and>
      (case r of
         Inr i \<Rightarrow> map fst asked = map fst plan \<and> (\<forall>x\<in>set asked. \<exists>v. snd x = Inr v) \<and> i = cid \<and>
           cl_log (bd_client b') = cl_log (bd_client b) @ map fst plan \<and>
           bd_containers b' name = Some cid \<and> bd_sandboxes b' name = Some sid
       | Inl e \<Rightarrow> \<exists>n m. n < 4 \<and> map fst asked = map fst (take (Suc n) plan) \<and> (\<forall>x\<in>set (take n asked). \<exists>v. snd x = Inr v) \<and>
           snd (asked ! n) = Inl m \<and> e = snd (plan ! n) @ '': '' @ m \<and>
           cl_log (bd_client b') = cl_log (bd_client b) @ map fst (take (Suc n) plan) @ undo_calls n sid cid))"

lemma start_early:
  assumes p: "PullImage rt (spec_Image spec) (bd_client b) = (e1, k1)"
    and q: "RunPodSandbox rt sc (cf_runtimeHandler cf) k1 = (v2, k2)"
    and sc: "sc = ApplyNetworkConfig (spec_Network spec) (BuildPodSandboxConfig (md_Name (spec_Metadata spec)) (cf_annotations cf))"
    and early: "e1 \<noteq> None \<or> (\<exists>x. v2 = Inl x)" and start: "Backend_Start rt cf spec b = (r, b')"
  shows "\<exists>sid cid asked. start_outcome rt cf spec b r b' sc sid cid asked"
proof -
  let ?c1 = "PullImageCall (spec_Image spec)" and ?c2 = "RunPodSandboxCall sc (cf_runtimeHandler cf)"
  note P = call_unit_answer [OF p [unfolded PullImage_def]] and Q = call_ident_answer [OF q [unfolded RunPodSandbox_def]]
  show ?thesis
  proof (cases e1)
    case (Some x)
    then obtain m where m: "e1 = Some ((''failed to pull image '' @ spec_Image spec) @ '': '' @ m)" "rt_answer rt ?c1 (cl_state (bd_client b)) = (Inl m, cl_state k1)"
      "cl_log k1 = cl_log (bd_client b) @ [?c1]" using P by (auto simp: rt_answer_def)
    with start p show ?thesis
      by (intro exI [of _ "[]"] exI [of _ "[(?c1, Inl m)]"])
        (auto simp: start_outcome_def start_plan_def undo_calls_def Backend_Start_def Let_def intro!: exI [of _ 0])
  next
    case None
    then obtain m where m: "v2 = Inl ((''failed to run pod sandbox '' @ ps_Name sc) @ '': '' @ m)" "rt_answer rt ?c2 (cl_state k1) = (Inl m, cl_state k2)"
      "cl_log k2 = cl_log k1 @ [?c2]" using Q early by (auto simp: rt_answer_def)
    moreover have "rt_answer rt ?c1 (cl_state (bd_client b)) = (Inr [], cl_state k1)" "cl_log k1 = cl_log (bd_client b) @ [?c1]"
      using P None by (auto simp: rt_answer_def)
    ultimately show ?thesis using start p q None sc
      by (intro exI [of _ "[]"] exI [of _ "[(?c1, Inr []), (?c2, Inl m)]"])
        (auto simp: start_outcome_def start_plan_def undo_calls_def Backend_Start_def Let_def intro!: exI [of _ 1])
  qed
qed

lemma start_late:
  assumes p: "PullImage rt (spec_Image spec) (bd_client b) = (None, k1)"
    and q: "RunPodSandbox rt sc (cf_runtimeHandler cf) k1 = (Inr sid, k2)"
    and c: "cri_CreateContainer rt sid (container_config spec) sc k2 = (v3, k3)"
    and sc: "sc = ApplyNetworkConfig (spec_Network spec) (BuildPodSandboxConfig (md_Name (spec_Metadata spec)) (cf_annotations cf))"
    and start: "Backend_Start rt cf spec b = (r, b')"
  shows "\<exists>cid asked. start_outcome rt cf spec b r b' sc sid cid asked"
proof -
  let ?c1 = "PullImageCall (spec_Image spec)" and ?c2 = "RunPodSandboxCall sc (cf_runtimeHandler cf)"
  let ?c3 = "CreateContainerCall sid (container_config spec) sc"
  have P: "rt_answer rt ?c1 (cl_state (bd_client b)) = (Inr [], cl_state k1)" "cl_log k1 = cl_log (bd_client b) @ [?c1]"
    using call_unit_answer [OF p [unfolded PullImage_def]] by (auto simp: rt_answer_def)
  have Q: "rt_answer rt ?c2 (cl_state k1) = (Inr sid, cl_state k2)" "cl_log k2 = cl_log k1 @ [?c2]"
    using call_ident_answer [OF q [unfolded RunPodSandbox_def]] by (auto simp: rt_answer_def)
  note C = call_ident_answer [OF c [unfolded cri_CreateContainer_def]]
  show ?thesis
  proof (cases v3)
    case (Inl x)
    then obtain m where "v3 = Inl ((''failed to create container in sandbox '' @ sid) @ '': '' @ m)" "rt_answer rt ?c3 (cl_state k2) = (Inl m, cl_state k3)"
      "cl_log k3 = cl_log k2 @ [?c3]" using C by (auto simp: rt_answer_def)
    with start p q c sc P Q show ?thesis
      by (intro exI [of _ "[]"] exI [of _ "[(?c1, Inr []), (?c2, Inr sid), (?c3, Inl m)]"])
        (auto simp: start_outcome_def start_plan_def undo_calls_def cleanup_logs Backend_Start_def Let_def eval_nat_numeral intro!: exI [of _ 2])
  next
    case (Inr cid)
    let ?c4 = "StartContainerCall cid"
    have C: "rt_answer rt ?c3 (cl_state k2) = (Inr cid, cl_state k3)" "cl_log k3 = cl_log k2 @ [?c3]" using C Inr by (auto simp: rt_answer_def)
    obtain e4 k4 where t: "StartContainer rt cid k3 = (e4, k4)" by fastforce
    from call_unit_answer [OF t [unfolded StartContainer_def]] consider
        (ok) "e4 = None" "rt_answer rt ?c4 (cl_state k3) = (Inr [], cl_state k4)" "cl_log k4 = cl_log k3 @ [?c4]"
      | (err) m where "e4 = Some ((''failed to start container '' @ cid) @ '': '' @ m)" "rt_answer rt ?c4 (cl_state k3) = (Inl m, cl_state k4)"
          "cl_log k4 = cl_log k3 @ [?c4]" by (auto simp: rt_answer_def)
    then show ?thesis
    proof cases
      case ok
      with start p q c t sc P Q C Inr show ?thesis
        by (intro exI [of _ cid] exI [of _ "[(?c1, Inr []), (?c2, Inr sid), (?c3, Inr cid), (?c4, Inr [])]"])
          (auto simp: start_outcome_def start_plan_def Backend_Start_def Let_def eval_nat_numeral)
    next
      case err
      with start p q c t sc P Q C Inr show ?thesis
        by (intro exI [of _ cid] exI [of _ "[(?c1, Inr []), (?c2, Inr sid), (?c3, Inr cid), (?c4, Inl m)]"])
          (auto simp: start_outcome_def start_plan_def undo_calls_def cleanup_logs Backend_Start_def Let_def eval_nat_numeral intro!: exI [of _ 3])
    qed
  qed
qed

text \<open>
  C23: \<open>Start\<close> asks the runtime for an image, a sandbox, a container and its start, in this order and
  each only when the one before succeeded.  It reports success exactly when the runtime granted all
  four, with the identifier that it gave the container.  When the runtime fails one of them, the error is
  that call's, and what the calls before it made is asked to be removed: the sandbox, and the
  container first if it was made.
\<close>

theorem cri_start_calls:
  assumes "Backend_Start rt cf spec b = (r, b')"
  shows "\<exists>sid cid asked. start_outcome rt cf spec b r b'
    (ApplyNetworkConfig (spec_Network spec) (BuildPodSandboxConfig (md_Name (spec_Metadata spec)) (cf_annotations cf))) sid cid asked"
proof -
  define sc where "sc = ApplyNetworkConfig (spec_Network spec) (BuildPodSandboxConfig (md_Name (spec_Metadata spec)) (cf_annotations cf))"
  obtain e1 k1 where p: "PullImage rt (spec_Image spec) (bd_client b) = (e1, k1)" by fastforce
  obtain v2 k2 where q: "RunPodSandbox rt sc (cf_runtimeHandler cf) k1 = (v2, k2)" by fastforce
  show ?thesis
  proof (cases "e1 \<noteq> None \<or> (\<exists>x. v2 = Inl x)")
    case True
    then show ?thesis using start_early [OF p q sc_def _ assms] sc_def by blast
  next
    case False
    then obtain sid where "e1 = None" "v2 = Inr sid" by (cases v2) auto
    moreover obtain v3 k3 where "cri_CreateContainer rt sid (container_config spec) sc k2 = (v3, k3)" by fastforce
    ultimately show ?thesis using start_late [of rt spec b k1 sc cf sid k2 v3 k3 r b'] p q sc_def assms by blast
  qed
qed

text \<open>A runtime that accepts everything, one that fails a given call, and a fresh backend.\<close>

definition failing_runtime :: "(cri_call \<Rightarrow> bool) \<Rightarrow> unit cri_runtime" where
  "failing_runtime bad = \<lparr>
     rt_unit = (\<lambda>c r. (if bad c then Some ''refused'' else None, r)),
     rt_ident = (\<lambda>c r. (if bad c then Inl ''refused''
       else Inr (case c of RunPodSandboxCall sc h \<Rightarrow> ''box'' | _ \<Rightarrow> ''ctr''), r)),
     rt_exec = (\<lambda>cid cmd t r. (Inr ([], [], 0), r)),
     rt_list = (\<lambda>r. Inr []),
     rt_status = (\<lambda>cid r. Inl ''not found'')\<rparr>"

definition fresh_backend :: "unit Backend" where
  "fresh_backend = \<lparr>bd_client = \<lparr>cl_log = [], cl_state = ()\<rparr>, bd_sandboxes = Map.empty, bd_containers = Map.empty\<rparr>"

definition kata_config :: cri_config where
  "kata_config = \<lparr>cf_runtimeHandler = ''kata'', cf_annotations = Map.empty\<rparr>"

lemmas demo_runtime_defs = failing_runtime_def fresh_backend_def kata_config_def call_unit_def call_ident_def
  cleanupSandbox_def cleanupContainer_def cri_call_defs

text \<open>A runtime that refuses to start the container.\<close>

theorem cri_start_calls_witness:
  "\<exists>b' sc cid. Backend_Start (failing_runtime (\<lambda>c. c = StartContainerCall ''ctr'')) kata_config demo_spec fresh_backend =
      (Inl ''start container: failed to start container ctr: refused'', b') \<and>
    cl_log (bd_client b') =
     [PullImageCall [], RunPodSandboxCall sc ''kata'', CreateContainerCall ''box'' (container_config demo_spec) sc,
      StartContainerCall cid, RemoveContainerCall cid, StopPodSandboxCall ''box'', RemovePodSandboxCall ''box'']"
proof -
  obtain b' where s: "Backend_Start (failing_runtime (\<lambda>c. c = StartContainerCall ''ctr'')) kata_config demo_spec fresh_backend =
      (Inl ''start container: failed to start container ctr: refused'', b')"
    and len: "length (cl_log (bd_client b')) = 7" and box: "cl_log (bd_client b') ! 5 = StopPodSandboxCall ''box''"
    by (auto simp: Backend_Start_def Let_def demo_runtime_defs)
  have d: "cl_log (bd_client fresh_backend) = []" "cf_runtimeHandler kata_config = ''kata''" "spec_Image demo_spec = []"
    by (simp_all add: fresh_backend_def kata_config_def demo_spec_def)
  from cri_start_calls [OF s] d obtain sc sid cid n where n: "n < (4 :: nat)"
    and l: "cl_log (bd_client b') = map fst (take (Suc n) (start_plan ''kata'' demo_spec sc sid cid)) @ undo_calls n sid cid"
    by (auto simp: start_outcome_def Let_def)
  have "n = 3" using n len unfolding l by (auto simp: start_plan_def undo_calls_def less_Suc_eq numeral_eq_Suc)
  with l box d s show ?thesis by (auto simp: start_plan_def undo_calls_def)
qed

section \<open>Stopping\<close>

text \<open>
  A stop of a container the backend knows makes the four calls in the documented order,
  goes on when any of them fails, reports success in every case, and forgets the container
  and its sandbox, and nothing else; a container it does not know is an error and no call.
\<close>

theorem cri_stop_calls:
  "let cid = lookup_id (bd_containers b) name; sid = lookup_id (bd_sandboxes b) name
   in if cid = [] then Backend_Stop rt name force b = (Some (''no CRI container found for '' @ name), b)
      else \<exists>b'. Backend_Stop rt name force b = (None, b') \<and>
        bd_containers b' = (bd_containers b)(name := None) \<and> bd_sandboxes b' = (bd_sandboxes b)(name := None) \<and>
        cl_log (bd_client b') = cl_log (bd_client b) @ [StopContainerCall cid (if force then 0 else 10), RemoveContainerCall cid] @
          (if sid = [] then [] else [StopPodSandboxCall sid, RemovePodSandboxCall sid])"
  by (simp add: Backend_Stop_def cleanupFull_def Let_def cri_call_defs)

text \<open>
  A start that fails in \<open>StartContainer\<close> removes the container from the runtime, but not
  from the backend's maps: the status of the name is asked of the removed container.
\<close>

lemma cri_failed_start_remembered:
  "bd_containers (snd (Backend_Start (failing_runtime (\<lambda>c. c = StartContainerCall ''ctr'')) kata_config demo_spec fresh_backend))
     (md_Name (spec_Metadata demo_spec)) = Some ''ctr''"
  by (simp add: Backend_Start_def Let_def demo_runtime_defs)

end
