(* ===== verification/Netns.thy ===== *)
theory Netns
  imports Container_Spec "HOL-Library.Word"
begin

unbundle bit_operations_syntax

text \<open>
  The network isolator of \<open>daemon/netns.go\<close>.  The packages \<open>netlink\<close> and \<open>netns\<close> and the
  program iptables are not part of the sources: they are one function that takes an operation
  and the kernel's state, and every operation is logged in the order it is made.  An address
  is its list of bytes, as in package \<open>net\<close>.
\<close>

type_synonym ip_addr = "8 word list"

datatype net_op =
    NsNewNamed string
  | NsGetFromName string
  | NsGetCurrent
  | NsSet string
  | NsSetOrig
  | NsDeleteNamed string
  | LinkAddVeth string string int
  | LinkAddBridge string int
  | LinkByName string
  | LinkDel string
  | LinkSetNs string string
  | LinkSetMaster string string
  | LinkSetUp string
  | AddrAdd string ip_addr nat
  | RouteAddDefault ip_addr
  | Iptables "string list"

record 'k net_kernel =
  nk_call :: "net_op \<Rightarrow> 'k \<Rightarrow> go_error option \<times> 'k"
  nk_addrs :: "string \<Rightarrow> 'k \<Rightarrow> ip_addr list"

record 'k net_state =
  nw_log :: "net_op list"
  nw_kernel :: 'k

definition net_do :: "'k net_kernel \<Rightarrow> net_op \<Rightarrow> 'k net_state \<Rightarrow> go_error option \<times> 'k net_state" where
  "net_do nk op n =
     (case nk_call nk op (nw_kernel n) of (e, k) \<Rightarrow> (e, \<lparr>nw_log = nw_log n @ [op], nw_kernel = k\<rparr>))"

text \<open>A sequence of operations with early return: the first error, with its prefix, ends it.\<close>

fun net_seq :: "'k net_kernel \<Rightarrow> (string \<times> net_op) list \<Rightarrow> 'k net_state \<Rightarrow> go_error option \<times> 'k net_state" where
  "net_seq nk [] n = (None, n)"
| "net_seq nk ((what, op) # ops) n =
     (case net_do nk op n of
        (Some e, n') \<Rightarrow> (Some (what @ '': '' @ e), n')
      | (None, n') \<Rightarrow> net_seq nk ops n')"

section \<open>Package net: CIDR notation\<close>

definition octet :: "string \<Rightarrow> nat option" where
  "octet s =
     (if s \<noteq> [] \<and> list_all is_digit s \<and> (hd s = CHR ''0'' \<longrightarrow> length s = 1) \<and> digits_val s \<le> 255
      then Some (digits_val s) else None)"

definition parse_ip4 :: "string \<Rightarrow> ip_addr option" where
  "parse_ip4 s =
     (case map octet (split_on (CHR ''.'') s) of
        [Some a, Some b, Some c, Some d] \<Rightarrow> Some [of_nat a, of_nat b, of_nat c, of_nat d]
      | _ \<Rightarrow> None)"

text \<open>The byte of a mask with \<open>k\<close> leading ones, and \<open>net.CIDRMask(n, 32)\<close>.\<close>

definition mask_byte :: "nat \<Rightarrow> 8 word" where
  "mask_byte k = NOT (drop_bit k (NOT 0))"

definition CIDRMask32 :: "nat \<Rightarrow> 8 word list" where
  "CIDRMask32 n = map (\<lambda>i. mask_byte (min 8 (n - 8 * i))) [0, 1, 2, 3]"

text \<open>
  \<open>net.ParseCIDR\<close> on IPv4: the network address and the length of its mask.  The subnet of the
  isolator is an IPv4 network; for the text of an IPv6 network \<open>net.ParseCIDR\<close> would give
  sixteen bytes, which is the argument \<open>v6\<close>.
\<close>

definition ParseCIDR :: "(string \<Rightarrow> (ip_addr \<times> nat) option) \<Rightarrow> string \<Rightarrow> (ip_addr \<times> nat) option" where
  "ParseCIDR v6 s =
     (case split_n2 (CHR ''/'') s of
        [a, bits] \<Rightarrow>
          if CHR '':'' \<in> set a \<and> set (takeWhile (\<lambda>c. c \<noteq> CHR '':'') a) \<inter> {CHR ''.'', CHR ''%''} = {} then v6 s
          else (case parse_ip4 a of
                  None \<Rightarrow> None
                | Some ip \<Rightarrow>
                  if bits \<noteq> [] \<and> list_all is_digit bits \<and> digits_val bits \<le> 32
                  then Some (map2 (AND) ip (CIDRMask32 (digits_val bits)), digits_val bits) else None)
      | _ \<Rightarrow> None)"

definition ip_string :: "ip_addr \<Rightarrow> string" where
  "ip_string ip = str_join ''.'' (map (\<lambda>b. itoa_nat (unat b)) ip)"

section \<open>The isolator\<close>

record NetworkSection =
  nsec_Bridge :: string
  nsec_Subnet :: string
  nsec_MTU :: int

record isolatedNet =
  in_nsName :: string
  in_vethHost :: string
  in_vethCont :: string
  in_ip :: ip_addr

record NetworkIsolator =
  ni_cfg :: NetworkSection
  ni_nextIP :: "32 word"
  ni_netns :: "string \<rightharpoonup> isolatedNet"

definition NewNetworkIsolator :: "NetworkSection \<Rightarrow> NetworkIsolator" where
  "NewNetworkIsolator cfg = \<lparr>ni_cfg = cfg, ni_nextIP = 1, ni_netns = Map.empty\<rparr>"

definition ns_name :: "string \<Rightarrow> string" where "ns_name c = ''misbah-'' @ c"
definition veth_host :: "string \<Rightarrow> string" where "veth_host c = take 15 (''vh-'' @ c)"
definition veth_cont :: "string \<Rightarrow> string" where "veth_cont c = take 15 (''vc-'' @ c)"

definition cleanupNs :: "'k net_kernel \<Rightarrow> string \<Rightarrow> 'k net_state \<Rightarrow> 'k net_state" where
  "cleanupNs nk ns n = snd (net_do nk (NsDeleteNamed ns) n)"

definition ensureBridge ::
  "'k net_kernel \<Rightarrow> NetworkSection \<Rightarrow> ip_addr \<Rightarrow> nat \<Rightarrow> 'k net_state \<Rightarrow> go_error option \<times> 'k net_state" where
  "ensureBridge nk cfg gatewayIP ones n =
     (let br = nsec_Bridge cfg
      in case (case net_do nk (LinkByName br) n of
                 (None, n1) \<Rightarrow> (None, n1)
               | (Some e, n1) \<Rightarrow> net_seq nk [(''failed to create bridge'', LinkAddBridge br (nsec_MTU cfg))] n1) of
           (Some e, n2) \<Rightarrow> (Some e, n2)
         | (None, n2) \<Rightarrow>
           net_seq nk
             ((if gatewayIP \<in> set (nk_addrs nk br (nw_kernel n2)) then []
               else [(''failed to add gateway IP to bridge'', AddrAdd br gatewayIP ones)]) @
              [(''failed to bring up bridge'', LinkSetUp br)]) n2)"

definition iptablesRules :: "string \<Rightarrow> string \<Rightarrow> ip_addr \<Rightarrow> string list list" where
  "iptablesRules proxyHost proxyPort gatewayIP =
     [[''-A'', ''OUTPUT'', ''-o'', ''lo'', ''-j'', ''ACCEPT''],
      [''-A'', ''OUTPUT'', ''-d'', proxyHost, ''-p'', ''tcp'', ''--dport'', proxyPort, ''-j'', ''ACCEPT''],
      [''-A'', ''OUTPUT'', ''-m'', ''state'', ''--state'', ''ESTABLISHED,RELATED'', ''-j'', ''ACCEPT''],
      [''-A'', ''OUTPUT'', ''-d'', ip_string gatewayIP, ''-p'', ''udp'', ''--dport'', ''53'', ''-j'', ''ACCEPT''],
      [''-A'', ''OUTPUT'', ''-d'', ip_string gatewayIP, ''-p'', ''tcp'', ''--dport'', ''53'', ''-j'', ''ACCEPT''],
      [''-A'', ''OUTPUT'', ''-j'', ''DROP'']]"

text \<open>
  \<open>configureContainerNs\<close>: the first part stays in the daemon's namespace, the second runs in
  the container's, and \<open>defer netns.Set(origNs)\<close> follows it on every way out.
\<close>

definition ns_interface_ops :: "string \<Rightarrow> ip_addr \<Rightarrow> ip_addr \<Rightarrow> nat \<Rightarrow> (string \<times> net_op) list" where
  "ns_interface_ops vethName containerIP gatewayIP prefixLen =
     [(''failed to find loopback'', LinkByName ''lo''), (''failed to bring up loopback'', LinkSetUp ''lo''),
      (''failed to find container veth'', LinkByName vethName),
      (''failed to add IP to container veth'', AddrAdd vethName containerIP prefixLen),
      (''failed to bring up container veth'', LinkSetUp vethName),
      (''failed to add default route'', RouteAddDefault gatewayIP)]"

definition configure_inside ::
  "'k net_kernel \<Rightarrow> string \<Rightarrow> ip_addr \<Rightarrow> ip_addr \<Rightarrow> nat \<Rightarrow> string \<Rightarrow> 'k net_state \<Rightarrow> go_error option \<times> 'k net_state" where
  "configure_inside nk vethName containerIP gatewayIP prefixLen proxyAddr n =
     (case net_seq nk (ns_interface_ops vethName containerIP gatewayIP prefixLen) n of
        (Some e, n2) \<Rightarrow> (Some e, n2)
      | (None, n2) \<Rightarrow>
        (case split_host_port proxyAddr of
           Inl e \<Rightarrow> (Some (''invalid proxy address '' @ proxyAddr @ '': '' @ e), n2)
         | Inr (proxyHost, proxyPort) \<Rightarrow>
           net_seq nk (map (\<lambda>rule. (''iptables failed'', Iptables rule)) (iptablesRules proxyHost proxyPort gatewayIP)) n2))"

definition configureContainerNs ::
  "'k net_kernel \<Rightarrow> string \<Rightarrow> string \<Rightarrow> ip_addr \<Rightarrow> ip_addr \<Rightarrow> nat \<Rightarrow> string \<Rightarrow> 'k net_state \<Rightarrow>
     go_error option \<times> 'k net_state" where
  "configureContainerNs nk nsName vethName containerIP gatewayIP prefixLen proxyAddr n =
     (case net_seq nk [(''failed to get current netns'', NsGetCurrent), (''failed to get target netns'', NsGetFromName nsName),
                       (''failed to switch to netns'', NsSet nsName)] n of
        (Some e, n1) \<Rightarrow> (Some e, n1)
      | (None, n1) \<Rightarrow>
        (case configure_inside nk vethName containerIP gatewayIP prefixLen proxyAddr n1 of
           (e, n2) \<Rightarrow> (e, snd (net_do nk NsSetOrig n2))))"

text \<open>Errors up to the bridge delete the veth pair and the namespace, later ones the namespace only.\<close>

definition on_net_error ::
  "('k net_state \<Rightarrow> 'k net_state) \<Rightarrow> ('k net_state \<Rightarrow> go_error option \<times> 'k net_state) \<Rightarrow>
     go_error option \<times> 'k net_state \<Rightarrow> go_error option \<times> 'k net_state" where
  "on_net_error undo cont r = (case r of (Some e, n) \<Rightarrow> (Some e, undo n) | (None, n) \<Rightarrow> cont n)"

definition net_wrap :: "string \<Rightarrow> go_error option \<times> 'n \<Rightarrow> go_error option \<times> 'n" where
  "net_wrap what r = map_prod (map_option (\<lambda>e. what @ '': '' @ e)) id r"

definition Setup_links ::
  "'k net_kernel \<Rightarrow> NetworkSection \<Rightarrow> string \<Rightarrow> ip_addr \<Rightarrow> ip_addr \<Rightarrow> nat \<Rightarrow> string \<Rightarrow> 'k net_state \<Rightarrow>
     go_error option \<times> 'k net_state" where
  "Setup_links nk cfg c containerIP gatewayIP ones proxyAddr n0 =
     (let ns = ns_name c; vh = veth_host c; vc = veth_cont c;
          del_ns = cleanupNs nk ns; del_both = (\<lambda>n. cleanupNs nk ns (snd (net_do nk (LinkDel vh) n)))
      in on_net_error id (\<lambda>n1.
         on_net_error del_ns (\<lambda>n2.
         on_net_error del_both (\<lambda>n3.
         on_net_error del_both (\<lambda>n4.
         on_net_error del_ns (\<lambda>n5.
         on_net_error del_ns (\<lambda>n6. (None, n6))
           (net_wrap ''failed to configure container netns'' (configureContainerNs nk ns vc containerIP gatewayIP ones proxyAddr n5)))
           (net_seq nk [(''failed to find host veth'', LinkByName vh), (''failed to find bridge'', LinkByName (nsec_Bridge cfg)),
              (''failed to attach veth to bridge'', LinkSetMaster vh (nsec_Bridge cfg)), (''failed to bring up host veth'', LinkSetUp vh)] n4))
           (net_wrap ''failed to setup bridge'' (ensureBridge nk cfg gatewayIP ones n3)))
           (net_seq nk [(''failed to get netns handle'', NsGetFromName ns), (''failed to find veth peer'', LinkByName vc),
              (''failed to move veth to netns'', LinkSetNs vc ns)] n2))
           (net_seq nk [(''failed to create veth pair'', LinkAddVeth vh vc (nsec_MTU cfg))] n1))
           (net_seq nk [(''failed to create netns '' @ ns, NsNewNamed ns)] n0))"

definition Isolator_Setup ::
  "'k net_kernel \<Rightarrow> (string \<Rightarrow> (ip_addr \<times> nat) option) \<Rightarrow> string \<Rightarrow> string \<Rightarrow> NetworkIsolator \<Rightarrow> 'k net_state \<Rightarrow>
     (go_error + string) \<times> NetworkIsolator \<times> 'k net_state" where
  "Isolator_Setup nk v6 c proxyAddr ni n =
     (if ni_netns ni c \<noteq> None then (Inl (''network namespace already exists for '' @ c), ni, n)
      else case ParseCIDR v6 (nsec_Subnet (ni_cfg ni)) of
        None \<Rightarrow> (Inl (''invalid subnet '' @ nsec_Subnet (ni_cfg ni)), ni, n)
      | Some (subnetIP, ones) \<Rightarrow>
        let ipNum = ni_nextIP ni + 1;
            ni1 = ni\<lparr>ni_nextIP := ipNum\<rparr>;
            containerIP = subnetIP[3 := ucast ipNum];
            gatewayIP = subnetIP[3 := 1]
        in case Setup_links nk (ni_cfg ni) c containerIP gatewayIP ones proxyAddr n of
             (Some e, n') \<Rightarrow> (Inl e, ni1, n')
           | (None, n') \<Rightarrow>
             (Inr (ns_name c),
              ni1\<lparr>ni_netns := (ni_netns ni1)(c \<mapsto>
                \<lparr>in_nsName = ns_name c, in_vethHost = veth_host c, in_vethCont = veth_cont c, in_ip = containerIP\<rparr>)\<rparr>, n'))"

definition remove_net :: "'k net_kernel \<Rightarrow> isolatedNet \<Rightarrow> 'k net_state \<Rightarrow> 'k net_state" where
  "remove_net nk inet n =
     cleanupNs nk (in_nsName inet)
       (case net_do nk (LinkByName (in_vethHost inet)) n of
          (None, n') \<Rightarrow> snd (net_do nk (LinkDel (in_vethHost inet)) n')
        | (Some e, n') \<Rightarrow> n')"

definition Isolator_Teardown ::
  "'k net_kernel \<Rightarrow> string \<Rightarrow> NetworkIsolator \<Rightarrow> 'k net_state \<Rightarrow> go_error option \<times> NetworkIsolator \<times> 'k net_state" where
  "Isolator_Teardown nk c ni n =
     (case ni_netns ni c of
        None \<Rightarrow> (Some (''no network namespace for '' @ c), ni, n)
      | Some inet \<Rightarrow> (None, ni\<lparr>ni_netns := (ni_netns ni)(c := None)\<rparr>, remove_net nk inet n))"

text \<open>The entries of the snapshot in the order in which Go happens to visit the map: the names \<open>order\<close>.\<close>

definition Isolator_TeardownAll ::
  "'k net_kernel \<Rightarrow> string list \<Rightarrow> NetworkIsolator \<Rightarrow> 'k net_state \<Rightarrow> NetworkIsolator \<times> 'k net_state" where
  "Isolator_TeardownAll nk order ni n =
     (ni\<lparr>ni_netns := Map.empty\<rparr>,
      fold (remove_net nk) (List.map_filter (ni_netns ni) order) n)"

definition Isolator_NsName :: "string \<Rightarrow> NetworkIsolator \<Rightarrow> string" where
  "Isolator_NsName c ni = (case ni_netns ni c of None \<Rightarrow> [] | Some inet \<Rightarrow> in_nsName inet)"

section \<open>What leaves a container\<close>

text \<open>
  iptables as documented: the rules of a chain are tried in order, the first that matches
  decides, and a chain without a matching rule has the policy ACCEPT.  A packet of the chain
  OUTPUT has an interface, a destination, a protocol, a destination port and a connection state.
\<close>

record packet =
  pk_out :: string
  pk_dst :: string
  pk_proto :: string
  pk_dport :: string
  pk_state :: string

fun rule_target :: "string list \<Rightarrow> packet \<Rightarrow> string option" where
  "rule_target (opt # v # rest) p =
     (if opt = ''-j'' then Some v
      else if (opt = ''-o'' \<and> pk_out p \<noteq> v) \<or> (opt = ''-d'' \<and> pk_dst p \<noteq> v) \<or> (opt = ''-p'' \<and> pk_proto p \<noteq> v) \<or>
        (opt = ''--dport'' \<and> pk_dport p \<noteq> v) \<or> (opt = ''--state'' \<and> pk_state p \<notin> set (split_on (CHR '','') v)) then None
      else rule_target rest p)"
| "rule_target _ p = None"

fun chain_verdict :: "string list list \<Rightarrow> packet \<Rightarrow> string" where
  "chain_verdict [] p = ''ACCEPT''"
| "chain_verdict (rule # rules) p = (case rule_target rule p of None \<Rightarrow> chain_verdict rules p | Some t \<Rightarrow> t)"

text \<open>The rules that a list of operations appends to the chain.\<close>

definition installed_rules :: "net_op list \<Rightarrow> string list list" where
  "installed_rules ops = List.map_filter (\<lambda>op. case op of Iptables r \<Rightarrow> Some r | _ \<Rightarrow> None) ops"

lemma installed_rules_simps [simp]:
  "installed_rules [] = []" "installed_rules (xs @ ys) = installed_rules xs @ installed_rules ys"
  "installed_rules (op # ops) = (case op of Iptables r \<Rightarrow> [r] | _ \<Rightarrow> []) @ installed_rules ops"
  by (simp_all add: installed_rules_def List.map_filter_def split: net_op.split)

lemma net_do_log: "net_do nk op n = (e, n') \<Longrightarrow> nw_log n' = nw_log n @ [op]"
  by (auto simp: net_do_def split: prod.splits)

lemma net_do_log_snd [simp]: "nw_log (snd (net_do nk op n)) = nw_log n @ [op]"
  by (simp add: net_do_def split: prod.splits)

lemma net_seq_done: "net_seq nk ops n = (None, n') \<Longrightarrow> nw_log n' = nw_log n @ map snd ops"
  by (induction nk ops n rule: net_seq.induct) (auto split: prod.splits option.splits dest: net_do_log)

lemma rules_of_map [simp]: "installed_rules (map snd (map (\<lambda>r. (w, Iptables r)) rs)) = rs"
  by (induction rs) simp_all

lemma configure_inside_rules:
  assumes "configure_inside nk vc ip gw ones addr n = (None, n')"
  shows "\<exists>host port ops. split_host_port addr = Inr (host, port) \<and> nw_log n' = nw_log n @ ops \<and>
    installed_rules ops = iptablesRules host port gw"
proof -
  obtain n2 host port where n2: "net_seq nk (ns_interface_ops vc ip gw ones) n = (None, n2)"
    and hp: "split_host_port addr = Inr (host, port)"
    and n3: "net_seq nk (map (\<lambda>rule. (''iptables failed'', Iptables rule)) (iptablesRules host port gw)) n2 = (None, n')"
    using assms unfolding configure_inside_def by (auto split: prod.splits option.splits sum.splits)
  have "nw_log n' = nw_log n @ map snd (ns_interface_ops vc ip gw ones) @
      map snd (map (\<lambda>rule. (''iptables failed'', Iptables rule)) (iptablesRules host port gw))"
    using net_seq_done [OF n2] net_seq_done [OF n3] by (simp del: map_map)
  moreover have "installed_rules (map snd (ns_interface_ops vc ip gw ones)) = []" by (simp add: ns_interface_ops_def)
  ultimately show ?thesis using hp by (metis append_Nil installed_rules_simps(2) rules_of_map)
qed

lemma configured_rules:
  assumes "configureContainerNs nk ns vc ip gw ones addr n = (None, n')"
  shows "\<exists>host port mid. split_host_port addr = Inr (host, port) \<and>
    nw_log n' = nw_log n @ [NsGetCurrent, NsGetFromName ns, NsSet ns] @ mid @ [NsSetOrig] \<and>
    installed_rules mid = iptablesRules host port gw"
proof -
  obtain n1 n2 where n1: "net_seq nk [(''failed to get current netns'', NsGetCurrent), (''failed to get target netns'', NsGetFromName ns),
      (''failed to switch to netns'', NsSet ns)] n = (None, n1)"
    and n2: "configure_inside nk vc ip gw ones addr n1 = (None, n2)" and n': "n' = snd (net_do nk NsSetOrig n2)"
    using assms unfolding configureContainerNs_def by (auto split: prod.splits option.splits)
  obtain host port ops where i: "split_host_port addr = Inr (host, port)" "nw_log n2 = nw_log n1 @ ops"
    "installed_rules ops = iptablesRules host port gw"
    using configure_inside_rules [OF n2] by blast
  then have "nw_log n' = nw_log n @ [NsGetCurrent, NsGetFromName ns, NsSet ns] @ ops @ [NsSetOrig]"
    using net_seq_done [OF n1] by (simp add: n')
  with i show ?thesis by blast
qed

text \<open>The verdicts of the isolator's chain.\<close>

lemma isolator_chain:
  "chain_verdict (iptablesRules host port gw) p =
     (if pk_out p = ''lo'' \<or> (pk_dst p = host \<and> pk_proto p = ''tcp'' \<and> pk_dport p = port) \<or>
         pk_state p \<in> {''ESTABLISHED'', ''RELATED''} \<or>
         (pk_dst p = ip_string gw \<and> pk_proto p \<in> {''udp'', ''tcp''} \<and> pk_dport p = ''53'')
      then ''ACCEPT'' else ''DROP'')"
  by (auto simp: iptablesRules_def)

lemma on_net_error_NoneD: "on_net_error undo cont r = (None, n') \<Longrightarrow> \<exists>n. r = (None, n) \<and> cont n = (None, n')"
  by (auto simp: on_net_error_def split: prod.splits option.splits)

lemma net_wrap_NoneD: "net_wrap w r = (None, n) \<Longrightarrow> r = (None, n)"
  by (cases r) (auto simp: net_wrap_def)

text \<open>The steps of a successful setup before the namespace is configured install no rule.\<close>

definition adds_no_rules :: "'k net_state \<Rightarrow> 'k net_state \<Rightarrow> bool" where
  "adds_no_rules n n' \<longleftrightarrow> (\<exists>ops. nw_log n' = nw_log n @ ops \<and> installed_rules ops = [])"

lemma adds_no_rules_trans: "adds_no_rules a b \<Longrightarrow> adds_no_rules b c \<Longrightarrow> adds_no_rules a c"
  unfolding adds_no_rules_def by (metis append.assoc append_Nil installed_rules_simps(2))

lemma net_seq_adds_no_rules:
  assumes "net_seq nk xs n = (None, n')" and "list_all (\<lambda>x. installed_rules [snd x] = []) xs"
  shows "adds_no_rules n n'"
proof -
  have "installed_rules (map snd xs) = []" using assms(2) by (induction xs) auto
  then show ?thesis using net_seq_done [OF assms(1)] unfolding adds_no_rules_def by blast
qed

lemma net_do_adds_no_rules: "net_do nk op n = (e, n') \<Longrightarrow> installed_rules [op] = [] \<Longrightarrow> adds_no_rules n n'"
  using net_do_log unfolding adds_no_rules_def by blast

lemma ensureBridge_rules:
  assumes "ensureBridge nk cfg gw ones n = (None, n')"
  shows "adds_no_rules n n'"
proof -
  define r where "r = (case net_do nk (LinkByName (nsec_Bridge cfg)) n of
      (None, n1) \<Rightarrow> (None, n1)
    | (Some e, n1) \<Rightarrow> net_seq nk [(''failed to create bridge'', LinkAddBridge (nsec_Bridge cfg) (nsec_MTU cfg))] n1)"
  obtain n2 where n2: "r = (None, n2)"
    using assms unfolding ensureBridge_def Let_def r_def [symmetric] by (auto split: prod.splits option.splits)
  obtain e n1 where l: "net_do nk (LinkByName (nsec_Bridge cfg)) n = (e, n1)" by fastforce
  have "adds_no_rules n n1" using l by (rule net_do_adds_no_rules) simp
  moreover have "adds_no_rules n1 n2"
  proof (cases e)
    case None
    with n2 l show ?thesis by (simp add: r_def adds_no_rules_def)
  next
    case (Some x)
    with n2 l show ?thesis unfolding r_def by (intro net_seq_adds_no_rules) (auto simp del: net_seq.simps)
  qed
  moreover have "adds_no_rules n2 n'"
    using assms unfolding ensureBridge_def Let_def r_def [symmetric] n2
    by (intro net_seq_adds_no_rules) (auto simp del: net_seq.simps)
  ultimately show ?thesis using adds_no_rules_trans by blast
qed

lemma Setup_links_rules:
  assumes "Setup_links nk cfg c ip gw ones addr n = (None, n')"
  shows "\<exists>host port pre mid. split_host_port addr = Inr (host, port) \<and>
    nw_log n' = nw_log n @ pre @ [NsSet (ns_name c)] @ mid @ [NsSetOrig] \<and>
    installed_rules pre = [] \<and> installed_rules mid = iptablesRules host port gw"
proof -
  obtain n5 where pre: "adds_no_rules n n5"
    and conf: "configureContainerNs nk (ns_name c) (veth_cont c) ip gw ones addr n5 = (None, n')"
    using assms unfolding Setup_links_def Let_def
    by (auto dest!: on_net_error_NoneD net_wrap_NoneD ensureBridge_rules net_seq_adds_no_rules
        simp del: net_seq.simps) (meson adds_no_rules_trans)
  obtain ops where ops: "nw_log n5 = nw_log n @ ops" "installed_rules ops = []"
    using pre unfolding adds_no_rules_def by blast
  obtain host port mid where m: "split_host_port addr = Inr (host, port)"
      "nw_log n' = nw_log n5 @ [NsGetCurrent, NsGetFromName (ns_name c), NsSet (ns_name c)] @ mid @ [NsSetOrig]"
      "installed_rules mid = iptablesRules host port gw"
    using configured_rules [OF conf] by blast
  show ?thesis
    by (intro exI [of _ host] exI [of _ port] exI [of _ "ops @ [NsGetCurrent, NsGetFromName (ns_name c)]"] exI [of _ mid])
      (simp add: ops m)
qed


section \<open>Named namespaces\<close>

text \<open>
  What the documentation of the package \<open>netns\<close> promises, with \<open>named\<close> for the names of the network
  namespaces that exist in a state of the kernel: \<open>NewNamed\<close> makes a namespace whose name was
  not in use or fails and makes none, after \<open>DeleteNamed\<close> there is none of the name, and the
  other operations neither make nor remove a named namespace.
\<close>

definition ns_neutral :: "net_op \<Rightarrow> bool" where
  "ns_neutral op = (case op of NsNewNamed s \<Rightarrow> False | NsDeleteNamed s \<Rightarrow> False | _ \<Rightarrow> True)"

definition ns_kernel :: "'k net_kernel \<Rightarrow> ('k \<Rightarrow> string set) \<Rightarrow> bool" where
  "ns_kernel nk named \<longleftrightarrow>
     (\<forall>op k e k'. nk_call nk op k = (e, k') \<longrightarrow>
       (case op of
          NsNewNamed s \<Rightarrow> if e = None then s \<notin> named k \<and> named k' = insert s (named k) else named k' = named k
        | NsDeleteNamed s \<Rightarrow> named k' = named k - {s}
        | _ \<Rightarrow> named k' = named k))"

abbreviation net_names :: "('k \<Rightarrow> string set) \<Rightarrow> 'k net_state \<Rightarrow> string set" where
  "net_names named n \<equiv> named (nw_kernel n)"

lemma ns_neutral_simps [simp]:
  "\<not> ns_neutral (NsNewNamed s)" "\<not> ns_neutral (NsDeleteNamed s)" "ns_neutral (NsGetFromName s)" "ns_neutral NsGetCurrent"
  "ns_neutral (NsSet s)" "ns_neutral NsSetOrig" "ns_neutral (LinkAddVeth a b m)" "ns_neutral (LinkAddBridge a m)"
  "ns_neutral (LinkByName a)" "ns_neutral (LinkDel a)" "ns_neutral (LinkSetNs a b)" "ns_neutral (LinkSetMaster a b)"
  "ns_neutral (LinkSetUp a)" "ns_neutral (AddrAdd a ip k)" "ns_neutral (RouteAddDefault ip)" "ns_neutral (Iptables r)"
  by (simp_all add: ns_neutral_def)

lemma ns_name_inj: "ns_name c = ns_name d \<longleftrightarrow> c = d"
  by (simp add: ns_name_def)

lemma ns_kernelD: "ns_kernel nk named \<Longrightarrow> nk_call nk op k = (e, k') \<Longrightarrow>
    (case op of
       NsNewNamed s \<Rightarrow> if e = None then s \<notin> named k \<and> named k' = insert s (named k) else named k' = named k
     | NsDeleteNamed s \<Rightarrow> named k' = named k - {s}
     | _ \<Rightarrow> named k' = named k)"
  unfolding ns_kernel_def by blast

lemma ns_new:
  assumes "ns_kernel nk named" and "net_do nk (NsNewNamed s) n = (e, n')"
  shows "if e = None then s \<notin> net_names named n \<and> net_names named n' = insert s (net_names named n) else net_names named n' = net_names named n"
proof -
  obtain k where "nk_call nk (NsNewNamed s) (nw_kernel n) = (e, k)" "nw_kernel n' = k"
    using assms(2) by (auto simp: net_do_def split: prod.splits)
  with ns_kernelD [OF assms(1)] show ?thesis by fastforce
qed

lemma ns_delete:
  assumes "ns_kernel nk named"
  shows "net_names named (cleanupNs nk s n) = net_names named n - {s}"
proof -
  obtain e k where k: "nk_call nk (NsDeleteNamed s) (nw_kernel n) = (e, k)" by fastforce
  from ns_kernelD [OF assms this] show ?thesis by (simp add: net_do_def cleanupNs_def k)
qed

lemma ns_other: "ns_kernel nk named \<Longrightarrow> ns_neutral op \<Longrightarrow> net_names named (snd (net_do nk op n)) = net_names named n"
  by (cases "nk_call nk op (nw_kernel n)") (auto simp: net_do_def ns_neutral_def dest!: ns_kernelD split: net_op.splits)

lemma names_then:
  assumes "net_names named (snd r) = N" and "\<And>m. net_names named m = N \<Longrightarrow> net_names named (snd (g m)) = N"
    and "\<And>e m. net_names named m = N \<Longrightarrow> net_names named (snd (f e m)) = N"
  shows "net_names named (snd (case r of (Some e, m) \<Rightarrow> f e m | (None, m) \<Rightarrow> g m)) = N"
  using assms by (cases r) (simp split: option.split)

lemma ns_seq: "ns_kernel nk named \<Longrightarrow> list_all (\<lambda>x. ns_neutral (snd x)) ops \<Longrightarrow> net_names named (snd (net_seq nk ops n)) = net_names named n"
proof (induction ops arbitrary: n)
  case (Cons x ops)
  obtain what op where x: "x = (what, op)" by fastforce
  show ?case unfolding x net_seq.simps by (rule names_then) (use Cons x in \<open>simp_all add: ns_other\<close>)
qed simp

lemma ns_bridge:
  assumes "ns_kernel nk named"
  shows "net_names named (snd (ensureBridge nk cfg gw ones n)) = net_names named n"
  unfolding ensureBridge_def Let_def
  apply (rule names_then)
    apply (rule names_then)
      apply (simp add: ns_other [OF assms])
     apply simp
    apply (simp add: ns_seq [OF assms] del: net_seq.simps)
   apply (simp add: ns_seq [OF assms] del: net_seq.simps)
  apply simp
  done

lemma ns_inside:
  assumes "ns_kernel nk named"
  shows "net_names named (snd (configure_inside nk vc ip gw ones addr n)) = net_names named n"
  unfolding configure_inside_def
  apply (rule names_then)
    apply (simp add: ns_seq [OF assms] ns_interface_ops_def del: net_seq.simps)
   apply (simp add: ns_seq [OF assms] list_all_iff del: net_seq.simps split: sum.split)
  apply simp
  done

lemma ns_configure:
  assumes "ns_kernel nk named"
  shows "net_names named (snd (configureContainerNs nk ns vc ip gw ones addr n)) = net_names named n"
proof -
  have restored: "net_names named (snd (case configure_inside nk vc ip gw ones addr m of (e, m') \<Rightarrow> (e, snd (net_do nk NsSetOrig m')))) = net_names named m" for m
    using ns_inside [OF assms, of vc ip gw ones addr m]
    by (cases "configure_inside nk vc ip gw ones addr m") (simp add: ns_other [OF assms])
  show ?thesis unfolding configureContainerNs_def
    by (rule names_then) (simp_all add: ns_seq [OF assms] restored del: net_seq.simps)
qed

text \<open>A step of the setup that keeps the names, with a clean-up after its error.\<close>

lemma ns_step:
  assumes "net_names named (snd r) = M" and "\<And>m. net_names named m = M \<Longrightarrow> net_names named (undo m) = N"
    and "\<And>m. net_names named m = M \<Longrightarrow> net_names named (snd (cont m)) = (if fst (cont m) = None then M else N)"
  shows "net_names named (snd (on_net_error undo cont r)) = (if fst (on_net_error undo cont r) = None then M else N)"
  using assms by (cases r) (auto simp: on_net_error_def split: option.splits)

lemma on_net_error_ok: "on_net_error undo cont (None, n) = cont n"
  by (simp add: on_net_error_def)

lemma net_wrap_snd [simp]: "snd (net_wrap w r) = snd r"
  by (cases r) (simp add: net_wrap_def)

text \<open>A setup that fails leaves no namespace behind, not even one that it made.\<close>

lemma Setup_links_names:
  assumes k: "ns_kernel nk named" and s: "Setup_links nk cfg c ip gw ones addr n = (e, n')"
  shows "if e = None then ns_name c \<notin> net_names named n \<and> net_names named n' = insert (ns_name c) (net_names named n)
    else net_names named n' = net_names named n"
proof -
  let ?N = "net_names named n" and ?M = "insert (ns_name c) (net_names named n)"
  note seq = ns_seq [OF k] and del = ns_delete [OF k] and one = ns_other [OF k]
  obtain e1 n1 where n1: "net_do nk (NsNewNamed (ns_name c)) n = (e1, n1)" by fastforce
  note new = ns_new [OF k n1]
  show ?thesis
  proof (cases e1)
    case (Some x)
    then have "\<exists>y. e = Some y" "n' = n1" using s n1 by (auto simp: Setup_links_def on_net_error_def)
    then show ?thesis using new Some by auto
  next
    case None
    then have free: "ns_name c \<notin> ?N" "net_names named n1 = ?M" using new by simp_all
    have restored: "net_names named (cleanupNs nk (ns_name c) m) = ?N"
        "net_names named (cleanupNs nk (ns_name c) (snd (net_do nk (LinkDel (veth_host c)) m))) = ?N"
      if "net_names named m = ?M" for m
      using that free(1) by (simp_all add: del one)
    have first: "net_seq nk [(w, NsNewNamed (ns_name c))] n = (None, n1)" for w using n1 None by simp
    have rest: "net_names named (snd (Setup_links nk cfg c ip gw ones addr n)) = (if fst (Setup_links nk cfg c ip gw ones addr n) = None then ?M else ?N)"
      apply (simp only: Setup_links_def Let_def first on_net_error_ok)
      apply (rule ns_step, simp add: free seq ns_bridge [OF k] ns_configure [OF k] del: net_seq.simps, erule restored)+
      apply simp
      done
    have "fst (Setup_links nk cfg c ip gw ones addr n) = e" "snd (Setup_links nk cfg c ip gw ones addr n) = n'" using s by simp_all
    with rest free show ?thesis by auto
  qed
qed

text \<open>A kernel whose state is the set of the named namespaces, and the default configuration.\<close>

definition calm_kernel :: "string set net_kernel" where
  "calm_kernel = \<lparr>nk_call = (\<lambda>op k. case op of
       NsNewNamed s \<Rightarrow> if s \<in> k then (Some ''file exists'', k) else (None, insert s k)
     | NsDeleteNamed s \<Rightarrow> if s \<in> k then (None, k - {s}) else (Some ''no such file or directory'', k)
     | _ \<Rightarrow> (None, k)), nk_addrs = (\<lambda>l k. [])\<rparr>"

lemma calm_kernel_ok: "ns_kernel calm_kernel (\<lambda>k. k)"
  by (auto simp: ns_kernel_def calm_kernel_def split: net_op.splits if_splits)

definition default_network :: NetworkSection where
  "default_network = \<lparr>nsec_Bridge = ''misbah0'', nsec_Subnet = ''10.88.0.0/24'', nsec_MTU = 1500\<rparr>"

lemma default_subnet: "ParseCIDR v6 (nsec_Subnet default_network) = Some ([10, 88, 0, 0], 24)"
proof -
  have "parse_ip4 ''10.88.0.0'' = Some [10, 88, 0, 0]" "map2 (AND) [10, 88, 0, 0] (CIDRMask32 24) = [10, 88, 0, 0]"
    "digits_val ''24'' = 24" "list_all is_digit ''24''" "split_n2 (CHR ''/'') ''10.88.0.0/24'' = [''10.88.0.0'', ''24'']"
    by code_simp+
  then show ?thesis by (simp add: ParseCIDR_def default_network_def)
qed

lemma calm_net_do [simp]: "ns_neutral op \<Longrightarrow> net_do calm_kernel op n = (None, \<lparr>nw_log = nw_log n @ [op], nw_kernel = nw_kernel n\<rparr>)"
  by (cases op) (simp_all add: net_do_def calm_kernel_def)

lemma calm_net_seq: "list_all (\<lambda>x. ns_neutral (snd x)) ops \<Longrightarrow>
    net_seq calm_kernel ops n = (None, \<lparr>nw_log = nw_log n @ map snd ops, nw_kernel = nw_kernel n\<rparr>)"
  by (induction ops arbitrary: n) auto

lemma calm_setup:
  assumes "split_host_port addr = Inr (host, port)" and "ns_name c \<notin> nw_kernel n"
  shows "\<exists>n'. Setup_links calm_kernel cfg c ip gw ones addr n = (None, n')"
proof -
  have "net_seq calm_kernel [(w, NsNewNamed (ns_name c))] n = (None, \<lparr>nw_log = nw_log n @ [NsNewNamed (ns_name c)], nw_kernel = insert (ns_name c) (nw_kernel n)\<rparr>)" for w
    using assms(2) by (simp add: net_do_def calm_kernel_def)
  then show ?thesis
    unfolding Setup_links_def Let_def on_net_error_def net_wrap_def ensureBridge_def configureContainerNs_def configure_inside_def ns_interface_ops_def
    by (simp add: calm_net_seq assms list_all_iff del: net_seq.simps)
qed

text \<open>A first setup with the default configuration.\<close>

lemma calm_first_setup:
  assumes "split_host_port addr = Inr (host, port)" and "ns_name c \<notin> nw_kernel n"
  shows "\<exists>v n'. Isolator_Setup calm_kernel (\<lambda>_. None) c addr (NewNetworkIsolator default_network) n =
    (Inr (ns_name c), \<lparr>ni_cfg = default_network, ni_nextIP = 2, ni_netns = [c \<mapsto> v]\<rparr>, n')"
  using calm_setup [OF assms, of default_network "[10, 88, 0, 2]" "[10, 88, 0, 1]" 24]
  by (auto simp: Isolator_Setup_def NewNetworkIsolator_def default_subnet Let_def)


section \<open>The namespaces of the isolator\<close>

text \<open>
  The named namespaces are those, \<open>B\<close>, that were there before, and one for every container that the
  isolator knows, each recorded under its name.
\<close>

definition nets_match :: "('k \<Rightarrow> string set) \<Rightarrow> string set \<Rightarrow> NetworkIsolator \<Rightarrow> 'k net_state \<Rightarrow> bool" where
  "nets_match named B ni n \<longleftrightarrow>
     net_names named n = B \<union> ns_name ` dom (ni_netns ni) \<and> B \<inter> ns_name ` dom (ni_netns ni) = {} \<and>
     (\<forall>c v. ni_netns ni c = Some v \<longrightarrow> in_nsName v = ns_name c)"

lemma Setup_names:
  assumes "ns_kernel nk named" and "Isolator_Setup nk v6 c a ni n = (r, ni', n')"
  shows "case r of
      Inl e \<Rightarrow> ni_netns ni' = ni_netns ni \<and> net_names named n' = net_names named n
    | Inr ns \<Rightarrow> ns_name c \<notin> net_names named n \<and> net_names named n' = insert (ns_name c) (net_names named n) \<and>
        in_nsName (the (ni_netns ni' c)) = ns_name c \<and> ni_netns ni' = (ni_netns ni)(c \<mapsto> the (ni_netns ni' c))"
proof -
  have "\<And>v. ns = ns_name c \<Longrightarrow> in_nsName \<lparr>in_nsName = ns, in_vethHost = a, in_vethCont = b, in_ip = i\<rparr> = ns_name c" for ns a b i by simp
  then show ?thesis using assms(2)
    by (auto simp: Isolator_Setup_def Let_def split: if_splits option.splits prod.splits dest!: Setup_links_names [OF assms(1)])
qed

lemma remove_names:
  assumes "ns_kernel nk named"
  shows "net_names named (remove_net nk inet n) = net_names named n - {in_nsName inet}"
proof -
  have "net_names named (snd (net_do nk (LinkByName l) n)) = net_names named n"
    "net_names named (snd (net_do nk (LinkDel l) m)) = net_names named m" for l m
    by (rule ns_other [OF assms], simp)+
  then show ?thesis
    by (auto simp: remove_net_def ns_delete [OF assms] split: prod.splits option.splits) (metis snd_conv)+
qed

lemma Setup_match:
  assumes "ns_kernel nk named" and "nets_match named B ni n" and "Isolator_Setup nk v6 c a ni n = (r, ni', n')"
  shows "nets_match named B ni' n'"
proof (cases r)
  case (Inl e)
  with Setup_names [OF assms(1,3)] assms(2) show ?thesis by (simp add: nets_match_def)
next
  case (Inr ns)
  obtain v where "in_nsName v = ns_name c" "ni_netns ni' = (ni_netns ni)(c \<mapsto> v)" "ns_name c \<notin> net_names named n"
      "net_names named n' = insert (ns_name c) (net_names named n)"
    using Setup_names [OF assms(1,3)] Inr by auto
  with assms(2) show ?thesis unfolding nets_match_def by (auto simp: ns_name_inj)
qed

lemma Teardown_match:
  assumes "ns_kernel nk named" and "nets_match named B ni n" and "Isolator_Teardown nk c ni n = (r, ni', n')"
  shows "nets_match named B ni' n'"
proof (cases "ni_netns ni c")
  case None
  with assms show ?thesis by (simp add: Isolator_Teardown_def)
next
  case (Some v)
  have v: "in_nsName v = ns_name c" using assms(2) Some by (simp add: nets_match_def)
  have d: "ns_name ` (dom (ni_netns ni) - {c}) = ns_name ` dom (ni_netns ni) - {ns_name c}" by (auto simp: ns_name_inj)
  have "ns_name c \<in> ns_name ` dom (ni_netns ni)" using Some by blast
  then have B: "ns_name c \<notin> B" using assms(2) unfolding nets_match_def by blast
  have n': "ni_netns ni' = (ni_netns ni)(c := None)" "net_names named n' = net_names named n - {ns_name c}"
    using assms(3) Some v by (auto simp: Isolator_Teardown_def remove_names [OF assms(1)])
  show ?thesis using assms(2) B unfolding nets_match_def n' dom_fun_upd by (auto simp: d)
qed

text \<open>The visit of a map: each entry once, in some order.\<close>

definition visits :: "string list \<Rightarrow> (string \<rightharpoonup> 'v) \<Rightarrow> bool" where
  "visits order m \<longleftrightarrow> distinct order \<and> set order = dom m"

lemma remove_all_names:
  assumes "ns_kernel nk named"
  shows "net_names named (fold (remove_net nk) inets n) = net_names named n - in_nsName ` set inets"
  by (induction inets arbitrary: n) (auto simp: remove_names [OF assms])

lemma TeardownAll_match:
  assumes "ns_kernel nk named" and "nets_match named B ni n" and "visits order (ni_netns ni)"
    and "Isolator_TeardownAll nk order ni n = (ni', n')"
  shows "nets_match named B ni' n' \<and> net_names named n' = B"
proof -
  have "in_nsName ` set (List.map_filter (ni_netns ni) order) = ns_name ` dom (ni_netns ni)"
    using assms(2,3) by (force simp: nets_match_def visits_def map_filter_def dom_def image_iff)
  then have "net_names named n' = B" "ni_netns ni' = Map.empty"
    using assms(2,4) by (auto simp: Isolator_TeardownAll_def remove_all_names [OF assms(1)] nets_match_def)
  then show ?thesis by (simp add: nets_match_def)
qed

section \<open>Addresses\<close>

text \<open>
  The states of an isolator after a number of setups that reached the allocation of an
  address, with any kernel and in any order with teardowns.
\<close>

inductive isolator_reaches :: "'k net_kernel \<Rightarrow> ip_addr \<Rightarrow> nat \<Rightarrow> nat \<Rightarrow> NetworkIsolator \<Rightarrow> bool" for nk base ones where
  isolator_new: "ParseCIDR v6 (nsec_Subnet cfg) = Some (base, ones) \<Longrightarrow> isolator_reaches nk base ones 0 (NewNetworkIsolator cfg)"
| isolator_setup: "isolator_reaches nk base ones k ni \<Longrightarrow> ni_netns ni c = None \<Longrightarrow> ParseCIDR v6 (nsec_Subnet (ni_cfg ni)) = Some (base, ones) \<Longrightarrow>
    Isolator_Setup nk v6 c addr ni n = (r, ni', n') \<Longrightarrow> isolator_reaches nk base ones (Suc k) ni'"
| isolator_teardown: "isolator_reaches nk base ones k ni \<Longrightarrow> Isolator_Teardown nk c ni n = (r, ni', n') \<Longrightarrow> isolator_reaches nk base ones k ni'"
| isolator_teardown_all: "isolator_reaches nk base ones k ni \<Longrightarrow> Isolator_TeardownAll nk order ni n = (ni', n') \<Longrightarrow> isolator_reaches nk base ones k ni'"

lemma Setup_allocates:
  assumes "ni_netns ni c = None" and "ParseCIDR v6 (nsec_Subnet (ni_cfg ni)) = Some (base, ones)"
    and "Isolator_Setup nk v6 c addr ni n = (r, ni', n')"
  shows "ni_nextIP ni' = ni_nextIP ni + 1 \<and> ni_cfg ni' = ni_cfg ni \<and>
    (ni_netns ni' = ni_netns ni \<or>
     (\<exists>v. in_ip v = base[3 := ucast (ni_nextIP ni + 1)] \<and> ni_netns ni' = (ni_netns ni)(c \<mapsto> v)))"
  using assms by (auto simp: Isolator_Setup_def Let_def split: prod.splits option.splits intro!: exI)

lemma of_nat_byte_inj:
  assumes "i < 256" and "j < 256"
  shows "(of_nat i :: 8 word) = of_nat j \<longleftrightarrow> i = j"
proof -
  have "unat (of_nat n :: 8 word) = n" if "n < 256" for n using that by (simp add: unat_of_nat)
  then show ?thesis using assms by metis
qed

lemma isolator_addresses_inv:
  assumes "isolator_reaches nk base ones k ni" and "length base = 4" and "k \<le> 254"
  shows "unat (ni_nextIP ni) = k + 1 \<and>
    (\<forall>c v. ni_netns ni c = Some v \<longrightarrow> (\<exists>j. 2 \<le> j \<and> j \<le> k + 1 \<and> in_ip v = base[3 := of_nat j])) \<and>
    (\<forall>c d v w. ni_netns ni c = Some v \<longrightarrow> ni_netns ni d = Some w \<longrightarrow> c \<noteq> d \<longrightarrow> in_ip v \<noteq> in_ip w)"
  using assms
proof induction
  case (isolator_setup k ni c v6 addr n r ni' n')
  have IH: "unat (ni_nextIP ni) = k + 1"
    "\<And>c v. ni_netns ni c = Some v \<Longrightarrow> \<exists>j. 2 \<le> j \<and> j \<le> k + 1 \<and> in_ip v = base[3 := of_nat j]"
    "\<And>c d v w. ni_netns ni c = Some v \<Longrightarrow> ni_netns ni d = Some w \<Longrightarrow> c \<noteq> d \<Longrightarrow> in_ip v \<noteq> in_ip w"
    using isolator_setup.IH isolator_setup.prems by auto
  have "ni_nextIP ni = of_nat (k + 1)" using IH(1) by (metis of_nat_unat ucast_id)
  then have n1: "ni_nextIP ni + 1 = of_nat (k + 2)" by simp
  have k: "k \<le> 253" using isolator_setup.prems by simp
  have u: "unat (ni_nextIP ni + 1) = k + 2" unfolding n1 unat_of_nat using k by simp
  have byte: "ucast (ni_nextIP ni + 1) = (of_nat (k + 2) :: 8 word)"
    unfolding n1 unsigned_of_nat using k by (simp add: take_bit_nat_eq_self del: of_nat_add)
  have fresh: "base[3 := of_nat j] \<noteq> base[3 := (of_nat (k + 2) :: 8 word)]" if "j \<le> k + 1" for j
  proof
    assume "base[3 := of_nat j] = base[3 := (of_nat (k + 2) :: 8 word)]"
    then have "base[3 := of_nat j] ! 3 = base[3 := (of_nat (k + 2) :: 8 word)] ! 3" by simp
    then show False using isolator_setup.prems(1) that k of_nat_byte_inj [of j "k + 2"] by simp
  qed
  from Setup_allocates [OF isolator_setup.hyps(2-4)] byte consider
      "ni_nextIP ni' = ni_nextIP ni + 1" "ni_netns ni' = ni_netns ni"
    | v where "ni_nextIP ni' = ni_nextIP ni + 1" "in_ip v = base[3 := of_nat (k + 2)]" "ni_netns ni' = (ni_netns ni)(c \<mapsto> v)"
    by metis
  then show ?case
  proof cases
    case 1
    then show ?thesis using IH u by (fastforce intro: le_SucI)
  next
    case 2
    have old: "in_ip w \<noteq> in_ip v" if "ni_netns ni d = Some w" for d w
      using IH(2) [OF that] fresh 2(2) by metis
    have "\<exists>j. 2 \<le> j \<and> j \<le> Suc k + 1 \<and> in_ip w = base[3 := of_nat j]" if "ni_netns ni' d = Some w" for d w
    proof (cases "d = c")
      case True
      with that 2 show ?thesis by (intro exI [of _ "k + 2"]) simp
    next
      case False
      with that 2(3) IH(2) [of d w] show ?thesis by (auto intro: le_SucI)
    qed
    moreover have "in_ip x \<noteq> in_ip w" if "ni_netns ni' d = Some x" "ni_netns ni' e = Some w" "d \<noteq> e" for d e x w
      using that 2(3) IH(3) [of d x e w] old [of d x] old [of e w] by (auto split: if_splits)
    ultimately show ?thesis using 2(1) u by auto
  qed
qed (auto simp: NewNetworkIsolator_def Isolator_Teardown_def Isolator_TeardownAll_def split: option.splits if_splits)

text \<open>
  C35: as long as the daemon has allocated at most 254 addresses since it started, no two
  containers have the same address and none has the gateway's, however setups, failed setups
  and teardowns alternate.
\<close>

theorem isolator_addresses:
  assumes "isolator_reaches nk base ones k ni" and "length base = 4" and "k \<le> 254"
    and "ni_netns ni c = Some v"
  shows "in_ip v \<noteq> base[3 := 1] \<and> (\<forall>d w. ni_netns ni d = Some w \<longrightarrow> c \<noteq> d \<longrightarrow> in_ip v \<noteq> in_ip w)"
proof -
  note inv = isolator_addresses_inv [OF assms(1-3)]
  obtain j where j: "2 \<le> j" "j \<le> k + 1" "in_ip v = base[3 := of_nat j]" using inv assms(4) by blast
  have "in_ip v ! 3 \<noteq> 1" using j assms(2,3) of_nat_byte_inj [of j 1] by simp
  then have "in_ip v \<noteq> base[3 := 1]" using assms(2) by auto
  with inv assms(4) show ?thesis by blast
qed

theorem isolator_addresses_witness:
  "\<exists>(ni :: NetworkIsolator) (v :: isolatedNet). ni_netns ni ''demo'' = Some v \<and> in_ip v \<noteq> [10, 88, 0, 1]"
proof -
  let ?ni = "NewNetworkIsolator default_network"
  have hp: "split_host_port ''127.0.0.1:40000'' = Inr (''127.0.0.1'', ''40000'')" by code_simp
  obtain ni' n' v where s: "Isolator_Setup calm_kernel (\<lambda>_. None) ''demo'' ''127.0.0.1:40000'' ?ni \<lparr>nw_log = [], nw_kernel = {}\<rparr>
      = (Inr ''misbah-demo'', ni', n')" and v: "ni_netns ni' ''demo'' = Some v"
    using calm_first_setup [OF hp, of "''demo''" "\<lparr>nw_log = [], nw_kernel = {}\<rparr>"] by (auto simp: ns_name_def)
  have "isolator_reaches calm_kernel [10, 88, 0, 0] 24 1 ni'"
    using isolator_setup [OF isolator_new [of "\<lambda>_. None" default_network] _ _ s] default_subnet
    by (simp add: NewNetworkIsolator_def)
  from isolator_addresses [OF this _ _ v] have "in_ip v \<noteq> [10, 88, 0, 1]" by simp
  with v show ?thesis by blast
qed

text \<open>The counter then runs into the network's own address and the gateway's: the address after 256 allocations is .1.\<close>

lemma isolator_gateway_reused:
  "ni_nextIP ni = 256 \<Longrightarrow> base[3 := ucast (ni_nextIP ni + 1)] = (base[3 := 1] :: ip_addr)"
proof -
  have "ucast (256 + 1 :: 32 word) = (1 :: 8 word)" by code_simp
  then show "ni_nextIP ni = 256 \<Longrightarrow> ?thesis" by (simp only:)
qed

text \<open>Names that agree on their first twelve characters share the names of their veth pair.\<close>

lemma veth_names_collide: "take 12 c = take 12 d \<Longrightarrow> veth_host c = veth_host d \<and> veth_cont c = veth_cont d"
  by (simp add: veth_host_def veth_cont_def take_Cons')

end
