(* ===== verification/Config.thy ===== *)
theory Config
  imports Lock_Manager Netns
begin

text \<open>
  Package \<open>config\<close>: default paths and their environment variables, the daemon's and the user's
  configuration files, and the resolution of paths.  The YAML package is a parameter: decoding
  into a struct takes the struct's present value, which is how defaults stay in place.
\<close>

section \<open>Paths and environment variables\<close>

definition EnvConfigDir :: string where "EnvConfigDir = ''MISBAH_CONFIG_DIR''"
definition EnvTempDir :: string where "EnvTempDir = ''MISBAH_TEMP_DIR''"
definition EnvDaemonSocket :: string where "EnvDaemonSocket = ''MISBAH_DAEMON_SOCKET''"
definition EnvCRIEndpoint :: string where "EnvCRIEndpoint = ''MISBAH_CRI_ENDPOINT''"
definition EnvRuntimeHandler :: string where "EnvRuntimeHandler = ''MISBAH_RUNTIME_HANDLER''"
definition EnvProxyPort :: string where "EnvProxyPort = ''MISBAH_PROXY_PORT''"

definition DefaultConfigDir :: string where "DefaultConfigDir = ''.config/misbah''"
definition DefaultTempDir :: string where "DefaultTempDir = ''/tmp/misbah''"
definition DefaultDaemonSocket :: string where "DefaultDaemonSocket = ''/run/misbah/permission.sock''"
definition DefaultCRIEndpoint :: string where "DefaultCRIEndpoint = ''unix:///run/containerd/containerd.sock''"
definition DefaultRuntimeHandler :: string where "DefaultRuntimeHandler = ''kata''"

text \<open>\<open>os.UserHomeDir\<close> on Unix: the variable HOME, an error when it is empty.\<close>

definition user_home_dir :: "host \<Rightarrow> string option" where
  "user_home_dir h = (if h_env h ''HOME'' = [] then None else Some (h_env h ''HOME''))"

text \<open>The pattern of the getters: the variable, unless it is empty.\<close>

definition env_or :: "string \<Rightarrow> string \<Rightarrow> host \<Rightarrow> string" where
  "env_or v d h = (if h_env h v \<noteq> [] then h_env h v else d)"

definition GetConfigDir :: "host \<Rightarrow> string" where
  "GetConfigDir h =
     (if h_env h EnvConfigDir \<noteq> [] then h_env h EnvConfigDir
      else case user_home_dir h of
             None \<Rightarrow> join_path [''/tmp'', DefaultConfigDir]
           | Some homeDir \<Rightarrow> join_path [homeDir, DefaultConfigDir])"

definition GetTempDir :: "host \<Rightarrow> string" where
  "GetTempDir h = env_or EnvTempDir DefaultTempDir h"

definition GetLocksDir :: "host \<Rightarrow> string" where
  "GetLocksDir h = join_path [GetTempDir h, ''.locks'']"

definition GetLockPath :: "string \<Rightarrow> host \<Rightarrow> string" where
  "GetLockPath workspace h = join_path [GetLocksDir h, workspace @ ''.lock'']"

definition GetMountPath :: "string \<Rightarrow> host \<Rightarrow> string" where
  "GetMountPath workspace h = join_path [GetTempDir h, workspace]"

definition GetCRIEndpoint :: "host \<Rightarrow> string" where
  "GetCRIEndpoint h = env_or EnvCRIEndpoint DefaultCRIEndpoint h"

definition GetRuntimeHandler :: "host \<Rightarrow> string" where
  "GetRuntimeHandler h = env_or EnvRuntimeHandler DefaultRuntimeHandler h"

definition GetDaemonSocket :: "host \<Rightarrow> string" where
  "GetDaemonSocket h = env_or EnvDaemonSocket DefaultDaemonSocket h"

definition GetAuditLogPath :: "host \<Rightarrow> string" where
  "GetAuditLogPath h = join_path [GetConfigDir h, ''audit.log'']"

definition GetWhitelistPath :: "host \<Rightarrow> string" where
  "GetWhitelistPath h = join_path [GetConfigDir h, ''whitelist.yaml'']"

text \<open>The variable is ignored when it is no number; \<open>strconv.Atoi\<close> reads 64 bits here.\<close>

definition GetProxyPort :: "host \<Rightarrow> int" where
  "GetProxyPort h =
     (if h_env h EnvProxyPort \<noteq> []
      then (case parse_int64 (h_env h EnvProxyPort) of Some p \<Rightarrow> p | None \<Rightarrow> 8118)
      else 8118)"

text \<open>The lock manager of \<open>runtime/lock.go\<close> is made with these paths.\<close>

definition NewLockManager :: "host \<Rightarrow> LockManager" where
  "NewLockManager h = \<lparr>lm_locksDir = GetLocksDir h\<rparr>"

lemma lock_path_agrees: "getLockPath (NewLockManager h) w = GetLockPath w h"
  by (simp add: getLockPath_def NewLockManager_def GetLockPath_def)

section \<open>The daemon's configuration\<close>

record DaemonSection =
  dm_Socket :: string
  dm_Group :: string
  dm_LogLevel :: string
  dm_NonInteractive :: bool

record KataSection =
  kt_Endpoint :: string
  kt_Handler :: string
  kt_Annotations :: "string \<rightharpoonup> string"

record PermissionsSection =
  ps_Whitelist :: string
  ps_AuditLog :: string

record VsockSection =
  vs_Port :: "32 word"
  vs_BinDir :: string

record DaemonConfig =
  dc_Daemon :: DaemonSection
  dc_Kata :: KataSection
  dc_Permissions :: PermissionsSection
  dc_Network :: NetworkSection
  dc_Vsock :: VsockSection

definition DefaultDaemonConfig :: "host \<Rightarrow> DaemonConfig" where
  "DefaultDaemonConfig h =
     \<lparr>dc_Daemon = \<lparr>dm_Socket = DefaultDaemonSocket, dm_Group = ''misbah'', dm_LogLevel = ''info'', dm_NonInteractive = False\<rparr>,
      dc_Kata = \<lparr>kt_Endpoint = DefaultCRIEndpoint, kt_Handler = DefaultRuntimeHandler,
        kt_Annotations = [''io.katacontainers.config.runtime.internetworking_model'' \<mapsto> ''none'',
                          ''io.katacontainers.config.runtime.disable_new_netns'' \<mapsto> ''true'']\<rparr>,
      dc_Permissions = \<lparr>ps_Whitelist = GetWhitelistPath h, ps_AuditLog = GetAuditLogPath h\<rparr>,
      dc_Network = \<lparr>nsec_Bridge = ''misbah0'', nsec_Subnet = ''10.88.0.0/24'', nsec_MTU = 1500\<rparr>,
      dc_Vsock = \<lparr>vs_Port = 8118, vs_BinDir = ''/usr/local/lib/misbah''\<rparr>\<rparr>"

definition applyDaemonEnvOverrides :: "host \<Rightarrow> DaemonConfig \<Rightarrow> DaemonConfig" where
  "applyDaemonEnvOverrides h cfg =
     cfg\<lparr>dc_Daemon := (dc_Daemon cfg)\<lparr>dm_Socket := env_or EnvDaemonSocket (dm_Socket (dc_Daemon cfg)) h\<rparr>,
         dc_Kata := (dc_Kata cfg)\<lparr>kt_Endpoint := env_or EnvCRIEndpoint (kt_Endpoint (dc_Kata cfg)) h,
                                   kt_Handler := env_or EnvRuntimeHandler (kt_Handler (dc_Kata cfg)) h\<rparr>\<rparr>"

datatype config_error =
    CfRead os_error
  | CfParse go_error
  | CfMkdir os_error
  | CfMarshal go_error
  | CfWrite os_error
  | CfHome
  | CfGetwd go_error

definition LoadDaemonConfig ::
  "(string \<Rightarrow> DaemonConfig \<Rightarrow> go_error + DaemonConfig) \<Rightarrow> string \<Rightarrow> host \<Rightarrow> config_error + DaemonConfig" where
  "LoadDaemonConfig unmarshal path h =
     (let cfg = DefaultDaemonConfig h;
          path' = (if path = [] then ''/etc/misbah/daemon.yaml'' else path)
      in case os_read_file path' h of
           Inl e \<Rightarrow> if is_not_exist e then Inr (applyDaemonEnvOverrides h cfg) else Inl (CfRead e)
         | Inr data \<Rightarrow>
           (case unmarshal data cfg of
              Inl e \<Rightarrow> Inl (CfParse e)
            | Inr cfg' \<Rightarrow> Inr (applyDaemonEnvOverrides h cfg')))"

section \<open>The user's configuration\<close>

record GlobalConfig =
  gc_ConfigDir :: string
  gc_TempDir :: string
  gc_DefaultProvider :: string
  gc_LogLevel :: string
  gc_AutoCleanup :: bool

record global_codec =
  gk_Marshal :: "GlobalConfig \<Rightarrow> go_error + string"
  gk_Unmarshal :: "string \<Rightarrow> go_error + GlobalConfig"

definition GetGlobalConfigPath :: "host \<Rightarrow> string" where
  "GetGlobalConfigPath h = join_path [GetConfigDir h, ''config.yaml'']"

definition DefaultGlobalConfig :: "host \<Rightarrow> GlobalConfig" where
  "DefaultGlobalConfig h =
     \<lparr>gc_ConfigDir = GetConfigDir h, gc_TempDir = GetTempDir h, gc_DefaultProvider = ''claude'',
      gc_LogLevel = ''info'', gc_AutoCleanup = True\<rparr>"

definition applyDefaults :: "host \<Rightarrow> GlobalConfig \<Rightarrow> GlobalConfig" where
  "applyDefaults h c =
     (let d = DefaultGlobalConfig h
      in c\<lparr>gc_ConfigDir := (if gc_ConfigDir c = [] then gc_ConfigDir d else gc_ConfigDir c),
           gc_TempDir := (if gc_TempDir c = [] then gc_TempDir d else gc_TempDir c),
           gc_DefaultProvider := (if gc_DefaultProvider c = [] then gc_DefaultProvider d else gc_DefaultProvider c),
           gc_LogLevel := (if gc_LogLevel c = [] then gc_LogLevel d else gc_LogLevel c)\<rparr>)"

definition LoadGlobalConfig :: "global_codec \<Rightarrow> host \<Rightarrow> config_error + GlobalConfig" where
  "LoadGlobalConfig k h =
     (let configPath = GetGlobalConfigPath h
      in if (case os_stat configPath h of Inl e \<Rightarrow> is_not_exist e | Inr n \<Rightarrow> False) then Inr (DefaultGlobalConfig h)
         else case os_read_file configPath h of
                Inl e \<Rightarrow> Inl (CfRead e)
              | Inr data \<Rightarrow>
                (case gk_Unmarshal k data of
                   Inl e \<Rightarrow> Inl (CfParse e)
                 | Inr c \<Rightarrow> Inr (applyDefaults h c)))"

definition SaveGlobalConfig :: "global_codec \<Rightarrow> GlobalConfig \<Rightarrow> host \<Rightarrow> config_error option \<times> host" where
  "SaveGlobalConfig k c h =
     (let configPath = GetGlobalConfigPath h
      in case os_mkdir_all (dir_path configPath) h of
           (Some e, h1) \<Rightarrow> (Some (CfMkdir e), h1)
         | (None, h1) \<Rightarrow>
           (case gk_Marshal k c of
              Inl e \<Rightarrow> (Some (CfMarshal e), h1)
            | Inr data \<Rightarrow>
              (case os_write_file configPath data h1 of
                 (Some e, h2) \<Rightarrow> (Some (CfWrite e), h2)
               | (None, h2) \<Rightarrow> (None, h2))))"

section \<open>Resolving a path\<close>

text \<open>\<open>os.ExpandEnv\<close> with \<open>getShellName\<close> of package \<open>os\<close>: the name after a dollar sign and how many bytes it takes.\<close>

definition is_shell_special :: "char \<Rightarrow> bool" where
  "is_shell_special c \<longleftrightarrow> c \<in> set ''*#$@!?-'' \<or> is_digit c"

definition is_alpha_num :: "char \<Rightarrow> bool" where
  "is_alpha_num c \<longleftrightarrow> c = CHR ''_'' \<or> is_digit c \<or> byte_in (CHR ''a'') (CHR ''z'') c \<or> byte_in (CHR ''A'') (CHR ''Z'') c"

definition get_shell_name :: "string \<Rightarrow> string \<times> nat" where
  "get_shell_name s =
     (case s of
        [] \<Rightarrow> ([], 0)
      | c # cs \<Rightarrow>
        if c = CHR ''{'' then
          (if 1 < length cs \<and> is_shell_special (cs ! 0) \<and> cs ! 1 = CHR ''}'' then ([cs ! 0], 3)
           else let name = takeWhile (\<lambda>d. d \<noteq> CHR ''}'') cs
                in if length name = length cs then ([], 1)
                   else if name = [] then ([], 2) else (name, length name + 2))
        else if is_shell_special c then ([c], 1)
        else let name = takeWhile is_alpha_num s in (name, length name))"

function expand :: "(string \<Rightarrow> string) \<Rightarrow> string \<Rightarrow> string" where
  "expand m [] = []"
| "expand m (c # cs) =
     (if c = CHR ''$'' \<and> cs \<noteq> [] then
        (case get_shell_name cs of
           (name, w) \<Rightarrow>
             (if name = [] \<and> 0 < w then [] else if name = [] then [c] else m name) @ expand m (drop w cs))
      else c # expand m cs)"
  by pat_completeness auto
termination
  by (relation "measure (\<lambda>(m, s). length s)") auto

text \<open>The answer of \<open>os.Getwd\<close> is an argument.\<close>

definition ResolvePath :: "go_error + string \<Rightarrow> string \<Rightarrow> host \<Rightarrow> config_error + string" where
  "ResolvePath getwd path h =
     (case (if has_prefix path ''~/'' then map_option (\<lambda>homeDir. join_path [homeDir, drop 2 path]) (user_home_dir h)
            else Some path) of
        None \<Rightarrow> Inl CfHome
      | Some p \<Rightarrow>
        let q = clean_path (expand (h_env h) p)
        in if is_abs q then Inr q
           else case getwd of
                  Inl e \<Rightarrow> Inl (CfGetwd e)
                | Inr wd \<Rightarrow> Inr (join_path [wd, q]))"

definition EnsureDir :: "string \<Rightarrow> host \<Rightarrow> config_error option \<times> host" where
  "EnsureDir path h = map_prod (map_option CfMkdir) id (os_mkdir_all path h)"

definition EnsureConfigDir :: "host \<Rightarrow> config_error option \<times> host" where
  "EnsureConfigDir h = EnsureDir (GetConfigDir h) h"

definition EnsureTempDir :: "host \<Rightarrow> config_error option \<times> host" where
  "EnsureTempDir h = EnsureDir (GetTempDir h) h"

definition EnsureLocksDir :: "host \<Rightarrow> config_error option \<times> host" where
  "EnsureLocksDir h = EnsureDir (GetLocksDir h) h"

definition PathExists :: "string \<Rightarrow> host \<Rightarrow> bool" where
  "PathExists path h = (case os_stat path h of Inl e \<Rightarrow> \<not> is_not_exist e | Inr n \<Rightarrow> True)"

definition IsDirectory :: "string \<Rightarrow> host \<Rightarrow> bool" where
  "IsDirectory path h = (case os_stat path h of Inl e \<Rightarrow> False | Inr n \<Rightarrow> n = Directory)"

section \<open>Properties\<close>

text \<open>
  The order of precedence of the daemon's configuration: for the three settings that have a
  variable the variable wins when it is not empty, then the file, then the built-in value; all
  other settings are the file's, or built in when there is no file.
\<close>

theorem daemon_config_precedence:
  assumes "LoadDaemonConfig unmarshal path h = Inr cfg" and "p = (if path = [] then ''/etc/misbah/daemon.yaml'' else path)"
  shows "\<exists>base. (if os_read_file p h = Inl ErrNotExist then base = DefaultDaemonConfig h
      else \<exists>data. os_read_file p h = Inr data \<and> unmarshal data (DefaultDaemonConfig h) = Inr base) \<and>
    dm_Socket (dc_Daemon cfg) = env_or EnvDaemonSocket (dm_Socket (dc_Daemon base)) h \<and>
    kt_Endpoint (dc_Kata cfg) = env_or EnvCRIEndpoint (kt_Endpoint (dc_Kata base)) h \<and>
    kt_Handler (dc_Kata cfg) = env_or EnvRuntimeHandler (kt_Handler (dc_Kata base)) h \<and>
    dm_Group (dc_Daemon cfg) = dm_Group (dc_Daemon base) \<and> dm_LogLevel (dc_Daemon cfg) = dm_LogLevel (dc_Daemon base) \<and>
    dm_NonInteractive (dc_Daemon cfg) = dm_NonInteractive (dc_Daemon base) \<and>
    kt_Annotations (dc_Kata cfg) = kt_Annotations (dc_Kata base) \<and> dc_Permissions cfg = dc_Permissions base \<and>
    dc_Network cfg = dc_Network base \<and> dc_Vsock cfg = dc_Vsock base"
  using assms by (auto simp: LoadDaemonConfig_def applyDaemonEnvOverrides_def is_not_exist_def Let_def
      split: sum.splits if_splits)

theorem daemon_config_precedence_witness:
  "\<exists>cfg. LoadDaemonConfig (\<lambda>d c. Inl ''no file'') [] (demo_host\<lparr>h_env := (\<lambda>_. [])(EnvDaemonSocket := ''/s'')\<rparr>) = Inr cfg \<and>
     dm_Socket (dc_Daemon cfg) = ''/s''"
proof -
  let ?h = "demo_host\<lparr>h_env := (\<lambda>_. [])(EnvDaemonSocket := ''/s'')\<rparr>"
  obtain cfg where c: "LoadDaemonConfig (\<lambda>d c. Inl ''no file'') [] ?h = Inr cfg"
    by (simp add: LoadDaemonConfig_def os_read_file_def demo_host_def is_not_exist_def)
  from daemon_config_precedence [OF c refl] have "dm_Socket (dc_Daemon cfg) = ''/s''" by (auto simp: env_or_def)
  with c show ?thesis by blast
qed

text \<open>What a successful save writes, and that the variables of the environment stay.\<close>

lemma Save_NoneD:
  assumes "SaveGlobalConfig k c h = (None, h')"
  obtains data where "gk_Marshal k c = Inr data" and "h_fs h' (GetGlobalConfigPath h) = Some (RegFile data)"
    and "h_env h' = h_env h" and "h_fault h' = h_fault h"
  using assms by (auto simp: SaveGlobalConfig_def Let_def split: prod.splits option.splits sum.splits
      dest!: os_write_file_NoneD os_mkdir_all_cases)

lemma config_env: "h_env h' = h_env h \<Longrightarrow> GetGlobalConfigPath h' = GetGlobalConfigPath h \<and> applyDefaults h' = applyDefaults h"
  by (simp add: fun_eq_iff GetGlobalConfigPath_def GetConfigDir_def user_home_dir_def applyDefaults_def DefaultGlobalConfig_def
      GetTempDir_def env_or_def)

text \<open>
  A user configuration that was saved is what is loaded, with the empty fields filled in;
  a configuration without empty fields is loaded as it was saved.
\<close>

theorem global_config_roundtrip:
  assumes "\<And>d. gk_Marshal k c = Inr d \<Longrightarrow> gk_Unmarshal k d = Inr c" and "SaveGlobalConfig k c h = (None, h')"
    and "\<not> h_fault h OpReadFile (GetGlobalConfigPath h)"
  shows "LoadGlobalConfig k h' = Inr (applyDefaults h c) \<and>
    ([] \<notin> {gc_ConfigDir c, gc_TempDir c, gc_DefaultProvider c, gc_LogLevel c} \<longrightarrow> applyDefaults h c = c)"
proof -
  obtain d where d: "gk_Marshal k c = Inr d" "h_fs h' (GetGlobalConfigPath h) = Some (RegFile d)" "h_env h' = h_env h"
    "h_fault h' = h_fault h" using Save_NoneD [OF assms(2)] by blast
  have "LoadGlobalConfig k h' = Inr (applyDefaults h c)"
    using d config_env [OF d(3)] assms(1) [OF d(1)] assms(3)
    by (simp add: LoadGlobalConfig_def os_stat_def os_read_file_def is_not_exist_def Let_def)
  then show ?thesis by (auto simp: applyDefaults_def Let_def)
qed

definition demo_config :: GlobalConfig where
  "demo_config = \<lparr>gc_ConfigDir = ''/c'', gc_TempDir = ''/t'', gc_DefaultProvider = ''aider'', gc_LogLevel = ''debug'', gc_AutoCleanup = False\<rparr>"

theorem global_config_roundtrip_witness:
  "\<exists>h'. SaveGlobalConfig \<lparr>gk_Marshal = (\<lambda>c. Inr ''x''), gk_Unmarshal = (\<lambda>d. Inr demo_config)\<rparr> demo_config demo_host = (None, h') \<and>
     LoadGlobalConfig \<lparr>gk_Marshal = (\<lambda>c. Inr ''x''), gk_Unmarshal = (\<lambda>d. Inr demo_config)\<rparr> h' = Inr demo_config"
proof -
  let ?k = "\<lparr>gk_Marshal = (\<lambda>c. Inr ''x''), gk_Unmarshal = (\<lambda>d. Inr demo_config)\<rparr>"
  have "GetGlobalConfigPath demo_host = ''/tmp/.config/misbah/config.yaml''" "dir_path ''/tmp/.config/misbah/config.yaml'' = ''/tmp/.config/misbah''"
    by code_simp+
  then obtain h' where s: "SaveGlobalConfig ?k demo_config demo_host = (None, h')"
    by (simp add: SaveGlobalConfig_def os_mkdir_all_def os_write_file_def)
  from global_config_roundtrip [OF _ s] s show ?thesis by (auto simp: demo_config_def)
qed

text \<open>Expansion and cleaning leave a path that is already plain.\<close>

lemma expand_plain: "CHR ''$'' \<notin> set s \<Longrightarrow> expand m s = s"
  by (induction s) auto

lemma clean_path_idem: "is_abs p \<Longrightarrow> clean_path (clean_path p) = clean_path p"
  using path_elems_clean [of p] clean_path_abs [of p] clean_path_abs [of "clean_path p"] is_abs_clean_path [of p] by simp

lemma join_abs_clean: "is_abs wd \<Longrightarrow> is_abs (join_path [wd, q]) \<and> clean_path (join_path [wd, q]) = join_path [wd, q]"
proof -
  assume a: "is_abs wd"
  then have "join_path [wd, q] = clean_path (wd @ ''/'' @ q)" by (auto simp: join_path_def)
  then show ?thesis using is_abs_append [OF a, of "''/'' @ q"] by (simp add: clean_path_idem)
qed

text \<open>Cleaning a relative path leaves it relative: no kept element is empty or holds a slash.\<close>

lemma clean_elems_no_slash:
  assumes "\<forall>e\<in>set acc \<union> set es. CHR ''/'' \<notin> set e" and "[] \<notin> set acc"
  shows "\<forall>e\<in>set (clean_elems r acc es). e \<noteq> [] \<and> CHR ''/'' \<notin> set e"
  using assms
proof (induction es arbitrary: acc)
  case (Cons e es)
  have "\<exists>acc'. clean_elems r acc (e # es) = clean_elems r acc' es \<and> set acc' \<subseteq> set acc \<union> {e} - {[]}"
    using Cons.prems(2) by (cases acc) auto
  then obtain acc' where "clean_elems r acc (e # es) = clean_elems r acc' es" "set acc' \<subseteq> set acc \<union> {e} - {[]}" by blast
  with Cons.IH [of acc'] Cons.prems(1) show ?case by auto
qed auto

lemma str_join_relative: "\<forall>e\<in>set es. e \<noteq> [] \<and> CHR ''/'' \<notin> set e \<Longrightarrow> \<not> is_abs (str_join ''/'' es)"
proof (cases es)
  case (Cons e fs)
  assume "\<forall>e\<in>set es. e \<noteq> [] \<and> CHR ''/'' \<notin> set e"
  with Cons obtain c cs where e: "e = c # cs" and c: "c \<noteq> CHR ''/''" by (cases e) auto
  have "\<exists>t. str_join ''/'' es = c # t" using Cons e by (cases fs) auto
  with c show ?thesis by (auto simp: is_abs_def has_prefix_iff)
qed simp

lemma is_abs_of_clean [simp]: "is_abs (clean_path p) = is_abs p"
proof (cases "is_abs p")
  case False
  have "\<forall>e\<in>set (clean_elems False [] (split_on (CHR ''/'') p)). e \<noteq> [] \<and> CHR ''/'' \<notin> set e"
    using split_on_elems by (intro clean_elems_no_slash) auto
  from str_join_relative [OF this] False show ?thesis by (simp add: clean_path_def Let_def is_abs_def has_prefix_def)
qed simp

text \<open>
  C36: a path that resolves is absolute and clean; resolving it again, when it holds no dollar sign,
  changes nothing.
\<close>

theorem ResolvePath_absolute:
  assumes "ResolvePath getwd path h = Inr q" and "\<And>wd. getwd = Inr wd \<Longrightarrow> is_abs wd"
  shows "is_abs q \<and> clean_path q = q \<and> (CHR ''$'' \<notin> set q \<longrightarrow> ResolvePath getwd q h = Inr q)"
proof -
  have q: "is_abs q \<and> clean_path q = q"
    using assms by (auto simp: ResolvePath_def Let_def join_abs_clean clean_path_idem split: option.splits sum.splits if_splits)
  then have "\<not> has_prefix q ''~/''" by (auto simp: is_abs_def has_prefix_iff)
  with q show ?thesis by (simp add: ResolvePath_def expand_plain)
qed

theorem ResolvePath_absolute_witness:
  "ResolvePath (Inr ''/work'') ''$D/../src'' (demo_host\<lparr>h_env := (\<lambda>_. [])(''D'' := ''a/b'')\<rparr>) = Inr ''/work/a/src'' \<and>
   is_abs ''/work/a/src'' \<and> ResolvePath (Inr ''/work'') ''/work/a/src'' (demo_host\<lparr>h_env := (\<lambda>_. [])(''D'' := ''a/b'')\<rparr>) = Inr ''/work/a/src''"
proof -
  let ?h = "demo_host\<lparr>h_env := (\<lambda>_. [])(''D'' := ''a/b'')\<rparr>"
  have r: "ResolvePath (Inr ''/work'') ''$D/../src'' ?h = Inr ''/work/a/src''" by code_simp
  with ResolvePath_absolute [OF r] show ?thesis by (simp add: is_abs_def has_prefix_def)
qed

end
