(* ===== verification/Instrumentation.thy ===== *)
theory Instrumentation
  imports Lifecycle Config Complex_Main "HOL-Library.Log_Nat"
begin

text \<open>
  The metrics recorder and timer of \<open>metrics/metrics.go\<close>, the log levels of \<open>metrics/logger.go\<close>, the
  timer around \<open>Lifecycle.Start\<close>, and the set-up before every command in \<open>cli/root.go\<close>.  Times are
  nanoseconds; a recorded value is the real number that the float64 stands for.
\<close>

section \<open>Numbers\<close>

text \<open>The conversion of an integer to float64: 53 significant bits, to nearest, ties to even.\<close>

definition float64 :: "int \<Rightarrow> int" where
  "float64 n =
     (let a = nat \<bar>n\<bar>
      in if a < 2 ^ 53 then n
         else let e = floorlog 2 a - 53; q = a div 2 ^ e; r = a mod 2 ^ e;
                  q' = (if 2 ^ (e - 1) < r \<or> r = 2 ^ (e - 1) \<and> odd q then q + 1 else q)
              in sgn n * int (q' * 2 ^ e))"

text \<open>\<open>Duration.Milliseconds\<close>: the division truncates towards zero.\<close>

definition Milliseconds :: "i64 \<Rightarrow> int" where
  "Milliseconds d = sgn (sint d) * (\<bar>sint d\<bar> div 1000000)"

section \<open>The recorder\<close>

record Metric =
  mt_Name :: string
  mt_Value :: real
  mt_Timestamp :: i64
  mt_Labels :: "string \<rightharpoonup> string"

record MetricsRecorder =
  mr_metrics :: "Metric list"
  mr_enabled :: bool

definition NewMetricsRecorder :: MetricsRecorder where
  "NewMetricsRecorder = \<lparr>mr_metrics = [], mr_enabled = True\<rparr>"

definition Record_metric :: "i64 \<Rightarrow> string \<Rightarrow> real \<Rightarrow> (string \<rightharpoonup> string) \<Rightarrow> MetricsRecorder \<Rightarrow> MetricsRecorder" where
  "Record_metric now name value labels m =
     (if \<not> mr_enabled m then m
      else m\<lparr>mr_metrics := mr_metrics m @ [\<lparr>mt_Name = name, mt_Value = value, mt_Timestamp = now, mt_Labels = labels\<rparr>]\<rparr>)"

definition RecordDuration :: "i64 \<Rightarrow> string \<Rightarrow> i64 \<Rightarrow> (string \<rightharpoonup> string) \<Rightarrow> MetricsRecorder \<Rightarrow> MetricsRecorder" where
  "RecordDuration now name duration labels = Record_metric now name (of_int (float64 (Milliseconds duration))) labels"

definition RecordCount :: "i64 \<Rightarrow> string \<Rightarrow> i64 \<Rightarrow> (string \<rightharpoonup> string) \<Rightarrow> MetricsRecorder \<Rightarrow> MetricsRecorder" where
  "RecordCount now name count labels = Record_metric now name (of_int (float64 (sint count))) labels"

definition GetMetrics :: "MetricsRecorder \<Rightarrow> Metric list" where
  "GetMetrics m = mr_metrics m"

definition Clear_metrics :: "MetricsRecorder \<Rightarrow> MetricsRecorder" where
  "Clear_metrics m = m\<lparr>mr_metrics := []\<rparr>"

definition Enable_metrics :: "MetricsRecorder \<Rightarrow> MetricsRecorder" where
  "Enable_metrics m = m\<lparr>mr_enabled := True\<rparr>"

definition Disable_metrics :: "MetricsRecorder \<Rightarrow> MetricsRecorder" where
  "Disable_metrics m = m\<lparr>mr_enabled := False\<rparr>"

section \<open>The timer\<close>

record Timer =
  tm_name :: string
  tm_start :: i64
  tm_labels :: "string \<rightharpoonup> string"

definition NewTimer :: "i64 \<Rightarrow> string \<Rightarrow> (string \<rightharpoonup> string) \<Rightarrow> Timer" where
  "NewTimer now name labels = \<lparr>tm_name = name, tm_start = now, tm_labels = labels\<rparr>"

text \<open>
  \<open>Timer.Stop\<close> on a timer with or without a recorder; its line in the log is left out.  \<open>time.Since\<close> is the
  difference of two readings of the monotonic clock.
\<close>

definition Timer_Stop :: "i64 \<Rightarrow> Timer \<Rightarrow> MetricsRecorder option \<Rightarrow> i64 \<times> MetricsRecorder option" where
  "Timer_Stop now t rec =
     (let duration = now - tm_start t
      in (duration, map_option (RecordDuration now (tm_name t) duration (tm_labels t)) rec))"

text \<open>\<open>Lifecycle.Start\<close> with its timer, which the deferred \<open>Stop\<close> ends on every way out.\<close>

definition start_labels :: "ContainerSpec \<Rightarrow> string \<rightharpoonup> string" where
  "start_labels spec = [''container'' \<mapsto> md_Name (spec_Metadata spec), ''runtime'' \<mapsto> spec_Runtime spec]"

definition timed_Start ::
  "'s Lifecycle \<Rightarrow> i64 \<Rightarrow> i64 \<Rightarrow> ContainerSpec \<Rightarrow> (host \<times> 's) \<times> MetricsRecorder option \<Rightarrow>
     lifecycle_error option \<times> (host \<times> 's) \<times> MetricsRecorder option" where
  "timed_Start lc t0 t1 spec st =
     (case st of (w, rec) \<Rightarrow>
      let timer = NewTimer t0 ''container.start.total'' (start_labels spec)
      in case Lifecycle_Start lc spec w of
           (e, w') \<Rightarrow> (e, w', snd (Timer_Stop t1 timer rec)))"

section \<open>Log levels and the set-up of a command\<close>

datatype zerolog_level = DebugLevel | InfoLevel | WarnLevel | ErrorLevel | FatalLevel

definition parseLogLevel :: "string \<Rightarrow> zerolog_level" where
  "parseLogLevel level =
     (if level = ''debug'' then DebugLevel
      else if level = ''info'' then InfoLevel
      else if level = ''warn'' then WarnLevel
      else if level = ''error'' then ErrorLevel
      else if level = ''fatal'' then FatalLevel
      else InfoLevel)"

record root_flags =
  rf_logLevel :: string
  rf_verbose :: bool
  rf_configDir :: string

text \<open>
  \<open>PersistentPreRunE\<close> of the root command: the level that \<open>NewConsoleLogger\<close> makes the global one, the
  recorder and the configuration it leaves in the package's variables, and the environment.
\<close>

definition root_preRun ::
  "global_codec \<Rightarrow> root_flags \<Rightarrow> host \<Rightarrow> (zerolog_level \<times> MetricsRecorder \<times> GlobalConfig) \<times> host" where
  "root_preRun k fl h =
     (let level = (if rf_verbose fl then ''debug'' else rf_logLevel fl);
          cfg = (case LoadGlobalConfig k h of Inl e \<Rightarrow> DefaultGlobalConfig h | Inr c \<Rightarrow> c);
          h' = (if rf_configDir fl \<noteq> [] then h\<lparr>h_env := (h_env h)(EnvConfigDir := rf_configDir fl)\<rparr> else h)
      in ((parseLogLevel level, NewMetricsRecorder, cfg), h'))"

text \<open>The exit status of \<open>main\<close>, and the one of \<open>HandleError\<close> with the codes that are declared for it.\<close>

definition ExitSuccess :: int where "ExitSuccess = 0"
definition ExitGeneralError :: int where "ExitGeneralError = 1"
definition ExitValidationError :: int where "ExitValidationError = 2"
definition ExitLockError :: int where "ExitLockError = 3"
definition ExitConfigurationError :: int where "ExitConfigurationError = 9"

definition HandleError :: "go_error option \<Rightarrow> int" where
  "HandleError err = (case err of None \<Rightarrow> ExitSuccess | Some e \<Rightarrow> ExitGeneralError)"

definition misbah_main :: "go_error option \<Rightarrow> int" where
  "misbah_main execute = (if execute \<noteq> None then 1 else 0)"

section \<open>Properties\<close>

lemma float64_small: "\<bar>n\<bar> < 2 ^ 53 \<Longrightarrow> float64 n = n"
  by (simp add: float64_def Let_def nat_less_iff)

text \<open>Every duration, in milliseconds, is small enough to be a float64 without rounding.\<close>

lemma Milliseconds_bound: "\<bar>Milliseconds d\<bar> \<le> 9223372036854"
proof -
  have "\<bar>sint d\<bar> \<le> 2 ^ 63" using sint_ge [of d] sint_less [of d] by (simp add: abs_le_iff)
  then have "\<bar>sint d\<bar> div 1000000 \<le> 2 ^ 63 div 1000000" by (rule zdiv_mono1) simp
  then have "\<bar>sint d\<bar> div 1000000 \<le> 9223372036854" by simp
  moreover have "0 \<le> \<bar>sint d\<bar> div 1000000" by (simp add: pos_imp_zdiv_nonneg_iff)
  moreover have "\<bar>Milliseconds d\<bar> \<le> \<bar>\<bar>sint d\<bar> div 1000000\<bar>" unfolding Milliseconds_def abs_mult by (cases "sint d = 0") (simp_all add: abs_sgn_eq)
  ultimately show ?thesis by linarith
qed

lemma RecordDuration_exact:
  "mr_enabled m \<Longrightarrow> GetMetrics (RecordDuration now name d labels m) =
     GetMetrics m @ [\<lparr>mt_Name = name, mt_Value = of_int (Milliseconds d), mt_Timestamp = now, mt_Labels = labels\<rparr>]"
  using Milliseconds_bound [of d] by (simp add: RecordDuration_def Record_metric_def GetMetrics_def float64_small)

text \<open>A count beyond \<open>2 ^ 53\<close> is rounded.\<close>

lemma count_rounded: "float64 9007199254740993 = 9007199254740992"
proof -
  have "53 < floorlog 2 9007199254740993" "floorlog 2 9007199254740993 \<le> 54"
    using floorlog_leI [of 9007199254740993 2 54] floorlog_geD [of 54 2 9007199254740993] floorlog_leD [of 2 9007199254740993 53]
    by (auto simp: not_less [symmetric])
  then have "floorlog 2 9007199254740993 = 54" by simp
  then show ?thesis by (simp add: float64_def)
qed

text \<open>
  Starts of any containers, successful or not, on an enabled recorder leave one metric each, in
  their order, that names the container, its runtime and the duration of its start.
\<close>

fun timed_starts ::
  "'s Lifecycle \<Rightarrow> (i64 \<times> i64 \<times> ContainerSpec) list \<Rightarrow> (host \<times> 's) \<times> MetricsRecorder option \<Rightarrow> (host \<times> 's) \<times> MetricsRecorder option" where
  "timed_starts lc [] st = st"
| "timed_starts lc ((t0, t1, spec) # xs) st = timed_starts lc xs (snd (timed_Start lc t0 t1 spec st))"

definition start_metric :: "i64 \<times> i64 \<times> ContainerSpec \<Rightarrow> Metric" where
  "start_metric x =
     (case x of (t0, t1, spec) \<Rightarrow>
        \<lparr>mt_Name = ''container.start.total'', mt_Value = of_int (Milliseconds (t1 - t0)), mt_Timestamp = t1, mt_Labels = start_labels spec\<rparr>)"

lemma Record_enabled: "mr_enabled (Record_metric now name v l m) = mr_enabled m"
  by (simp add: Record_metric_def)

lemma starts_are_measured:
  "mr_enabled m \<Longrightarrow> \<exists>m'. snd (timed_starts lc xs (w, Some m)) = Some m' \<and> mr_enabled m' \<and>
     GetMetrics m' = GetMetrics m @ map start_metric xs"
proof (induction lc xs "(w, Some m)" arbitrary: w m rule: timed_starts.induct)
  case (2 lc t0 t1 spec xs)
  obtain e w' where s: "Lifecycle_Start lc spec w = (e, w')" by (cases "Lifecycle_Start lc spec w")
  let ?m = "RecordDuration t1 ''container.start.total'' (t1 - t0) (start_labels spec) m"
  have t: "snd (timed_Start lc t0 t1 spec (w, Some m)) = (w', Some ?m)"
    by (simp add: timed_Start_def s NewTimer_def Timer_Stop_def Let_def)
  have "mr_enabled ?m" using "2.prems" by (simp add: RecordDuration_def Record_enabled)
  from "2.hyps" [OF t this] show ?case using "2.prems" by (auto simp: t RecordDuration_exact start_metric_def)
qed simp

text \<open>
  The configuration is loaded before the flag for its directory takes effect: the flag changes
  where the paths of later steps point to, but never the configuration that is loaded.
\<close>

lemma config_dir_flag_ignored:
  "snd (snd (fst (root_preRun k (fl\<lparr>rf_configDir := d\<rparr>) h))) = snd (snd (fst (root_preRun k fl h))) \<and>
   (d \<noteq> [] \<longrightarrow> GetConfigDir (snd (root_preRun k (fl\<lparr>rf_configDir := d\<rparr>) h)) = d)"
  by (simp add: root_preRun_def Let_def GetConfigDir_def)

text \<open>No error is told apart from another by the exit status.\<close>

lemma exit_codes_unused:
  "HandleError err \<in> {ExitSuccess, ExitGeneralError} \<and> misbah_main err = HandleError err \<and>
   HandleError err \<notin> {ExitValidationError, ExitLockError, ExitConfigurationError}"
  by (cases err) (simp_all add: HandleError_def misbah_main_def ExitSuccess_def ExitGeneralError_def ExitValidationError_def
      ExitLockError_def ExitConfigurationError_def)

end
