(* ===== verification/CLI_Image.thy ===== *)
theory CLI_Image
  imports CRI_Backend Instrumentation
begin

text \<open>
  The commands of \<open>cli/image.go\<close> on the CRI image service.  The two queries of the service that only
  they use are arguments.
\<close>

record cri_image =
  im_Id :: string
  im_RepoTags :: "string list"
  im_RepoDigests :: "string list"
  im_Size :: "64 word"

record 'r image_service =
  is_list :: "'r \<Rightarrow> go_error + cri_image list"
  is_status :: "string \<Rightarrow> 'r \<Rightarrow> go_error + cri_image option"

definition ListImages :: "'r image_service \<Rightarrow> 'r cri_client \<Rightarrow> go_error + cri_image list" where
  "ListImages sv k = map_sum (\<lambda>m. ''failed to list images: '' @ m) id (is_list sv (cl_state k))"

definition ImageStatus :: "'r image_service \<Rightarrow> string \<Rightarrow> 'r cri_client \<Rightarrow> go_error + cri_image option" where
  "ImageStatus sv ref k = map_sum (\<lambda>m. ''failed to get image status '' @ ref @ '': '' @ m) id (is_status sv ref (cl_state k))"

text \<open>The endpoint: the flag, then the variable, then the default; \<open>cri.NewClient\<close> is an argument.\<close>

definition createImageClient :: "(string \<Rightarrow> go_error + 'r cri_client) \<Rightarrow> string \<Rightarrow> host \<Rightarrow> go_error + 'r cri_client" where
  "createImageClient new flag h = new (if flag \<noteq> [] then flag else GetCRIEndpoint h)"

datatype image_error = ImClient go_error | ImPull go_error | ImList go_error | ImInspect go_error | ImNotFound string

definition runImagePull :: "'r cri_runtime \<Rightarrow> go_error + 'r cri_client \<Rightarrow> string \<Rightarrow> image_error option \<times> 'r cri_client option" where
  "runImagePull rt client ref =
     (case client of
        Inl e \<Rightarrow> (Some (ImClient e), None)
      | Inr k \<Rightarrow> (case PullImage rt ref k of (e, k') \<Rightarrow> (map_option ImPull e, Some k')))"

text \<open>
  The verb \<open>%.1f\<close> of package fmt on the quotient of an integer float64 and a power of two, which is a
  float64 without rounding: one decimal, to nearest, ties to even.
\<close>

definition tenths :: "int \<Rightarrow> int \<Rightarrow> nat" where
  "tenths x unit =
     (let q = x * 10 div unit; r = x * 10 mod unit
      in nat (if unit < 2 * r \<or> 2 * r = unit \<and> odd q then q + 1 else q))"

definition one_decimal :: "nat \<Rightarrow> string" where
  "one_decimal t = itoa_nat (t div 10) @ ''.'' @ itoa_nat (t mod 10)"

definition size_unit :: "int \<Rightarrow> (int \<times> string) option" where
  "size_unit n =
     (if 2 ^ 30 \<le> n then Some (2 ^ 30, '' GB'')
      else if 2 ^ 20 \<le> n then Some (2 ^ 20, '' MB'')
      else if 2 ^ 10 \<le> n then Some (2 ^ 10, '' KB'')
      else None)"

definition formatSize :: "64 word \<Rightarrow> string" where
  "formatSize bytes =
     (case size_unit (uint bytes) of
        Some (unit, label) \<Rightarrow> one_decimal (tenths (float64 (uint bytes)) unit) @ label
      | None \<Rightarrow> itoa_nat (unat bytes) @ '' B'')"

text \<open>A line of the list: the first tag, the size, and the beginning of the identifier.\<close>

definition image_line :: "cri_image \<Rightarrow> string \<times> string \<times> string" where
  "image_line i = (case im_RepoTags i of [] \<Rightarrow> ''<none>'' | t # _ \<Rightarrow> t, formatSize (im_Size i), take 19 (im_Id i))"

definition runImageList :: "'r image_service \<Rightarrow> go_error + 'r cri_client \<Rightarrow> image_error + (string \<times> string \<times> string) list" where
  "runImageList sv client =
     (case client of
        Inl e \<Rightarrow> Inl (ImClient e)
      | Inr k \<Rightarrow> (case ListImages sv k of Inl e \<Rightarrow> Inl (ImList e) | Inr is \<Rightarrow> Inr (map image_line is)))"

definition runImageInspect :: "'r image_service \<Rightarrow> go_error + 'r cri_client \<Rightarrow> string \<Rightarrow> image_error + cri_image" where
  "runImageInspect sv client ref =
     (case client of
        Inl e \<Rightarrow> Inl (ImClient e)
      | Inr k \<Rightarrow>
        (case ImageStatus sv ref k of
           Inl e \<Rightarrow> Inl (ImInspect e)
         | Inr None \<Rightarrow> Inl (ImNotFound ref)
         | Inr (Some i) \<Rightarrow> Inr i))"

definition image_ref :: "cri_image \<Rightarrow> string" where
  "image_ref i = (case im_RepoTags i of [] \<Rightarrow> im_Id i | t # _ \<Rightarrow> t)"

fun prune_all :: "'r cri_runtime \<Rightarrow> cri_image list \<Rightarrow> 'r cri_client \<Rightarrow> nat \<times> 'r cri_client" where
  "prune_all rt [] k = (0, k)"
| "prune_all rt (i # is) k =
     (case RemoveImage rt (image_ref i) k of
        (Some e, k') \<Rightarrow> prune_all rt is k'
      | (None, k') \<Rightarrow> apfst Suc (prune_all rt is k'))"

definition runImagePrune ::
  "'r cri_runtime \<Rightarrow> 'r image_service \<Rightarrow> go_error + 'r cri_client \<Rightarrow> (image_error + nat) \<times> 'r cri_client option" where
  "runImagePrune rt sv client =
     (case client of
        Inl e \<Rightarrow> (Inl (ImClient e), None)
      | Inr k \<Rightarrow>
        (case ListImages sv k of
           Inl e \<Rightarrow> (Inl (ImList e), Some k)
         | Inr is \<Rightarrow> (case prune_all rt is k of (n, k') \<Rightarrow> (Inr n, Some k'))))"

text \<open>
  A prune asks for the removal of every listed image, used or not and whatever fails, in the
  order of the list; the count it reports is that of the removals that did not fail.
\<close>

theorem prune_removes_every_image:
  "cl_log (snd (prune_all rt is k)) = cl_log k @ map (\<lambda>i. RemoveImageCall (image_ref i)) is \<and> fst (prune_all rt is k) \<le> length is"
proof (induction "is" arbitrary: k)
  case (Cons i "is")
  obtain e k' where r: "RemoveImage rt (image_ref i) k = (e, k')" by fastforce
  then have "cl_log k' = cl_log k @ [RemoveImageCall (image_ref i)]"
    using call_logs(1) [of rt "''failed to remove image '' @ image_ref i" "RemoveImageCall (image_ref i)" k] by (simp add: RemoveImage_def)
  with Cons [of k'] r show ?case by (cases e) auto
qed simp

section \<open>Sizes\<close>

text \<open>The printed tenths are within half a tenth of the unit of the number they stand for.\<close>

lemma tenths_near:
  assumes "0 \<le> x" and "0 < unit"
  shows "2 * \<bar>10 * x - int (tenths x unit) * unit\<bar> \<le> unit"
proof -
  define q r where "q = x * 10 div unit" and "r = x * 10 mod unit"
  have x: "10 * x = q * unit + r" by (simp add: q_def r_def)
  have r: "0 \<le> r" "r < unit" using assms(2) by (simp_all add: r_def)
  have q: "0 \<le> q" using assms by (simp add: q_def pos_imp_zdiv_nonneg_iff)
  have t: "int (tenths x unit) = (if unit < 2 * r \<or> 2 * r = unit \<and> odd q then q + 1 else q)"
    using q by (simp add: tenths_def Let_def q_def r_def)
  have "10 * x - int (tenths x unit) * unit = (if unit < 2 * r \<or> 2 * r = unit \<and> odd q then r - unit else r)"
    unfolding t x by (simp add: algebra_simps)
  then show ?thesis using r by auto
qed

text \<open>Every image below 2^53 bytes, some nine million gigabytes, is listed with a size that is off by half a tenth of its unit at most.\<close>

lemma formatSize_near:
  assumes "size_unit (uint bytes) = Some (unit, label)" and "uint bytes < 2 ^ 53"
  shows "\<exists>t. formatSize bytes = one_decimal t @ label \<and> 2 * \<bar>10 * uint bytes - int t * unit\<bar> \<le> unit"
proof -
  have f: "float64 (uint bytes) = uint bytes" using assms(2) by (simp add: float64_small)
  have "0 < unit" using assms(1) by (auto simp: size_unit_def split: if_splits)
  from tenths_near [OF _ this, of "uint bytes"] show ?thesis by (auto simp: formatSize_def assms(1) f)
qed

text \<open>The unit is chosen before the number is rounded: just below a megabyte there are 1024.0 kilobytes.\<close>

lemma formatSize_rounds_up: "formatSize 1048575 = ''1024.0 KB'' \<and> formatSize 1048576 = ''1.0 MB''"
proof -
  have "itoa_nat 1024 = ''1024''" "itoa_nat 1 = ''1''" "itoa_nat 0 = ''0''" by code_simp+
  then show ?thesis by (simp add: formatSize_def size_unit_def float64_def tenths_def one_decimal_def Let_def)
qed

end
