(* ===== verification/Logging.thy ===== *)
theory Logging
  imports Instrumentation
begin

text \<open>
  The loggers of \<open>metrics/logger.go\<close> and the line that a timer of \<open>metrics/metrics.go\<close> writes.  The
  library zerolog, which they wrap, is a parameter; so is \<open>fmt.Sprintf\<close>.
\<close>

section \<open>zerolog\<close>

datatype log_value = VString string | VInt int | VLabels "string \<rightharpoonup> string"

datatype 'w log_output = Stderr | ConsoleWriter "'w log_output" string | Writer 'w

text \<open>
  The calls into the library: new loggers, the fields of a logger's context, what an event of some
  level writes under some global level, and the exit status if it ends the process.
\<close>

record ('l, 'w) zerolog =
  zl_New :: "'w log_output \<Rightarrow> 'l"
  zl_Timestamp :: "'l \<Rightarrow> 'l"
  zl_Caller :: "'l \<Rightarrow> 'l"
  zl_Interface :: "string \<Rightarrow> log_value \<Rightarrow> 'l \<Rightarrow> 'l"
  zl_Err :: "go_error option \<Rightarrow> 'l \<Rightarrow> 'l"
  zl_Msg :: "zerolog_level \<Rightarrow> zerolog_level \<Rightarrow> 'l \<Rightarrow> string \<Rightarrow> ('w log_output \<times> string) option"
  zl_Done :: "zerolog_level \<Rightarrow> int option"

type_synonym sprintf = "string \<Rightarrow> log_value list \<Rightarrow> string"

fun level_rank :: "zerolog_level \<Rightarrow> nat" where
  "level_rank DebugLevel = 0"
| "level_rank InfoLevel = 1"
| "level_rank WarnLevel = 2"
| "level_rank ErrorLevel = 3"
| "level_rank FatalLevel = 4"

text \<open>What is documented: an event is written iff its level is not below the global one, and \<open>Fatal\<close> exits.\<close>

definition zerolog_ok :: "('l, 'w) zerolog \<Rightarrow> bool" where
  "zerolog_ok z \<longleftrightarrow>
     (\<forall>lv g l msg. zl_Msg z lv g l msg \<noteq> None \<longleftrightarrow> level_rank g \<le> level_rank lv) \<and>
     (\<forall>lv. zl_Done z lv = (if lv = FatalLevel then Some 1 else None))"

section \<open>Loggers\<close>

record 'l Logger =
  lg_logger :: 'l

text \<open>
  The globals of the two packages, what was written so far, and the exit status of a process that
  has ended.
\<close>

record ('l, 'w) log_world =
  lw_level :: zerolog_level
  lw_timeFormat :: "string option"
  lw_default :: "'l Logger option"
  lw_written :: "('w log_output \<times> string) list"
  lw_exit :: "int option"

definition RFC3339 :: string where "RFC3339 = ''2006-01-02T15:04:05Z07:00''"

definition NewLogger ::
  "('l, 'w) zerolog \<Rightarrow> string \<Rightarrow> 'w log_output option \<Rightarrow> ('l, 'w) log_world \<Rightarrow> 'l Logger \<times> ('l, 'w) log_world" where
  "NewLogger z level output w =
     (let out = (case output of None \<Rightarrow> Stderr | Some o' \<Rightarrow> o');
          w1 = (if lw_timeFormat w = None then w\<lparr>lw_timeFormat := Some RFC3339\<rparr> else w)
      in (\<lparr>lg_logger = zl_Caller z (zl_Timestamp z (zl_New z out))\<rparr>, w1\<lparr>lw_level := parseLogLevel level\<rparr>))"

definition NewConsoleLogger :: "('l, 'w) zerolog \<Rightarrow> string \<Rightarrow> ('l, 'w) log_world \<Rightarrow> 'l Logger \<times> ('l, 'w) log_world" where
  "NewConsoleLogger z level = NewLogger z level (Some (ConsoleWriter Stderr RFC3339))"

definition NewJSONLogger :: "('l, 'w) zerolog \<Rightarrow> string \<Rightarrow> ('l, 'w) log_world \<Rightarrow> 'l Logger \<times> ('l, 'w) log_world" where
  "NewJSONLogger z level = NewLogger z level (Some Stderr)"

text \<open>\<open>l.logger.Debug().Msg(msg)\<close> and its siblings; nothing happens any more once the process has ended.\<close>

definition log_event ::
  "('l, 'w) zerolog \<Rightarrow> zerolog_level \<Rightarrow> 'l Logger \<Rightarrow> string \<Rightarrow> ('l, 'w) log_world \<Rightarrow> ('l, 'w) log_world" where
  "log_event z lv l msg w =
     (if lw_exit w \<noteq> None then w
      else w\<lparr>lw_written := lw_written w @ (case zl_Msg z lv (lw_level w) (lg_logger l) msg of None \<Rightarrow> [] | Some x \<Rightarrow> [x]),
             lw_exit := zl_Done z lv\<rparr>)"

definition Logger_Debug where "Logger_Debug z l msg = log_event z DebugLevel l msg"
definition Logger_Info where "Logger_Info z l msg = log_event z InfoLevel l msg"
definition Logger_Warn where "Logger_Warn z l msg = log_event z WarnLevel l msg"
definition Logger_Error where "Logger_Error z l msg = log_event z ErrorLevel l msg"
definition Logger_Fatal where "Logger_Fatal z l msg = log_event z FatalLevel l msg"

definition Logger_Debugf where "Logger_Debugf z (sp :: sprintf) l fmt args = log_event z DebugLevel l (sp fmt args)"
definition Logger_Infof where "Logger_Infof z (sp :: sprintf) l fmt args = log_event z InfoLevel l (sp fmt args)"
definition Logger_Warnf where "Logger_Warnf z (sp :: sprintf) l fmt args = log_event z WarnLevel l (sp fmt args)"
definition Logger_Errorf where "Logger_Errorf z (sp :: sprintf) l fmt args = log_event z ErrorLevel l (sp fmt args)"
definition Logger_Fatalf where "Logger_Fatalf z (sp :: sprintf) l fmt args = log_event z FatalLevel l (sp fmt args)"

definition WithField :: "('l, 'w) zerolog \<Rightarrow> string \<Rightarrow> log_value \<Rightarrow> 'l Logger \<Rightarrow> 'l Logger" where
  "WithField z key value l = \<lparr>lg_logger = zl_Interface z key value (lg_logger l)\<rparr>"

text \<open>The map is ranged over in some order: the fields are given as a list in that order.\<close>

definition WithFields :: "('l, 'w) zerolog \<Rightarrow> (string \<times> log_value) list \<Rightarrow> 'l Logger \<Rightarrow> 'l Logger" where
  "WithFields z kvs l = \<lparr>lg_logger = foldl (\<lambda>ctx (key, value). zl_Interface z key value ctx) (lg_logger l) kvs\<rparr>"

definition WithError :: "('l, 'w) zerolog \<Rightarrow> go_error option \<Rightarrow> 'l Logger \<Rightarrow> 'l Logger" where
  "WithError z err l = \<lparr>lg_logger = zl_Err z err (lg_logger l)\<rparr>"

definition GetZerologLogger :: "'l Logger \<Rightarrow> 'l" where "GetZerologLogger l = lg_logger l"

section \<open>The default logger\<close>

definition SetDefaultLogger :: "'l Logger option \<Rightarrow> ('l, 'w) log_world \<Rightarrow> ('l, 'w) log_world" where
  "SetDefaultLogger l w = w\<lparr>lw_default := l\<rparr>"

definition GetDefaultLogger :: "('l, 'w) log_world \<Rightarrow> 'l Logger option" where "GetDefaultLogger w = lw_default w"

text \<open>The \<open>init\<close> function of the package, which runs before \<open>main\<close>.\<close>

definition init_logger :: "('l, 'w) zerolog \<Rightarrow> ('l, 'w) log_world \<Rightarrow> ('l, 'w) log_world" where
  "init_logger z w = (case NewConsoleLogger z ''info'' w of (l, w') \<Rightarrow> w'\<lparr>lw_default := Some l\<rparr>)"

text \<open>The functions of the package on the default logger; on nil the method panics.\<close>

definition on_default where "on_default f w = map_option (\<lambda>l. f l w) (lw_default w)"

definition default_Debug where "default_Debug z msg w = on_default (\<lambda>l. Logger_Debug z l msg) w"
definition default_Debugf where "default_Debugf z sp fmt args w = on_default (\<lambda>l. Logger_Debugf z sp l fmt args) w"
definition default_Info where "default_Info z msg w = on_default (\<lambda>l. Logger_Info z l msg) w"
definition default_Infof where "default_Infof z sp fmt args w = on_default (\<lambda>l. Logger_Infof z sp l fmt args) w"
definition default_Warn where "default_Warn z msg w = on_default (\<lambda>l. Logger_Warn z l msg) w"
definition default_Warnf where "default_Warnf z sp fmt args w = on_default (\<lambda>l. Logger_Warnf z sp l fmt args) w"
definition default_Error where "default_Error z msg w = on_default (\<lambda>l. Logger_Error z l msg) w"
definition default_Errorf where "default_Errorf z sp fmt args w = on_default (\<lambda>l. Logger_Errorf z sp l fmt args) w"

section \<open>The line of a timer\<close>

definition timer_fields :: "i64 \<Rightarrow> Timer \<Rightarrow> (string \<times> log_value) list" where
  "timer_fields duration t =
     [(''operation'', VString (tm_name t)), (''duration'', VInt (Milliseconds duration)), (''labels'', VLabels (tm_labels t))]"

text \<open>\<open>Timer.Stop\<close> with the logger; \<open>order\<close> is the order in which the three fields are taken from their map.\<close>

definition Timer_Stop_logged ::
  "('l, 'w) zerolog \<Rightarrow> sprintf \<Rightarrow> ((string \<times> log_value) list \<Rightarrow> (string \<times> log_value) list) \<Rightarrow> i64 \<Rightarrow> Timer \<Rightarrow> 'l Logger option \<Rightarrow>
     MetricsRecorder option \<times> ('l, 'w) log_world \<Rightarrow> i64 \<times> MetricsRecorder option \<times> ('l, 'w) log_world" where
  "Timer_Stop_logged z sp order now t logger st =
     (case st of (rec, w) \<Rightarrow>
      case Timer_Stop now t rec of (duration, rec') \<Rightarrow>
        (duration, rec',
         case logger of
           None \<Rightarrow> w
         | Some l \<Rightarrow> Logger_Debugf z sp (WithFields z (order (timer_fields duration t)) l)
             ''%s completed in %dms'' [VString (tm_name t), VInt (Milliseconds duration)] w))"

section \<open>The default recorder\<close>

definition IsEnabled :: "MetricsRecorder \<Rightarrow> bool" where "IsEnabled m = mr_enabled m"

text \<open>The variable of the package holds a recorder or nil; the value of \<open>init\<close>, and its accessors.\<close>

definition init_recorder :: "MetricsRecorder option" where "init_recorder = Some NewMetricsRecorder"

definition SetDefaultRecorder :: "MetricsRecorder option \<Rightarrow> MetricsRecorder option \<Rightarrow> MetricsRecorder option" where
  "SetDefaultRecorder recorder _ = recorder"

definition GetDefaultRecorder :: "MetricsRecorder option \<Rightarrow> MetricsRecorder option" where "GetDefaultRecorder dr = dr"

text \<open>The functions of the package: the new recorder, or a panic on nil.\<close>

definition default_Record :: "i64 \<Rightarrow> string \<Rightarrow> real \<Rightarrow> (string \<rightharpoonup> string) \<Rightarrow> MetricsRecorder option \<Rightarrow> MetricsRecorder option" where
  "default_Record now name value labels dr = map_option (Record_metric now name value labels) dr"

definition default_RecordDuration :: "i64 \<Rightarrow> string \<Rightarrow> i64 \<Rightarrow> (string \<rightharpoonup> string) \<Rightarrow> MetricsRecorder option \<Rightarrow> MetricsRecorder option" where
  "default_RecordDuration now name duration labels dr = map_option (RecordDuration now name duration labels) dr"

definition default_RecordCount :: "i64 \<Rightarrow> string \<Rightarrow> i64 \<Rightarrow> (string \<rightharpoonup> string) \<Rightarrow> MetricsRecorder option \<Rightarrow> MetricsRecorder option" where
  "default_RecordCount now name count labels dr = map_option (RecordCount now name count labels) dr"

text \<open>\<open>StartTimer\<close>: a timer with the default recorder and the default logger, which its \<open>Stop\<close> will use.\<close>

definition StartTimer ::
  "i64 \<Rightarrow> string \<Rightarrow> (string \<rightharpoonup> string) \<Rightarrow> MetricsRecorder option \<Rightarrow> ('l, 'w) log_world \<Rightarrow>
     Timer \<times> MetricsRecorder option \<times> 'l Logger option" where
  "StartTimer now name labels dr w = (NewTimer now name labels, dr, lw_default w)"

section \<open>The level is one for all loggers\<close>

text \<open>
  Programs that make loggers, derive loggers from them, log, and change the default: the loggers
  made so far are numbered.
\<close>

datatype 'w log_op =
    NewOp string "'w log_output option"
  | FieldOp nat string log_value
  | FieldsOp nat "(string \<times> log_value) list"
  | ErrorOp nat "go_error option"
  | DefaultOp nat
  | LogOp zerolog_level nat string

fun log_op_step :: "('l, 'w) zerolog \<Rightarrow> 'w log_op \<Rightarrow> 'l Logger list \<times> ('l, 'w) log_world \<Rightarrow> 'l Logger list \<times> ('l, 'w) log_world" where
  "log_op_step z (NewOp level out) (ls, w) = (case NewLogger z level out w of (l, w') \<Rightarrow> (ls @ [l], w'))"
| "log_op_step z (FieldOp i k v) (ls, w) = (if i < length ls then (ls @ [WithField z k v (ls ! i)], w) else (ls, w))"
| "log_op_step z (FieldsOp i kvs) (ls, w) = (if i < length ls then (ls @ [WithFields z kvs (ls ! i)], w) else (ls, w))"
| "log_op_step z (ErrorOp i e) (ls, w) = (if i < length ls then (ls @ [WithError z e (ls ! i)], w) else (ls, w))"
| "log_op_step z (DefaultOp i) (ls, w) = (if i < length ls then (ls, SetDefaultLogger (Some (ls ! i)) w) else (ls, w))"
| "log_op_step z (LogOp lv i msg) (ls, w) = (if i < length ls then (ls, log_event z lv (ls ! i) msg w) else (ls, w))"

definition log_ops :: "('l, 'w) zerolog \<Rightarrow> 'w log_op list \<Rightarrow> 'l Logger list \<times> ('l, 'w) log_world \<Rightarrow> 'l Logger list \<times> ('l, 'w) log_world" where
  "log_ops z ops st = fold (log_op_step z) ops st"

fun last_level :: "zerolog_level \<Rightarrow> 'w log_op list \<Rightarrow> zerolog_level" where
  "last_level g [] = g"
| "last_level g (NewOp level out # ops) = last_level (parseLogLevel level) ops"
| "last_level g (op # ops) = last_level g ops"

lemma NewLogger_frame:
  "NewLogger z level out w = (l, w') \<Longrightarrow>
   lw_level w' = parseLogLevel level \<and> lw_default w' = lw_default w \<and> lw_written w' = lw_written w \<and> lw_exit w' = lw_exit w"
  by (auto simp: NewLogger_def Let_def)

lemma log_ops_level: "log_ops z ops (ls, w) = (ls', w') \<Longrightarrow> lw_level w' = last_level (lw_level w) ops"
proof (induction ops arbitrary: ls w)
  case (Cons op ops)
  obtain ls1 w1 where s: "log_op_step z op (ls, w) = (ls1, w1)" by fastforce
  have "lw_level w1 = last_level (lw_level w) [op]"
    using s by (cases op) (auto simp: SetDefaultLogger_def log_event_def dest: NewLogger_frame split: if_splits prod.splits)
  moreover have "last_level (last_level (lw_level w) [op]) ops = last_level (lw_level w) (op # ops)" by (cases op) simp_all
  ultimately show ?case using Cons.IH [of ls1 w1] Cons.prems s by (simp add: log_ops_def)
qed (simp add: log_ops_def)

lemma last_level_of:
  assumes "zerolog_ok z" and "log_ops z ops (ls, w) = (ls', w')" and "lw_exit w' = None"
  shows "(\<exists>x. lw_written (log_event z lv l msg w') = lw_written w' @ [x]) \<longleftrightarrow>
    level_rank (last_level (lw_level w) ops) \<le> level_rank lv"
proof -
  have "(zl_Msg z lv (lw_level w') (lg_logger l) msg \<noteq> None) = (level_rank (last_level (lw_level w) ops) \<le> level_rank lv)"
    using assms(1) log_ops_level [OF assms(2)] by (simp add: zerolog_ok_def)
  moreover have "lw_written (log_event z lv l msg w') = lw_written w' @
      (case zl_Msg z lv (lw_level w') (lg_logger l) msg of None \<Rightarrow> [] | Some x \<Rightarrow> [x])"
    using assms(3) by (simp add: log_event_def)
  ultimately show ?thesis by (auto split: option.splits)
qed

text \<open>
  The level of a logger is not its own: whatever loggers a program makes, and whichever of them
  logs, an event is written exactly if it is not below the level that was given to the logger
  made last.
\<close>

theorem last_logger_sets_level:
  assumes "zerolog_ok z" and "log_ops z ops (ls, w) = (ls', w')" and "lw_exit w' = None"
  shows "(\<exists>x. lw_written (log_event z lv l msg w') = lw_written w' @ [x]) \<longleftrightarrow>
    level_rank (last_level (lw_level w) ops) \<le> level_rank lv"
  by (rule last_level_of [OF assms])

text \<open>A simple instance: one line per event, without the fields.\<close>

definition plain_zerolog :: "(nat log_output, nat) zerolog" where
  "plain_zerolog = \<lparr>zl_New = id, zl_Timestamp = id, zl_Caller = id, zl_Interface = (\<lambda>k v l. l), zl_Err = (\<lambda>e l. l),
     zl_Msg = (\<lambda>lv g l msg. if level_rank g \<le> level_rank lv then Some (l, msg) else None),
     zl_Done = (\<lambda>lv. if lv = FatalLevel then Some 1 else None)\<rparr>"

definition fresh_world :: "('l, 'w) log_world" where
  "fresh_world = \<lparr>lw_level = DebugLevel, lw_timeFormat = None, lw_default = None, lw_written = [], lw_exit = None\<rparr>"

lemma plain_zerolog_ok: "zerolog_ok plain_zerolog"
  by (auto simp: zerolog_ok_def plain_zerolog_def)

theorem last_logger_sets_level_witness:
  "\<exists>ls w. log_ops plain_zerolog [NewOp ''debug'' (Some (Writer 1)), NewOp ''error'' None] ([], fresh_world) = (ls, w) \<and>
     length ls = 2 \<and> \<not> (\<exists>x. lw_written (Logger_Warn plain_zerolog (ls ! 0) ''low space'' w) = lw_written w @ [x])"
proof -
  obtain ls w where r: "log_ops plain_zerolog [NewOp ''debug'' (Some (Writer 1)), NewOp ''error'' None] ([], fresh_world) = (ls, w)"
    by fastforce
  then have "length ls = 2" "lw_exit w = None" by (auto simp: log_ops_def NewLogger_def fresh_world_def Let_def)
  with last_logger_sets_level [OF plain_zerolog_ok r, of WarnLevel "ls ! 0" "''low space''"] r show ?thesis
    by (simp add: Logger_Warn_def parseLogLevel_def fresh_world_def)
qed

section \<open>What the flags make visible\<close>

text \<open>The part of \<open>PersistentPreRunE\<close> that sets the logger up: only the flags are looked at.\<close>

definition root_logging :: "('l, 'w) zerolog \<Rightarrow> root_flags \<Rightarrow> ('l, 'w) log_world \<Rightarrow> 'l Logger \<times> ('l, 'w) log_world" where
  "root_logging z fl w =
     (case NewConsoleLogger z (if rf_verbose fl then ''debug'' else rf_logLevel fl) w of
        (l, w') \<Rightarrow> (l, SetDefaultLogger (Some l) w'))"

lemma root_logging_level:
  "root_logging z fl w = (l, w') \<Longrightarrow> lw_level w' = fst (fst (root_preRun k fl h)) \<and> lw_default w' = Some l \<and> lw_exit w' = lw_exit w"
  by (auto simp: root_logging_def root_preRun_def Let_def SetDefaultLogger_def NewConsoleLogger_def dest: NewLogger_frame split: prod.splits)

text \<open>
  After the set-up of a command a timer's line is written exactly with \<open>--verbose\<close> or \<open>--log-level debug\<close>,
  and the metric is recorded in any case.
\<close>

lemma timers_are_verbose:
  assumes "zerolog_ok z" and "lw_exit w = None" and "root_logging z fl w = (l, w')"
    and "Timer_Stop_logged z sp order now t (GetDefaultLogger w') (rec, w') = (d, rec', w'')"
  shows "(d, rec') = Timer_Stop now t rec \<and>
    ((\<exists>x. lw_written w'' = lw_written w' @ [x]) \<longleftrightarrow> rf_verbose fl \<or> rf_logLevel fl = ''debug'')"
proof -
  have w': "lw_level w' = parseLogLevel (if rf_verbose fl then ''debug'' else rf_logLevel fl)" "lw_default w' = Some l" "lw_exit w' = None"
    using assms(2,3) by (auto simp: root_logging_def SetDefaultLogger_def NewConsoleLogger_def dest: NewLogger_frame split: prod.splits)
  obtain l1 msg where s: "(d, rec') = Timer_Stop now t rec" "w'' = log_event z DebugLevel l1 msg w'"
    using assms(4) w'(2) by (auto simp: Timer_Stop_logged_def GetDefaultLogger_def Logger_Debugf_def split: prod.splits)
  have "log_ops z [] ([], w') = ([], w')" by (simp add: log_ops_def)
  from last_level_of [OF assms(1) this w'(3), of DebugLevel l1 msg]
  have "(\<exists>x. lw_written w'' = lw_written w' @ [x]) \<longleftrightarrow> level_rank (lw_level w') = 0" by (simp add: s)
  also have "\<dots> \<longleftrightarrow> rf_verbose fl \<or> rf_logLevel fl = ''debug''" by (simp add: w'(1) parseLogLevel_def)
  finally show ?thesis using s(1) by simp
qed

text \<open>A message of any package-level function needs the default logger, which \<open>init\<close> and every set-up provide.\<close>

lemma default_logs:
  "default_Errorf z sp fmt args (init_logger z w) \<noteq> None"
  "root_logging z fl w = (l, w') \<Longrightarrow> default_Errorf z sp fmt args w' = Some (Logger_Errorf z sp l fmt args w')"
  "default_Errorf z sp fmt args (SetDefaultLogger None w) = None"
  by (auto simp: default_Errorf_def on_default_def init_logger_def root_logging_def SetDefaultLogger_def split: prod.splits)

end
