(* ===== verification/Network_Proxy.thy ===== *)
theory Network_Proxy
  imports Permission_Broker
begin

text \<open>
  The forward proxy of \<open>proxy/network.go\<close>.  What it does to the outside, sending a
  request upstream or dialling a tunnel, is recorded as a list of outbound actions; the
  network and the HTTP library are a \<open>network_env\<close> that answers them.
\<close>

definition DefaultProxyPort :: nat where "DefaultProxyPort = 8118"

definition hopByHopHeaders :: "string list" where
  "hopByHopHeaders = [''Connection'', ''Keep-Alive'', ''Proxy-Authenticate'', ''Proxy-Authorization'',
     ''Proxy-Connection'', ''Te'', ''Trailer'', ''Transfer-Encoding'', ''Upgrade'']"

record NetworkProxy =
  np_container :: string
  np_listenAddr :: string
  np_cache :: cache

definition NewNetworkProxy :: "string \<Rightarrow> string \<Rightarrow> NetworkProxy" where
  "NewNetworkProxy container addr = \<lparr>np_container = container, np_listenAddr = addr, np_cache = Map.empty\<rparr>"

text \<open>Headers are keyed by their canonical name.\<close>

type_synonym headers = "string \<rightharpoonup> string list"

record proxy_request =
  pr_Method :: string
  pr_Host :: string
  pr_URLHost :: string
  pr_URL :: string
  pr_Header :: headers
  pr_Body :: string

record out_request =
  or_Method :: string
  or_URL :: string
  or_Host :: string
  or_Header :: headers
  or_Body :: string

record upstream_response =
  ur_StatusCode :: nat
  ur_Header :: headers
  ur_Body :: string

datatype hijack = HijackUnsupported | HijackFailed go_error | Hijacked

text \<open>
  \<open>ne_NewRequest\<close> is \<open>http.NewRequestWithContext\<close> on a method and a URL: an error, or the
  host that the URL names, which is where \<open>RoundTrip\<close> connects.
\<close>

record network_env =
  ne_NewRequest :: "string \<Rightarrow> string \<Rightarrow> go_error + string"
  ne_RoundTrip :: "out_request \<Rightarrow> go_error + upstream_response"
  ne_Dial :: "string \<Rightarrow> go_error option"
  ne_Hijack :: hijack

datatype outbound = SentUpstream out_request | Dialled string

datatype proxy_reply =
    PxError nat string
  | PxForwarded nat headers string
  | PxTunnel
  | PxNothing

definition extractDomain :: "string \<Rightarrow> string" where
  "extractDomain hostport = (case split_host_port hostport of Inl _ \<Rightarrow> hostport | Inr (host, _) \<Rightarrow> host)"

definition join_host_port :: "string \<Rightarrow> string \<Rightarrow> string" where
  "join_host_port host port =
     (if CHR '':'' \<in> set host then ''['' @ host @ '']:'' @ port else host @ '':'' @ port)"

definition network_request :: "string \<Rightarrow> string \<Rightarrow> PermissionRequest" where
  "network_request container domain =
     \<lparr>req_Container = container, req_ResourceType = ResourceNetwork, req_ResourceID = domain,
      req_Description = ''Network access to '' @ domain\<rparr>"

definition NetworkProxy_checkPermission ::
  "'s PermissionChecker \<Rightarrow> string \<Rightarrow> NetworkProxy \<Rightarrow> 's \<Rightarrow> (go_error option \<times> Decision) \<times> NetworkProxy \<times> 's" where
  "NetworkProxy_checkPermission pc domain p s =
     (case cached_check pc (network_request (np_container p)) domain (np_cache p) s of
        (r, c, s') \<Rightarrow> (r, p\<lparr>np_cache := c\<rparr>, s'))"

definition del_headers :: "string list \<Rightarrow> headers \<Rightarrow> headers" where
  "del_headers names h = foldl (\<lambda>h n. h(n := None)) h names"

definition handleHTTP ::
  "'s PermissionChecker \<Rightarrow> network_env \<Rightarrow> proxy_request \<Rightarrow> NetworkProxy \<Rightarrow> 's \<Rightarrow>
     proxy_reply \<times> outbound list \<times> NetworkProxy \<times> 's" where
  "handleHTTP pc env r p s =
     (let host = (if pr_Host r = [] then pr_URLHost r else pr_Host r);
          domain = extractDomain host
      in case NetworkProxy_checkPermission pc domain p s of
           ((Some e, d), p', s') \<Rightarrow> (PxError 502 ''permission check failed'', [], p', s')
         | ((None, d), p', s') \<Rightarrow>
           if d \<noteq> DecisionAlways \<and> d \<noteq> DecisionOnce then (PxError 403 ''access denied'', [], p', s')
           else
             let h = del_headers hopByHopHeaders (pr_Header r)
             in (case ne_NewRequest env (pr_Method r) (pr_URL r) of
                   Inl e \<Rightarrow> (PxError 500 ''failed to create request'', [], p', s')
                 | Inr target \<Rightarrow>
                   let out = \<lparr>or_Method = pr_Method r, or_URL = pr_URL r, or_Host = target,
                              or_Header = h, or_Body = pr_Body r\<rparr>
                   in (case ne_RoundTrip env out of
                         Inl e \<Rightarrow> (PxError 502 ''upstream failed'', [SentUpstream out], p', s')
                       | Inr resp \<Rightarrow>
                         (PxForwarded (ur_StatusCode resp) (del_headers hopByHopHeaders (ur_Header resp)) (ur_Body resp),
                          [SentUpstream out], p', s'))))"

text \<open>The address a CONNECT dials: port 443 when the host has none.\<close>

definition connect_target :: "string \<Rightarrow> string" where
  "connect_target host =
     (case split_host_port host of Inl _ \<Rightarrow> join_host_port host ''443'' | Inr _ \<Rightarrow> host)"

definition handleCONNECT ::
  "'s PermissionChecker \<Rightarrow> network_env \<Rightarrow> proxy_request \<Rightarrow> NetworkProxy \<Rightarrow> 's \<Rightarrow>
     proxy_reply \<times> outbound list \<times> NetworkProxy \<times> 's" where
  "handleCONNECT pc env r p s =
     (case NetworkProxy_checkPermission pc (extractDomain (pr_Host r)) p s of
        ((Some e, d), p', s') \<Rightarrow> (PxError 502 ''permission check failed'', [], p', s')
      | ((None, d), p', s') \<Rightarrow>
        if d \<noteq> DecisionAlways \<and> d \<noteq> DecisionOnce then (PxError 403 ''access denied'', [], p', s')
        else
          let addr = connect_target (pr_Host r)
          in (case ne_Dial env addr of
                Some e \<Rightarrow> (PxError 502 ''failed to connect to upstream'', [Dialled addr], p', s')
              | None \<Rightarrow>
                (case ne_Hijack env of
                   HijackUnsupported \<Rightarrow> (PxError 500 ''hijacking not supported'', [Dialled addr], p', s')
                 | HijackFailed e \<Rightarrow> (PxNothing, [Dialled addr], p', s')
                 | Hijacked \<Rightarrow> (PxTunnel, [Dialled addr], p', s'))))"

definition NetworkProxy_ServeHTTP ::
  "'s PermissionChecker \<Rightarrow> network_env \<Rightarrow> proxy_request \<Rightarrow> NetworkProxy \<Rightarrow> 's \<Rightarrow>
     proxy_reply \<times> outbound list \<times> NetworkProxy \<times> 's" where
  "NetworkProxy_ServeHTTP pc env r p s =
     (if pr_Method r = ''CONNECT'' then handleCONNECT pc env r p s else handleHTTP pc env r p s)"

definition ProxyEnvVars :: "string \<Rightarrow> string \<Rightarrow> string list" where
  "ProxyEnvVars proxyAddr daemonSocketPath =
     (let proxyURL = ''http://'' @ proxyAddr;
          noProxy = ''localhost,127.0.0.1,'' @ daemonSocketPath
      in [''HTTP_PROXY='' @ proxyURL, ''HTTPS_PROXY='' @ proxyURL, ''http_proxy='' @ proxyURL,
          ''https_proxy='' @ proxyURL, ''NO_PROXY='' @ noProxy, ''no_proxy='' @ noProxy])"

section \<open>Mediation\<close>

text \<open>The domain that the permission check of a request is about.\<close>

definition checked_domain :: "proxy_request \<Rightarrow> string" where
  "checked_domain r =
     extractDomain (if pr_Method r = ''CONNECT'' \<or> pr_Host r \<noteq> [] then pr_Host r else pr_URLHost r)"

lemma ServeHTTP_checks:
  assumes "NetworkProxy_ServeHTTP pc env r p s = (rep, out, p', s')"
  shows "\<exists>e d. NetworkProxy_checkPermission pc (checked_domain r) p s = ((e, d), p', s') \<and>
    (out \<noteq> [] \<longrightarrow> e = None \<and> grants d) \<and> (\<not> grants d \<or> e \<noteq> None \<longrightarrow> (\<exists>st m. rep = PxError st m))"
  using assms
  by (cases "pr_Method r = ''CONNECT''")
    (auto simp: NetworkProxy_ServeHTTP_def handleHTTP_def handleCONNECT_def checked_domain_def grants_def Let_def
      split: prod.splits option.splits if_splits sum.splits hijack.splits)

lemma checkPermission_cached:
  "NetworkProxy_checkPermission pc domain p s = (r, p', s') \<Longrightarrow>
   cached_check pc (network_request (np_container p)) domain (np_cache p) s = (r, np_cache p', s') \<and>
   np_container p' = np_container p"
  by (auto simp: NetworkProxy_checkPermission_def split: prod.splits)

lemma req_key_network [simp]: "req_key (network_request c i) = ruleKey ResourceNetwork i"
  by (simp add: network_request_def)

abbreviation direct_checker :: "'p prompter \<Rightarrow> yaml_codec \<Rightarrow> 'p broker PermissionChecker" where
  "direct_checker pr y \<equiv> \<lparr>pc_Check = DirectChecker_Check, pc_Request = DirectChecker_Request pr y\<rparr>"

abbreviation socket_checker :: "transport \<Rightarrow> 'p prompter \<Rightarrow> yaml_codec \<Rightarrow> 'p broker PermissionChecker" where
  "socket_checker tr pr y \<equiv> \<lparr>pc_Check = Client_Check tr, pc_Request = Client_Request tr pr y\<rparr>"

text \<open>A proxy whose cache agrees with the rules of the broker it asks in process.\<close>

definition proxy_coherent :: "NetworkProxy \<Rightarrow> 'p broker \<Rightarrow> bool" where
  "proxy_coherent p b \<longleftrightarrow> cache_coherent bk_rules req_key (network_request (np_container p)) (np_cache p) b"

lemma network_mediated:
  assumes "proxy_coherent p b"
    and "NetworkProxy_ServeHTTP (direct_checker pr y) env r p b = (rep, out, p', b')"
  shows "proxy_coherent p' b' \<and> proxy_coherent (NewNetworkProxy c a) b \<and>
    (out = [] \<or> bk_rules b' (ruleKey ResourceNetwork (checked_domain r)) = Some DecisionAlways \<or>
     fst (pr (network_request (np_container p) (checked_domain r)) (bk_prompt b)) = (None, DecisionOnce) \<and>
       np_cache p' = np_cache p)"
proof -
  let ?mk = "network_request (np_container p)"
  obtain e d where ck: "NetworkProxy_checkPermission (direct_checker pr y) (checked_domain r) p b = ((e, d), p', b')"
    and out: "out \<noteq> [] \<longrightarrow> e = None \<and> grants d"
    using ServeHTTP_checks [OF assms(2)] by blast
  have cc: "direct.check_cached pr y ?mk (checked_domain r) (np_cache p) b = ((e, d), np_cache p', b')"
    and c: "np_container p' = np_container p"
    using checkPermission_cached [OF ck] by simp_all
  have co: "direct.coherent ?mk (np_cache p) b" using assms(1) by (simp add: proxy_coherent_def)
  have coh: "proxy_coherent p' b'"
    using direct.check_cached_coherent [OF co cc] by (simp add: proxy_coherent_def c)
  show ?thesis
  proof (cases "out = []")
    case False
    with out have g: "e = None" "grants d" by simp_all
    show ?thesis
    proof (cases "final d")
      case True
      then show ?thesis
        using direct.check_cached_final [OF co cc [unfolded g(1)] True] coh grants_final [OF g(2) True]
        by (simp add: proxy_coherent_def NewNetworkProxy_def cache_coherent_def)
    next
      case nf: False
      obtain q where q: "np_cache p' = np_cache p"
        "fst (DirectChecker_Request pr y (?mk (checked_domain r)) b) = Inr q" "resp_Decision q = d"
        using direct.check_cached_once [OF cc [unfolded g(1)] co nf] by blast
      have "d = DecisionOnce" using g(2) nf by (auto simp: grants_def final_def)
      then have "bk_rules b (req_key (?mk (checked_domain r))) \<noteq> Some DecisionAlways"
        using direct.Request_kept [of b "?mk (checked_domain r)" DecisionAlways pr y] q by auto
      then show ?thesis using coh grant_consent [OF q(2)] g(2) q \<open>d = DecisionOnce\<close>
        by (simp add: proxy_coherent_def NewNetworkProxy_def cache_coherent_def)
    qed
  qed (use coh in \<open>simp add: proxy_coherent_def NewNetworkProxy_def cache_coherent_def\<close>)
qed

text \<open>
  C2: complete mediation by the daemon's proxies: whatever a container sends, if anything
  leaves the host then the domain of the request has an ALWAYS rule afterwards or the
  user has just answered ONCE for it; the cache stays in agreement with the rules, and a
  new proxy's empty cache agrees with them.
\<close>

theorem network_mediation:
  assumes "proxy_coherent p b"
    and "NetworkProxy_ServeHTTP (direct_checker pr y) env r p b = (rep, out, p', b')"
  shows "proxy_coherent p' b' \<and> proxy_coherent (NewNetworkProxy c a) b \<and>
    (out = [] \<or> bk_rules b' (ruleKey ResourceNetwork (checked_domain r)) = Some DecisionAlways \<or>
     fst (pr (network_request (np_container p) (checked_domain r)) (bk_prompt b)) = (None, DecisionOnce) \<and>
       np_cache p' = np_cache p)"
  by (rule network_mediated [OF assms])

definition demo_env :: network_env where
  "demo_env = \<lparr>ne_NewRequest = (\<lambda>m u. Inr ''api.test''),
     ne_RoundTrip = (\<lambda>q. Inr \<lparr>ur_StatusCode = 200, ur_Header = Map.empty, ur_Body = ''hi''\<rparr>),
     ne_Dial = (\<lambda>a. None), ne_Hijack = Hijacked\<rparr>"

definition demo_get :: proxy_request where
  "demo_get = \<lparr>pr_Method = ''GET'', pr_Host = ''api.test:80'', pr_URLHost = ''api.test:80'',
     pr_URL = ''http://api.test:80/'', pr_Header = Map.empty, pr_Body = []\<rparr>"

theorem network_mediation_witness:
  "\<exists>out p' b'. NetworkProxy_ServeHTTP (direct_checker (\<lambda>r s. ((None, DecisionAlways), s)) one_rule_codec) demo_env demo_get
       (NewNetworkProxy ''c'' ''a'') (demo_broker ()) = (PxForwarded 200 Map.empty ''hi'', out, p', b') \<and> out \<noteq> [] \<and>
     bk_rules b' (ruleKey ResourceNetwork ''api.test'') = Some DecisionAlways"
proof -
  let ?pr = "\<lambda>r s. ((None, DecisionAlways), s :: unit)"
  let ?s = "NetworkProxy_ServeHTTP (direct_checker ?pr one_rule_codec) demo_env demo_get
    (NewNetworkProxy ''c'' ''a'') (demo_broker ())"
  have dom: "checked_domain demo_get = ''api.test''" by code_simp
  have dom2: "extractDomain ''api.test:80'' = ''api.test''" by code_simp
  have del: "del_headers hopByHopHeaders Map.empty = Map.empty"
    by (simp add: del_headers_def hopByHopHeaders_def)
  obtain rep out p' b' where s: "?s = (rep, out, p', b')" by (metis prod_cases4)
  have r: "rep = PxForwarded 200 Map.empty ''hi'' \<and> out \<noteq> []"
    using s by (auto simp: NetworkProxy_ServeHTTP_def demo_get_def handleHTTP_def Let_def dom2 demo_env_def del
        NetworkProxy_checkPermission_def cached_check_def NewNetworkProxy_def DirectChecker_Check_def wl_Check_def
        demo_broker_def NewWhitelistStore_def DirectChecker_Request_def ask_user_def split: prod.splits)
  have c: "proxy_coherent (NewNetworkProxy ''c'' ''a'') (demo_broker ())"
    by (simp add: proxy_coherent_def NewNetworkProxy_def cache_coherent_def)
  have "bk_rules b' (ruleKey ResourceNetwork ''api.test'') = Some DecisionAlways"
    using network_mediation [OF c s] r dom by simp
  with s r show ?thesis by blast
qed

text \<open>
  C24: a denied domain is unreachable: while its rule is DENY, a request for it sends
  nothing out, is answered with an error and leaves the rule as it is, over the daemon's
  socket as well and whatever the connection to the daemon does.
\<close>

theorem denied_domain_blocked:
  assumes "cache_coherent bk_rules wire_key (network_request (np_container p)) (np_cache p) b"
    and "bk_rules b (wire_key (network_request (np_container p) (checked_domain r))) = Some DecisionDeny"
    and "NetworkProxy_ServeHTTP (socket_checker tr pr y) env r p b = (rep, out, p', b')"
  shows "out = [] \<and> (\<exists>st m. rep = PxError st m) \<and>
    bk_rules b' (wire_key (network_request (np_container p) (checked_domain r))) = Some DecisionDeny"
proof -
  let ?mk = "network_request (np_container p)"
  obtain e d where ck: "NetworkProxy_checkPermission (socket_checker tr pr y) (checked_domain r) p b = ((e, d), p', b')"
    and out: "out \<noteq> [] \<longrightarrow> e = None \<and> grants d" and rep: "\<not> grants d \<or> e \<noteq> None \<longrightarrow> (\<exists>st m. rep = PxError st m)"
    using ServeHTTP_checks [OF assms(3)] by blast
  have cc: "over_socket.check_cached tr pr y ?mk (checked_domain r) (np_cache p) b = ((e, d), np_cache p', b')"
    using checkPermission_cached [OF ck] by simp
  have "d = DecisionDeny" by (rule over_socket.check_cached_denied [OF assms(1) cc assms(2)])
  moreover have "bk_rules b' (wire_key (?mk (checked_domain r))) = Some DecisionDeny"
    using cc by (cases rule: over_socket.check_cached_cases)
      (simp_all add: assms(2) over_socket.Request_keeps_final [OF assms(2)])
  ultimately show ?thesis using out rep by auto
qed

definition denied_broker :: "unit broker" where
  "denied_broker = (demo_broker ())\<lparr>bk_whitelist :=
     wl_Set ResourceNetwork ''api.test'' DecisionDeny (NewWhitelistStore ''/w'')\<rparr>"

theorem denied_domain_blocked_witness:
  "\<exists>st m p' b'. NetworkProxy_ServeHTTP
     (socket_checker \<lparr>tr_dial = None, tr_recv = None\<rparr> AutoDenyPrompter_Prompt one_rule_codec) demo_env demo_get
     (NewNetworkProxy ''c'' ''a'') denied_broker = (PxError st m, [], p', b')"
proof -
  let ?p = "NewNetworkProxy ''c'' ''a''"
  obtain rep out p' b' where s: "NetworkProxy_ServeHTTP
     (socket_checker \<lparr>tr_dial = None, tr_recv = None\<rparr> AutoDenyPrompter_Prompt one_rule_codec) demo_env demo_get
     ?p denied_broker = (rep, out, p', b')" by (metis prod_cases4)
  have dom: "checked_domain demo_get = ''api.test''" by code_simp
  have k: "json_text ''network'' = ''network''" "json_text ''api.test'' = ''api.test''" by code_simp+
  have "cache_coherent bk_rules wire_key (network_request (np_container ?p)) (np_cache ?p) denied_broker"
    by (simp add: NewNetworkProxy_def cache_coherent_def)
  moreover have "bk_rules denied_broker (wire_key (network_request (np_container ?p) (checked_domain demo_get))) =
      Some DecisionDeny"
    by (simp add: dom wire_req_def network_request_def denied_broker_def k [folded ResourceNetwork_def])
  ultimately show ?thesis using denied_domain_blocked [OF _ _ s] s by blast
qed

text \<open>
  C39: what the table decides is not recorded: a request for a domain whose rule is ALWAYS or
  DENY leaves the broker as it is, the audit log included, although the request may be sent on.
  All traffic to the domains that a specification lists thus goes unrecorded.
\<close>

theorem table_hits_unaudited:
  assumes "bk_rules b (ruleKey ResourceNetwork (checked_domain r)) = Some d" and "final d"
    and "NetworkProxy_ServeHTTP (direct_checker pr y) env r p b = (rep, out, p', b')"
  shows "b' = b"
proof -
  obtain e d' where ck: "NetworkProxy_checkPermission (direct_checker pr y) (checked_domain r) p b = ((e, d'), p', b')"
    using ServeHTTP_checks [OF assms(3)] by blast
  show ?thesis using checkPermission_cached [OF ck] assms(1,2)
    by (auto simp: cached_check_def DirectChecker_Check_def wl_Check_def network_request_def final_def split: option.splits)
qed

definition allowed_broker :: "unit broker" where
  "allowed_broker = (demo_broker ())\<lparr>bk_whitelist :=
     wl_Set ResourceNetwork ''api.test'' DecisionAlways (NewWhitelistStore ''/w'')\<rparr>"

theorem table_hits_unaudited_witness:
  "\<exists>out p'. NetworkProxy_ServeHTTP (direct_checker AutoDenyPrompter_Prompt one_rule_codec) demo_env demo_get
     (NewNetworkProxy ''c'' ''a'') allowed_broker = (PxForwarded 200 Map.empty ''hi'', out, p', allowed_broker) \<and> out \<noteq> []"
proof -
  obtain rep out p' b' where s: "NetworkProxy_ServeHTTP (direct_checker AutoDenyPrompter_Prompt one_rule_codec) demo_env demo_get
     (NewNetworkProxy ''c'' ''a'') allowed_broker = (rep, out, p', b')" by (metis prod_cases4)
  have dom: "checked_domain demo_get = ''api.test''" "extractDomain ''api.test:80'' = ''api.test''" by code_simp+
  have del: "del_headers hopByHopHeaders Map.empty = Map.empty" by (simp add: del_headers_def hopByHopHeaders_def)
  have "bk_rules allowed_broker (ruleKey ResourceNetwork (checked_domain demo_get)) = Some DecisionAlways"
    by (simp add: dom allowed_broker_def)
  then have "b' = allowed_broker" using table_hits_unaudited [OF _ _ s] by (simp add: final_def)
  moreover have "rep = PxForwarded 200 Map.empty ''hi'' \<and> out \<noteq> []"
    using s by (auto simp: NetworkProxy_ServeHTTP_def demo_get_def handleHTTP_def Let_def dom(2) demo_env_def del
        NetworkProxy_checkPermission_def cached_check_def NewNetworkProxy_def DirectChecker_Check_def wl_Check_def
        allowed_broker_def split: prod.splits)
  ultimately show ?thesis using s by blast
qed

section \<open>The host that is contacted is the host that was checked\<close>

lemma split_join_host_port:
  assumes "CHR ''['' \<notin> set h" and "CHR '']'' \<notin> set h" and "CHR '':'' \<notin> set port"
    and "CHR ''['' \<notin> set port" and "CHR '']'' \<notin> set port"
  shows "split_host_port (join_host_port h port) = Inr (h, port)"
proof (cases "CHR '':'' \<in> set h")
  case True
  have l: "last_index_byte (CHR '':'') (''['' @ h @ '']:'' @ port) = Some (length h + 2)"
    using last_index_byte_append [of "CHR '':''" port "''['' @ h @ '']''"] assms(3) by simp
  have r: "index_byte (CHR '']'') (''['' @ h @ '']:'' @ port) = Some (length h + 1)"
    using index_byte_append [of "CHR '']''" "''['' @ h" "'':'' @ port"] assms(2) by simp
  show ?thesis
    using True assms by (simp add: join_host_port_def split_host_port_def l [simplified] r [simplified])
next
  case False
  have l: "last_index_byte (CHR '':'') (h @ '':'' @ port) = Some (length h)"
    using last_index_byte_append [of "CHR '':''" port h] assms(3) by simp
  have "\<not> has_prefix (h @ '':'' @ port) ''[''"
    using assms(1) by (cases h) auto
  then show ?thesis
    using False assms by (simp add: join_host_port_def split_host_port_def l [simplified])
qed

text \<open>
  A CONNECT dials exactly the domain that was checked: the address is the requested
  one, with port 443 added when it has none (also for an IPv6 address without brackets),
  and its host part is the checked domain.
\<close>

theorem connect_dials_checked_domain:
  assumes "CHR ''['' \<notin> set (pr_Host r) \<or> (\<exists>h p. split_host_port (pr_Host r) = Inr (h, p))"
    and "CHR '']'' \<notin> set (pr_Host r) \<or> (\<exists>h p. split_host_port (pr_Host r) = Inr (h, p))"
    and "handleCONNECT pc env r p s = (rep, out, p', s')" and "Dialled addr \<in> set out"
  shows "extractDomain addr = extractDomain (pr_Host r) \<and>
    (\<exists>d. NetworkProxy_checkPermission pc (extractDomain (pr_Host r)) p s = ((None, d), p', s') \<and> grants d)"
proof -
  have a: "addr = connect_target (pr_Host r)"
    and d: "\<exists>d. NetworkProxy_checkPermission pc (extractDomain (pr_Host r)) p s = ((None, d), p', s') \<and> grants d"
    using assms(3,4) by (auto simp: handleCONNECT_def grants_def Let_def
        split: prod.splits option.splits if_splits hijack.splits)
  have "extractDomain (connect_target (pr_Host r)) = extractDomain (pr_Host r)"
  proof (cases "split_host_port (pr_Host r)")
    case (Inl e)
    then have "split_host_port (join_host_port (pr_Host r) ''443'') = Inr (pr_Host r, ''443'')"
      using assms(1,2) by (intro split_join_host_port) auto
    then show ?thesis by (simp add: connect_target_def extractDomain_def Inl)
  qed (auto simp: connect_target_def)
  with a d show ?thesis by simp
qed

theorem connect_dials_checked_domain_witness:
  "extractDomain (connect_target ''::1'') = ''::1''"
proof -
  let ?r = "demo_get\<lparr>pr_Method := ''CONNECT'', pr_Host := ''::1''\<rparr>"
  let ?pc = "\<lparr>pc_Check = \<lambda>r s. (Inr \<lparr>resp_Decision = DecisionAlways, resp_Reason = []\<rparr>, s),
    pc_Request = \<lambda>r s. (Inl [], s)\<rparr> :: unit PermissionChecker"
  have dom: "extractDomain ''::1'' = ''::1''" by code_simp
  obtain p' s' where h: "handleCONNECT ?pc demo_env ?r (NewNetworkProxy ''c'' ''a'') () =
      (PxTunnel, [Dialled (connect_target ''::1'')], p', s')"
    by (auto simp: handleCONNECT_def NetworkProxy_checkPermission_def cached_check_def NewNetworkProxy_def demo_env_def Let_def)
  from connect_dials_checked_domain [OF _ _ h, of "connect_target ''::1''"] show ?thesis
    by (simp add: dom)
qed

text \<open>
  C25: a plain request goes upstream to the host that was checked, provided that the HTTP
  server fills in \<open>Host\<close> from the URL when the URL names a host and that the outgoing
  request's URL, printed and parsed again, names the same host; and it carries none of
  the hop-by-hop headers.
\<close>

theorem forwarded_host_is_checked:
  assumes "pr_URLHost r \<noteq> [] \<longrightarrow> pr_Host r = pr_URLHost r"
    and "\<And>t. ne_NewRequest env (pr_Method r) (pr_URL r) = Inr t \<Longrightarrow> t = pr_URLHost r"
    and "handleHTTP pc env r p s = (rep, out, p', s')" and "SentUpstream q \<in> set out" and "or_Host q \<noteq> []"
  shows "\<exists>d. NetworkProxy_checkPermission pc (extractDomain (or_Host q)) p s = ((None, d), p', s') \<and> grants d \<and>
    (\<forall>n\<in>set hopByHopHeaders. or_Header q n = None)"
proof -
  have del: "del_headers ns h n = (if n \<in> set ns then None else h n)" for ns h n
    by (induction ns arbitrary: h) (auto simp: del_headers_def)
  show ?thesis using assms
    by (auto simp: handleHTTP_def grants_def Let_def del split: prod.splits option.splits if_splits sum.splits)
qed

theorem forwarded_host_is_checked_witness:
  "\<exists>q out p' s'. handleHTTP \<lparr>pc_Check = \<lambda>r s. (Inr \<lparr>resp_Decision = DecisionAlways, resp_Reason = []\<rparr>, s :: unit),
      pc_Request = \<lambda>r s. (Inl [], s)\<rparr> demo_env
      (demo_get\<lparr>pr_Host := ''api.test'', pr_URLHost := ''api.test'', pr_Header := [''Te'' \<mapsto> [''trailers'']]\<rparr>)
      (NewNetworkProxy ''c'' ''a'') () = (PxForwarded 200 Map.empty ''hi'', out, p', s') \<and>
    SentUpstream q \<in> set out \<and> or_Header q ''Te'' = None"
proof -
  let ?r = "demo_get\<lparr>pr_Host := ''api.test'', pr_URLHost := ''api.test'', pr_Header := [''Te'' \<mapsto> [''trailers'']]\<rparr>"
  let ?pc = "\<lparr>pc_Check = \<lambda>r s. (Inr \<lparr>resp_Decision = DecisionAlways, resp_Reason = []\<rparr>, s :: unit),
      pc_Request = \<lambda>r s. (Inl [], s)\<rparr>"
  have del: "del_headers hopByHopHeaders Map.empty = Map.empty"
    by (simp add: del_headers_def hopByHopHeaders_def)
  obtain q p' s' where h: "handleHTTP ?pc demo_env ?r (NewNetworkProxy ''c'' ''a'') () =
      (PxForwarded 200 Map.empty ''hi'', [SentUpstream q], p', s')" and q: "or_Host q = ''api.test''"
    by (auto simp: handleHTTP_def NetworkProxy_checkPermission_def cached_check_def NewNetworkProxy_def
        demo_env_def demo_get_def del Let_def)
  have "\<forall>n\<in>set hopByHopHeaders. or_Header q n = None"
    using forwarded_host_is_checked [OF _ _ h, of q] q by (auto simp: demo_get_def demo_env_def)
  then have "or_Header q ''Te'' = None" by (simp add: hopByHopHeaders_def)
  with h show ?thesis by force
qed

end
