(* ===== verification/Concurrent_Checks.thy ===== *)
theory Concurrent_Checks
  imports Network_Proxy
begin

text \<open>
  Permission checks that run at the same time.  Every request to a network proxy and every
  request on the daemon's socket is served by a goroutine of its own, and \<open>checkPermission\<close> of
  \<open>proxy/network.go\<close>, \<open>DirectChecker.Request\<close> of \<open>daemon/direct_checker.go\<close> and \<open>handleRequest\<close> of
  \<open>daemon/server.go\<close> hold locks only around single accesses to the cache and to the rule table.
  A check is therefore a thread with one action per critical section, and a run is any
  interleaving of such threads over the caches of the proxies and the broker they share.

  Two actions take no exclusive lock in the code.  A prompt is the action of its return: prompts
  that overlap read the same terminal, so that which of them gets which line is open, and the
  theorems hold for every prompter, that is, for every sequence of outcomes in the order of the
  returns.  A save is one action as well: saves that overlap are ordered by their last write,
  and only the file depends on it.
\<close>

section \<open>Threads\<close>

text \<open>
  Where a check stands: before the look-up in the cache, before \<open>checker.Check\<close>, before the look-up
  of \<open>Request\<close> or \<open>handleRequest\<close>, before the prompt, before \<open>whitelist.Set\<close>, before \<open>whitelist.Save\<close>,
  before the entry of the audit log, before the decision is put into the cache, and at its end.
\<close>

datatype phase =
    PCache
  | PCheck
  | PLookup
  | PPrompt
  | PSet Decision
  | PSave Decision
  | PAudit Decision string
  | PStore Decision
  | PDone Decision

text \<open>Who asks: the proxy of a container for a domain, or a client of the socket.\<close>

datatype check_origin = OnProxy string string | OnSocket PermissionRequest

record check_thread =
  th_origin :: check_origin
  th_phase :: phase

fun origin_req :: "check_origin \<Rightarrow> PermissionRequest" where
  "origin_req (OnProxy c i) = network_request c i"
| "origin_req (OnSocket req) = req"

fun origin_start :: "check_origin \<Rightarrow> phase" where
  "origin_start (OnProxy c i) = PCache"
| "origin_start (OnSocket req) = PLookup"

abbreviation th_req :: "check_thread \<Rightarrow> PermissionRequest" where
  "th_req t \<equiv> origin_req (th_origin t)"

abbreviation th_key :: "check_thread \<Rightarrow> string" where
  "th_key t \<equiv> req_key (th_req t)"

text \<open>The caches of the proxies, by container, and the broker.\<close>

type_synonym 'p shared = "(string \<Rightarrow> cache) \<times> 'p broker"

fun store_decision :: "check_origin \<Rightarrow> Decision \<Rightarrow> (string \<Rightarrow> cache) \<Rightarrow> string \<Rightarrow> cache" where
  "store_decision (OnProxy c i) d cs = (if d = DecisionAlways \<or> d = DecisionDeny then cs(c := (cs c)(i \<mapsto> d)) else cs)"
| "store_decision (OnSocket req) d cs = cs"

definition thread_step :: "'p prompter \<Rightarrow> yaml_codec \<Rightarrow> check_thread \<Rightarrow> 'p shared \<Rightarrow> phase \<times> 'p shared" where
  "thread_step pr y t s =
     (case s of (cs, b) \<Rightarrow>
      case th_phase t of
         PCache \<Rightarrow>
           (case th_origin t of
              OnProxy c i \<Rightarrow> (case cs c i of Some d \<Rightarrow> PDone d | None \<Rightarrow> PCheck)
            | OnSocket _ \<Rightarrow> PLookup, cs, b)
       | PCheck \<Rightarrow>
         (case wl_Check (req_ResourceType (th_req t)) (req_ResourceID (th_req t)) (bk_whitelist b) of
            Some d \<Rightarrow> if d = DecisionAlways \<or> d = DecisionDeny then PStore d else PLookup
          | None \<Rightarrow> PLookup, cs, b)
       | PLookup \<Rightarrow>
         (case wl_Check (req_ResourceType (th_req t)) (req_ResourceID (th_req t)) (bk_whitelist b) of
            Some d \<Rightarrow> if d = DecisionAlways \<or> d = DecisionDeny then PAudit d ''whitelist'' else PPrompt
          | None \<Rightarrow> PPrompt, cs, b)
       | PPrompt \<Rightarrow>
         (case pr (th_req t) (bk_prompt b) of
            ((err, d0), p') \<Rightarrow>
              let d = (if err \<noteq> None then DecisionDeny else d0)
              in (if d = DecisionAlways \<or> d = DecisionDeny then PSet d else PAudit d ''user'', cs, b\<lparr>bk_prompt := p'\<rparr>))
       | PSet d \<Rightarrow>
         (PSave d, cs, b\<lparr>bk_whitelist := wl_Set (req_ResourceType (th_req t)) (req_ResourceID (th_req t)) d (bk_whitelist b)\<rparr>)
       | PSave d \<Rightarrow> (PAudit d ''user'', cs, b\<lparr>bk_host := snd (wl_Save y (bk_whitelist b) (bk_host b))\<rparr>)
       | PAudit d src \<Rightarrow>
         (case th_origin t of OnProxy _ _ \<Rightarrow> PStore d | OnSocket _ \<Rightarrow> PDone d, cs, audit_decision (th_req t) d src b)
       | PStore d \<Rightarrow> (PDone d, store_decision (th_origin t) d cs, b)
       | PDone d \<Rightarrow> (PDone d, cs, b))"

text \<open>A step of a system of threads: the \<open>i\<close>-th one acts, if there is one.\<close>

type_synonym 'p checks = "check_thread list \<times> 'p shared"

definition checks_step :: "'p prompter \<Rightarrow> yaml_codec \<Rightarrow> nat \<Rightarrow> 'p checks \<Rightarrow> 'p checks" where
  "checks_step pr y i st =
     (case st of (ts, s) \<Rightarrow>
      if i < length ts
      then (case thread_step pr y (ts ! i) s of (ph, s') \<Rightarrow> (ts[i := (ts ! i)\<lparr>th_phase := ph\<rparr>], s'))
      else (ts, s))"

fun checks_run :: "'p prompter \<Rightarrow> yaml_codec \<Rightarrow> nat list \<Rightarrow> 'p checks \<Rightarrow> 'p checks" where
  "checks_run pr y [] st = st"
| "checks_run pr y (i # sched) st = checks_run pr y sched (checks_step pr y i st)"

text \<open>The answers without an error that prompts got in a run, with the requests they were about.\<close>

definition answer_of :: "'p prompter \<Rightarrow> nat \<Rightarrow> 'p checks \<Rightarrow> (nat \<times> PermissionRequest \<times> Decision) set" where
  "answer_of pr i st =
     (case st of (ts, cs, b) \<Rightarrow>
      if i < length ts \<and> th_phase (ts ! i) = PPrompt
      then (case fst (pr (th_req (ts ! i)) (bk_prompt b)) of (None, d) \<Rightarrow> {(i, th_req (ts ! i), d)} | _ \<Rightarrow> {})
      else {})"

fun answers :: "'p prompter \<Rightarrow> yaml_codec \<Rightarrow> nat list \<Rightarrow> 'p checks \<Rightarrow> (nat \<times> PermissionRequest \<times> Decision) set" where
  "answers pr y [] st = {}"
| "answers pr y (i # sched) st = answer_of pr i st \<union> answers pr y sched (checks_step pr y i st)"

text \<open>A prompter with prepared answers.\<close>

definition prepared :: "Decision list prompter" where
  "prepared r ds = (case ds of [] \<Rightarrow> ((Some ''no input'', DecisionDeny), []) | d # ds' \<Rightarrow> ((None, d), ds'))"

section \<open>One check at a time\<close>

text \<open>A thread that runs alone, in eight actions at most, until it is done.\<close>

fun alone :: "'p prompter \<Rightarrow> yaml_codec \<Rightarrow> nat \<Rightarrow> check_thread \<Rightarrow> 'p shared \<Rightarrow> phase \<times> 'p shared" where
  "alone pr y 0 t s = (th_phase t, s)"
| "alone pr y (Suc n) t s = (case thread_step pr y t s of (ph, s') \<Rightarrow> alone pr y n (t\<lparr>th_phase := ph\<rparr>) s')"

abbreviation thread_at :: "check_origin \<Rightarrow> phase \<Rightarrow> check_thread" where
  "thread_at og ph \<equiv> \<lparr>th_origin = og, th_phase = ph\<rparr>"

abbreviation thread :: "string \<Rightarrow> string \<Rightarrow> phase \<Rightarrow> check_thread" where
  "thread c i ph \<equiv> thread_at (OnProxy c i) ph"

lemma alone_done: "alone pr y n (thread_at og (PDone d)) s = (PDone d, s)"
  by (induction n) (simp_all add: thread_step_def Let_def split: prod.splits)

lemma alone_store:
  "alone pr y (Suc n) (thread_at og (PStore d)) (cs, b) = (PDone d, store_decision og d cs, b)"
  by (simp add: thread_step_def alone_done Let_def)

lemma alone_audit:
  "alone pr y (Suc (Suc n)) (thread_at og (PAudit d src)) (cs, b) =
     (PDone d, store_decision og d cs, audit_decision (origin_req og) d src b)"
  by (cases og) (simp_all add: thread_step_def alone_done Let_def)

lemma alone_prompt:
  "ask_user pr y (origin_req og) b = (d, b') \<Longrightarrow>
   alone pr y (Suc (Suc (Suc (Suc (Suc n))))) (thread_at og PPrompt) (cs, b) = (PDone d, store_decision og d cs, b')"
  by (cases og) (auto simp: ask_user_def persist_decision_def thread_step_def alone_done Let_def split: prod.splits if_splits)

lemma alone_lookup:
  "DirectChecker_Request pr y (origin_req og) b = (Inr q, b') \<Longrightarrow>
   alone pr y (Suc (Suc (Suc (Suc (Suc (Suc n)))))) (thread_at og PLookup) (cs, b) =
     (PDone (resp_Decision q), store_decision og (resp_Decision q) cs, b')"
  unfolding alone.simps(2) [of _ _ "Suc (Suc (Suc (Suc (Suc n))))"]
  by (auto simp: thread_step_def DirectChecker_Request_def wl_Check_def Let_def alone_audit alone_prompt
      simp del: alone.simps split: option.splits prod.splits if_splits)

text \<open>A request on the socket that nothing interrupts is \<open>handleRequest\<close>.\<close>

lemma lone_request_is_handleRequest:
  assumes "handleRequest pr y \<lparr>hr_Method = ''POST'', hr_Body = Inr req\<rparr> b = (rep, b')"
  shows "\<exists>q. rep = OK q \<and> alone pr y 6 (thread_at (OnSocket req) PLookup) (cs, b) = (PDone (resp_Decision q), cs, b')"
proof -
  obtain q b1 where rq: "DirectChecker_Request pr y req b = (Inr q, b1)" using direct_succeeds(2) by blast
  then have "rep = OK q" "b1 = b'"
    using assms by (auto simp: handleRequest_def DirectChecker_Request_def ask_user_def Let_def split: option.splits prod.splits if_splits)
  moreover have "(6 :: nat) = Suc (Suc (Suc (Suc (Suc (Suc 0)))))" by simp
  ultimately show ?thesis using alone_lookup [of pr y "OnSocket req" b q b' 0 cs] rq
    by (simp only: origin_req.simps store_decision.simps) blast
qed

text \<open>
  A check that nothing interrupts is the sequential \<open>checkPermission\<close> over the in-process checker:
  after at most eight actions it has the same decision, and left the same cache and the same
  broker.  The actions of a thread are thus the code's, in its order.
\<close>

theorem lone_check_is_checkPermission:
  assumes "NetworkProxy_checkPermission (direct_checker pr y) i p b = ((e, d), p', b')" and "cs (np_container p) = np_cache p"
  shows "e = None \<and> alone pr y 8 (thread (np_container p) i PCache) (cs, b) = (PDone d, cs(np_container p := np_cache p'), b')"
proof -
  let ?c = "np_container p" and ?r = "network_request (np_container p) i"
  have fu: "cs(?c := np_cache p) = cs" using assms(2) by (simp add: fun_upd_idem)
  have eight: "(8 :: nat) = Suc (Suc (Suc (Suc (Suc (Suc (Suc (Suc 0)))))))" by simp
  have cc: "cached_check (direct_checker pr y) (network_request ?c) i (np_cache p) b = ((e, d), np_cache p', b')"
    using assms(1) by (auto simp: NetworkProxy_checkPermission_def split: prod.splits)
  obtain q b1 where rq: "DirectChecker_Request pr y ?r b = (Inr q, b1)" using direct_succeeds(2) by blast
  show ?thesis
  proof (cases "np_cache p i")
    case (Some d0)
    with cc have "e = None" "d0 = d" "np_cache p' = np_cache p" "b' = b" by (simp_all add: cached_check_hit)
    with Some show ?thesis unfolding eight by (simp add: thread_step_def assms(2) alone_done fu)
  next
    case None
    then have first: "alone pr y 8 (thread ?c i PCache) (cs, b) = alone pr y 7 (thread ?c i PCheck) (cs, b)"
      unfolding eight by (simp add: thread_step_def assms(2) eval_nat_numeral)
    show ?thesis
    proof (cases "\<exists>d1. bk_rules b (ruleKey ResourceNetwork i) = Some d1 \<and> final d1")
      case True
      then obtain d1 where d1: "bk_rules b (ruleKey ResourceNetwork i) = Some d1" "final d1" by blast
      with cc None have "e = None" "d = d1" "np_cache p' = (np_cache p)(i \<mapsto> d1)" "b' = b"
        by (auto simp: cached_check_def DirectChecker_Check_def wl_Check_def network_request_def final_def)
      moreover have "alone pr y 7 (thread ?c i PCheck) (cs, b) = alone pr y (Suc 5) (thread ?c i (PStore d1)) (cs, b)"
        using d1 by (simp add: eval_nat_numeral thread_step_def wl_Check_def network_request_def final_def)
      ultimately show ?thesis using d1(2) assms(2)
        unfolding first by (simp only: alone_store) (auto simp: final_def)
    next
      case False
      with cc None rq have "e = None" "d = resp_Decision q" "np_cache p' = (if final d then (np_cache p)(i \<mapsto> d) else np_cache p)" "b' = b1"
        by (auto simp: cached_check_def DirectChecker_Check_def wl_Check_def network_request_def final_def split: option.splits if_splits)
      moreover have "alone pr y 7 (thread ?c i PCheck) (cs, b) = alone pr y (Suc (Suc (Suc (Suc (Suc (Suc 0)))))) (thread ?c i PLookup) (cs, b)"
        using False by (auto simp: eval_nat_numeral thread_step_def wl_Check_def network_request_def final_def split: option.splits)
      ultimately show ?thesis using assms(2) fu
        unfolding first by (simp only: alone_lookup [of _ _ "OnProxy ?c i", unfolded origin_req.simps, OF rq]) (auto simp: final_def)
    qed
  qed
qed

theorem lone_check_is_checkPermission_witness:
  "\<exists>cs b. alone prepared one_rule_codec 8 (thread ''c'' ''api.test'' PCache) (\<lambda>c. Map.empty, demo_broker [DecisionAlways]) =
     (PDone DecisionAlways, cs, b)"
proof -
  let ?p = "NewNetworkProxy ''c'' ''a''"
  obtain e d p' b' where s: "NetworkProxy_checkPermission (direct_checker prepared one_rule_codec) ''api.test'' ?p (demo_broker [DecisionAlways]) =
      ((e, d), p', b')" by (metis prod_cases3 surj_pair)
  then have "d = DecisionAlways"
    by (auto simp: NetworkProxy_checkPermission_def cached_check_def NewNetworkProxy_def DirectChecker_Check_def wl_Check_def
        demo_broker_def NewWhitelistStore_def DirectChecker_Request_def ask_user_def prepared_def split: prod.splits)
  with lone_check_is_checkPermission [OF s, of "\<lambda>c. Map.empty"] show ?thesis by (auto simp: NewNetworkProxy_def)
qed

section \<open>Consent under every interleaving\<close>

text \<open>
  What grounds a granted decision: an ALWAYS for the resource is one of the given rules or an
  answer of the run about that resource, and a ONCE is an answer to this very check.
\<close>

abbreviation allowed :: "string set \<Rightarrow> (nat \<times> PermissionRequest \<times> Decision) set \<Rightarrow> string \<Rightarrow> bool" where
  "allowed K A k \<equiv> k \<in> K \<or> (\<exists>m r. (m, r, DecisionAlways) \<in> A \<and> req_key r = k)"

definition grounded :: "string set \<Rightarrow> (nat \<times> PermissionRequest \<times> Decision) set \<Rightarrow> nat \<Rightarrow> PermissionRequest \<Rightarrow> Decision \<Rightarrow> bool" where
  "grounded K A n r d \<longleftrightarrow>
     (d = DecisionAlways \<longrightarrow> allowed K A (req_key r)) \<and> (d = DecisionOnce \<longrightarrow> (n, r, DecisionOnce) \<in> A)"

fun phase_decision :: "phase \<Rightarrow> Decision option" where
  "phase_decision (PSet d) = Some d"
| "phase_decision (PSave d) = Some d"
| "phase_decision (PAudit d src) = Some d"
| "phase_decision (PStore d) = Some d"
| "phase_decision (PDone d) = Some d"
| "phase_decision ph = None"

definition checks_grounded :: "string set \<Rightarrow> (nat \<times> PermissionRequest \<times> Decision) set \<Rightarrow> 'p checks \<Rightarrow> bool" where
  "checks_grounded K A st \<longleftrightarrow>
     (case st of (ts, cs, b) \<Rightarrow>
      (\<forall>n<length ts. \<forall>d. phase_decision (th_phase (ts ! n)) = Some d \<longrightarrow> grounded K A n (th_req (ts ! n)) d) \<and>
      (\<forall>k. bk_rules b k = Some DecisionAlways \<longrightarrow> allowed K A k) \<and>
      (\<forall>c i d. cs c i = Some d \<longrightarrow> final d \<and> (d = DecisionAlways \<longrightarrow> allowed K A (ruleKey ResourceNetwork i))))"

lemma grounded_mono: "grounded K A n r d \<Longrightarrow> K \<subseteq> L \<Longrightarrow> A \<subseteq> B \<Longrightarrow> grounded L B n r d"
  unfolding grounded_def by blast

lemma checks_groundedD:
  assumes "checks_grounded K A (ts, cs, b)"
  shows "n < length ts \<Longrightarrow> phase_decision (th_phase (ts ! n)) = Some d \<Longrightarrow> grounded K A n (th_req (ts ! n)) d"
    and "bk_rules b k = Some DecisionAlways \<Longrightarrow> allowed K A k"
    and "cs c i = Some d \<Longrightarrow> final d \<and> (d = DecisionAlways \<longrightarrow> allowed K A (ruleKey ResourceNetwork i))"
  using assms by (auto simp: checks_grounded_def)

lemma checks_grounded_mono:
  assumes "checks_grounded K A st" and "K \<subseteq> L" and "A \<subseteq> B"
  shows "checks_grounded L B st"
proof -
  obtain ts cs b where st: "st = (ts, cs, b)" by (metis prod_cases3)
  note D = checks_groundedD [OF assms(1) [unfolded st]]
  have "allowed L B k" if "allowed K A k" for k using that assms(2,3) by blast
  then show ?thesis using D grounded_mono [OF _ assms(2,3)] unfolding checks_grounded_def st prod.case by blast
qed

lemma step_phase_grounded:
  assumes "checks_grounded K A (ts, cs, b)" and "n < length ts" and "thread_step pr y (ts ! n) (cs, b) = (ph, cs', b')"
    and "phase_decision ph = Some d"
  shows "grounded K (A \<union> answer_of pr n (ts, cs, b)) n (th_req (ts ! n)) d"
proof -
  note D = checks_groundedD [OF assms(1)]
  have rule: "grounded K A n (th_req (ts ! n)) d" if "bk_rules b (th_key (ts ! n)) = Some d" "d = DecisionAlways \<or> d = DecisionDeny"
    using that D(2) [of "th_key (ts ! n)"] by (auto simp: grounded_def)
  have old: "?thesis" if "grounded K A n (th_req (ts ! n)) d" using grounded_mono [OF that] by blast
  show ?thesis
  proof (cases "th_phase (ts ! n)")
    case PCache
    then show ?thesis using assms(3,4) D(3)
      by (intro old) (cases "th_origin (ts ! n)"; force simp: thread_step_def grounded_def final_def Let_def split: option.splits)
  next
    case PPrompt
    then show ?thesis using assms(2-4)
      by (auto simp: thread_step_def answer_of_def grounded_def Let_def split: prod.splits option.splits if_splits)
  next
    case PCheck
    then show ?thesis using assms(3,4) rule by (intro old) (auto simp: thread_step_def wl_Check_def Let_def split: option.splits if_splits)
  next
    case PLookup
    then show ?thesis using assms(3,4) rule by (intro old) (auto simp: thread_step_def wl_Check_def Let_def split: option.splits if_splits)
  next
    case (PAudit d' src)
    then show ?thesis using assms(2-4) D(1) [of n d]
      by (intro old) (auto simp: thread_step_def Let_def split: check_origin.splits)
  qed (rule old, use assms(2-4) D(1) [of n d] in \<open>force simp: thread_step_def Let_def\<close>)+
qed

lemma step_rules:
  assumes "thread_step pr y t (cs, b) = (ph, cs', b')"
  shows "bk_rules b' = (case th_phase t of PSet d \<Rightarrow> (bk_rules b)(th_key t \<mapsto> d) | _ \<Rightarrow> bk_rules b)"
  using assms by (auto simp: thread_step_def Let_def split: phase.splits prod.splits option.splits if_splits)

lemma step_caches:
  assumes "thread_step pr y t (cs, b) = (ph, cs', b')"
  shows "cs' = (case th_phase t of PStore d \<Rightarrow> store_decision (th_origin t) d cs | _ \<Rightarrow> cs)"
  using assms by (auto simp: thread_step_def Let_def split: phase.splits prod.splits option.splits if_splits)

lemma store_decisionD:
  "store_decision og d cs c i = Some d' \<Longrightarrow>
   cs c i = Some d' \<or> d' = d \<and> final d \<and> req_key (origin_req og) = ruleKey ResourceNetwork i"
  by (cases og) (auto simp: final_def split: if_splits)

lemma thread_step_grounded:
  assumes "checks_grounded K A (ts, cs, b)" and "n < length ts" and "thread_step pr y (ts ! n) (cs, b) = (ph, cs', b')"
  shows "checks_grounded K (A \<union> answer_of pr n (ts, cs, b)) (ts[n := (ts ! n)\<lparr>th_phase := ph\<rparr>], cs', b')"
proof -
  note D = checks_groundedD [OF assms(1)]
  let ?B = "A \<union> answer_of pr n (ts, cs, b)"
  let ?ts = "ts[n := (ts ! n)\<lparr>th_phase := ph\<rparr>]"
  have mono: "allowed K ?B k" if "allowed K A k" for k using that by blast
  have "grounded K ?B m (th_req (?ts ! m)) d" if "m < length ?ts" "phase_decision (th_phase (?ts ! m)) = Some d" for m d
    using that step_phase_grounded [OF assms, of d] grounded_mono [OF D(1), of m d K ?B] by (cases "m = n") auto
  moreover have "allowed K ?B k" if "bk_rules b' k = Some DecisionAlways" for k
  proof (cases "bk_rules b k = Some DecisionAlways")
    case True
    then show ?thesis using D(2) mono by blast
  next
    case False
    with that step_rules [OF assms(3)] have "th_phase (ts ! n) = PSet DecisionAlways" "k = th_key (ts ! n)"
      by (auto split: phase.splits if_splits)
    then show ?thesis using D(1) [OF assms(2), of DecisionAlways] by (auto simp: grounded_def)
  qed
  moreover have "final d \<and> (d = DecisionAlways \<longrightarrow> allowed K ?B (ruleKey ResourceNetwork i))" if "cs' c i = Some d" for c i d
  proof (cases "cs c i = Some d")
    case True
    then show ?thesis using D(3) mono by blast
  next
    case False
    with that step_caches [OF assms(3)] obtain "th_phase (ts ! n) = PStore d" "final d" "th_key (ts ! n) = ruleKey ResourceNetwork i"
      by (auto split: phase.splits dest: store_decisionD)
    then show ?thesis using D(1) [OF assms(2), of d] mono by (auto simp: grounded_def)
  qed
  ultimately show ?thesis unfolding checks_grounded_def prod.case by blast
qed

lemma checks_step_grounded:
  "checks_grounded K A st \<Longrightarrow> checks_grounded K (A \<union> answer_of pr n st) (checks_step pr y n st)"
  by (auto simp: checks_step_def answer_of_def split: prod.splits
      dest: thread_step_grounded [where pr = pr and y = y and n = n, unfolded answer_of_def])

section \<open>Two checks of one domain\<close>

text \<open>
  C40: the decisions of checks that overlap are not consistent.  Let the proxies of two containers have
  no decision for a domain in their caches, and the rules none that is final; if the user answers
  ALWAYS to the prompt of the first and DENY to that of the second, then there is an interleaving
  of the two checks after which the rule is DENY, yet the first container's proxy serves its
  later requests for the domain as ALWAYS, without asking the checker.
\<close>

theorem overlapping_checks_disagree:
  assumes "c1 \<noteq> c2" and "cs c1 i = None" and "cs c2 i = None"
    and "\<forall>d. bk_rules b (ruleKey ResourceNetwork i) = Some d \<longrightarrow> \<not> final d"
    and "pr (network_request c1 i) (bk_prompt b) = ((None, DecisionAlways), p1)"
    and "pr (network_request c2 i) p1 = ((None, DecisionDeny), p2)"
  shows "\<exists>sched ts cs' b'. checks_run pr y sched ([thread c1 i PCache, thread c2 i PCache], cs, b) = (ts, cs', b') \<and>
     map th_phase ts = [PDone DecisionAlways, PDone DecisionDeny] \<and>
     bk_rules b' (ruleKey ResourceNetwork i) = Some DecisionDeny \<and>
     (\<forall>pr' y' (b'' :: 'q broker). thread_step pr' y' (thread c1 i PCache) (cs', b'') = (PDone DecisionAlways, cs', b''))"
proof -
  let ?s = "[0, 0, 0] @ [1, 1, 1] @ [0, 0, 0, 0, 0] @ [1, 1, 1, 1, 1] :: nat list"
  have nf: "wl_Check ResourceNetwork i (bk_whitelist b) \<noteq> Some DecisionAlways" "wl_Check ResourceNetwork i (bk_whitelist b) \<noteq> Some DecisionDeny"
    using assms(4) by (auto simp: wl_Check_def final_def)
  obtain d where d: "wl_Check ResourceNetwork i (bk_whitelist b) = d" "d \<noteq> Some DecisionAlways" "d \<noteq> Some DecisionDeny" using nf by blast
  have e: "checks_run pr y [0, 0, 0] ([thread c1 i PCache, thread c2 i PCache], cs, b) = ([thread c1 i PPrompt, thread c2 i PCache], cs, b)"
    "checks_run pr y [1, 1, 1] ([thread c1 i PPrompt, thread c2 i PCache], cs, b) = ([thread c1 i PPrompt, thread c2 i PPrompt], cs, b)"
    using assms(2,3) d by (auto simp: checks_step_def thread_step_def network_request_def split: option.split)
  have app: "checks_run pr y (xs @ ys) st = checks_run pr y ys (checks_run pr y xs st)" for xs ys st
    by (induction xs arbitrary: st) simp_all
  obtain b1 where r1: "checks_run pr y [0, 0, 0, 0, 0] ([thread c1 i PPrompt, thread c2 i PPrompt], cs, b) =
      ([thread c1 i (PDone DecisionAlways), thread c2 i PPrompt], cs(c1 := (cs c1)(i \<mapsto> DecisionAlways)), b1)" "bk_prompt b1 = p1"
    using assms(5) by (simp add: checks_step_def thread_step_def audit_decision_def split: option.split)
  obtain b2 where r2: "checks_run pr y [1, 1, 1, 1, 1] ([thread c1 i (PDone DecisionAlways), thread c2 i PPrompt], cs(c1 := (cs c1)(i \<mapsto> DecisionAlways)), b1) =
      ([thread c1 i (PDone DecisionAlways), thread c2 i (PDone DecisionDeny)],
       cs(c1 := (cs c1)(i \<mapsto> DecisionAlways), c2 := (cs c2)(i \<mapsto> DecisionDeny)), b2)"
      "bk_rules b2 (ruleKey ResourceNetwork i) = Some DecisionDeny"
    using assms(1,6) r1(2) by (simp add: checks_step_def thread_step_def audit_decision_def network_request_def split: option.split)
  have run: "checks_run pr y ?s ([thread c1 i PCache, thread c2 i PCache], cs, b) =
      ([thread c1 i (PDone DecisionAlways), thread c2 i (PDone DecisionDeny)],
       cs(c1 := (cs c1)(i \<mapsto> DecisionAlways), c2 := (cs c2)(i \<mapsto> DecisionDeny)), b2)"
    by (simp only: app e r1(1) r2(1))
  show ?thesis
    by (intro exI conjI allI, rule run) (use assms(1) r2(2) in \<open>simp_all add: thread_step_def\<close>)
qed

theorem overlapping_checks_disagree_witness:
  "\<exists>sched ts cs b. checks_run prepared one_rule_codec sched
       ([thread ''a'' ''api.test'' PCache, thread ''b'' ''api.test'' PCache], \<lambda>c. Map.empty, demo_broker [DecisionAlways, DecisionDeny]) = (ts, cs, b) \<and>
     map th_phase ts = [PDone DecisionAlways, PDone DecisionDeny] \<and>
     bk_rules b (ruleKey ResourceNetwork ''api.test'') = Some DecisionDeny"
proof -
  have "''a'' \<noteq> ''b''" "\<forall>d. bk_rules (demo_broker [DecisionAlways, DecisionDeny]) (ruleKey ResourceNetwork ''api.test'') = Some d \<longrightarrow> \<not> final d"
    "prepared (network_request ''a'' ''api.test'') (bk_prompt (demo_broker [DecisionAlways, DecisionDeny])) = ((None, DecisionAlways), [DecisionDeny])"
    "prepared (network_request ''b'' ''api.test'') [DecisionDeny] = ((None, DecisionDeny), [])"
    by (simp_all add: demo_broker_def NewWhitelistStore_def prepared_def)
  from overlapping_checks_disagree [OF this(1) refl refl this(2-4), of one_rule_codec] show ?thesis
    by (elim exE conjE) (intro exI conjI, assumption+)
qed

text \<open>
  As long as checks that overlap are for different domains nothing of this kind happens: no
  interleaving changes a rule that is ALWAYS or DENY, and all caches agree with the rules.
\<close>

definition settled :: "(string \<rightharpoonup> Decision) \<Rightarrow> string \<Rightarrow> bool" where
  "settled m k \<longleftrightarrow> (\<exists>d. m k = Some d \<and> final d)"

definition thread_ok :: "(string \<rightharpoonup> Decision) \<Rightarrow> check_thread \<Rightarrow> bool" where
  "thread_ok m t \<longleftrightarrow>
     (case th_phase t of
        PPrompt \<Rightarrow> \<not> settled m (th_key t)
      | PSet d \<Rightarrow> \<not> settled m (th_key t) \<and> final d
      | PSave d \<Rightarrow> m (th_key t) = Some d
      | PAudit d src \<Rightarrow> final d \<longrightarrow> m (th_key t) = Some d
      | PStore d \<Rightarrow> final d \<longrightarrow> m (th_key t) = Some d
      | _ \<Rightarrow> True)"

definition caches_agree :: "(string \<Rightarrow> cache) \<Rightarrow> (string \<rightharpoonup> Decision) \<Rightarrow> bool" where
  "caches_agree cs m \<longleftrightarrow> (\<forall>c i d. cs c i = Some d \<longrightarrow> final d \<and> m (ruleKey ResourceNetwork i) = Some d)"

lemma thread_ok_step:
  assumes "thread_ok (bk_rules b) t" and "thread_step pr y t (cs, b) = (ph, cs', b')"
  shows "thread_ok (bk_rules b') (t\<lparr>th_phase := ph\<rparr>)"
  using assms by (cases "th_phase t"; cases "th_origin t")
    (auto simp: thread_ok_def thread_step_def settled_def final_def wl_Check_def Let_def
      split: option.splits prod.splits if_splits phase.splits)

lemma step_keeps_settled:
  assumes "thread_ok (bk_rules b) t" and "thread_step pr y t (cs, b) = (ph, cs', b')" and "bk_rules b k = Some d" and "final d"
  shows "bk_rules b' k = Some d"
  using assms step_rules [OF assms(2)] by (auto simp: thread_ok_def settled_def split: phase.splits)

lemma step_caches_agree:
  assumes "thread_ok (bk_rules b) t" and "thread_step pr y t (cs, b) = (ph, cs', b')" and "caches_agree cs (bk_rules b)"
  shows "caches_agree cs' (bk_rules b')"
proof -
  have "final d \<and> bk_rules b (ruleKey ResourceNetwork i) = Some d" if "cs' c i = Some d" for c i d
    using that assms(1,3) step_caches [OF assms(2)]
    by (auto simp: caches_agree_def thread_ok_def final_def split: phase.splits if_splits dest!: store_decisionD)
  then show ?thesis using step_keeps_settled [OF assms(1,2)] by (auto simp: caches_agree_def)
qed

lemma exclusive_step:
  assumes "distinct (map th_key ts)" and "\<forall>t\<in>set ts. thread_ok (bk_rules b) t" and "caches_agree cs (bk_rules b)"
    and "checks_step pr y n (ts, cs, b) = (ts', cs', b')"
  shows "map th_key ts' = map th_key ts \<and> (\<forall>t\<in>set ts'. thread_ok (bk_rules b') t) \<and> caches_agree cs' (bk_rules b') \<and>
    (\<forall>k d. bk_rules b k = Some d \<longrightarrow> final d \<longrightarrow> bk_rules b' k = Some d)"
proof (cases "n < length ts")
  case True
  obtain ph where s: "thread_step pr y (ts ! n) (cs, b) = (ph, cs', b')" and ts': "ts' = ts[n := (ts ! n)\<lparr>th_phase := ph\<rparr>]"
    using assms(4) True by (auto simp: checks_step_def split: prod.splits)
  have ok: "thread_ok (bk_rules b) (ts ! n)" using assms(2) True by simp
  have "thread_ok (bk_rules b') (ts' ! m)" if "m < length ts" for m
  proof (cases "m = n")
    case True
    with that show ?thesis using thread_ok_step [OF ok s] ts' by simp
  next
    case False
    then have "th_key (ts ! m) \<noteq> th_key (ts ! n)"
      using that True assms(1) by (simp add: distinct_conv_nth)
    then have "bk_rules b' (th_key (ts ! m)) = bk_rules b (th_key (ts ! m))"
      using step_rules [OF s] by (auto split: phase.splits)
    moreover have "thread_ok (bk_rules b) (ts ! m)" using assms(2) that by simp
    ultimately show ?thesis using False ts' by (simp add: thread_ok_def settled_def split: phase.splits)
  qed
  then have "\<forall>t\<in>set ts'. thread_ok (bk_rules b') t" using ts' by (auto simp: in_set_conv_nth)
  moreover have "map th_key ts' = map th_key ts"
    using True ts' by (simp add: map_update list_update_same_conv)
  ultimately show ?thesis using step_keeps_settled [OF ok s] step_caches_agree [OF ok s assms(3)] by blast
qed (use assms in \<open>simp add: checks_step_def\<close>)

lemma exclusive_checks_coherent:
  assumes "distinct (map th_key ts)" and "\<forall>t\<in>set ts. thread_ok (bk_rules b) t" and "caches_agree cs (bk_rules b)"
    and "checks_run pr y sched (ts, cs, b) = (ts', cs', b')"
  shows "caches_agree cs' (bk_rules b') \<and> (\<forall>k d. bk_rules b k = Some d \<longrightarrow> final d \<longrightarrow> bk_rules b' k = Some d)"
  using assms
proof (induction sched arbitrary: ts cs b)
  case (Cons n sched)
  obtain ts1 cs1 b1 where s: "checks_step pr y n (ts, cs, b) = (ts1, cs1, b1)" by (metis prod_cases3)
  note E = exclusive_step [OF Cons.prems(1-3) s]
  have "caches_agree cs' (bk_rules b') \<and> (\<forall>k d. bk_rules b1 k = Some d \<longrightarrow> final d \<longrightarrow> bk_rules b' k = Some d)"
    by (rule Cons.IH) (use E Cons.prems(1,4) s in \<open>simp_all\<close>)
  with E show ?case by blast
qed simp

end
