(* ===== verification/Concurrent_Broker.thy ===== *)
theory Concurrent_Broker
  imports Concurrent_Checks
begin

text \<open>
  Everything that uses the daemon's rule table at the same time: permission checks as in
  \<open>Concurrent_Checks\<close>, and the requests that load the whitelist of a specification,
  \<open>handleWhitelistLoad\<close> and \<open>handleContainerStart\<close> of \<open>daemon/server.go\<close>.
\<close>

section \<open>Loads\<close>

text \<open>
  \<open>LoadFromSpec\<close> writes all rules of a specification under the lock; \<open>handleWhitelistLoad\<close> then saves
  the table, \<open>handleContainerStart\<close> does not.
\<close>

datatype load_phase = LLoad | LSave | LDone

record load_thread =
  ld_spec :: ContainerSpec
  ld_persist :: bool
  ld_phase :: load_phase

definition load_step :: "yaml_codec \<Rightarrow> load_thread \<Rightarrow> 'p broker \<Rightarrow> load_phase \<times> 'p broker" where
  "load_step y t b =
     (case ld_phase t of
        LLoad \<Rightarrow> (if ld_persist t then LSave else LDone, b\<lparr>bk_whitelist := wl_LoadFromSpec (ld_spec t) (bk_whitelist b)\<rparr>)
      | LSave \<Rightarrow> (LDone, b\<lparr>bk_host := snd (wl_Save y (bk_whitelist b) (bk_host b))\<rparr>)
      | LDone \<Rightarrow> (LDone, b))"

section \<open>Runs\<close>

type_synonym 'p broker_sys = "load_thread list \<times> 'p checks"

datatype broker_act = CheckActs nat | LoadActs nat

fun broker_step :: "'p prompter \<Rightarrow> yaml_codec \<Rightarrow> broker_act \<Rightarrow> 'p broker_sys \<Rightarrow> 'p broker_sys" where
  "broker_step pr y (CheckActs i) (ls, st) = (ls, checks_step pr y i st)"
| "broker_step pr y (LoadActs i) (ls, ts, cs, b) =
     (if i < length ls
      then (case load_step y (ls ! i) b of (ph, b') \<Rightarrow> (ls[i := (ls ! i)\<lparr>ld_phase := ph\<rparr>], ts, cs, b'))
      else (ls, ts, cs, b))"

fun broker_run :: "'p prompter \<Rightarrow> yaml_codec \<Rightarrow> broker_act list \<Rightarrow> 'p broker_sys \<Rightarrow> 'p broker_sys" where
  "broker_run pr y [] s = s"
| "broker_run pr y (a # sched) s = broker_run pr y sched (broker_step pr y a s)"

text \<open>What the prompts of a run answered, and the keys of the rules that it loaded.\<close>

fun act_answer :: "'p prompter \<Rightarrow> broker_act \<Rightarrow> 'p broker_sys \<Rightarrow> (nat \<times> PermissionRequest \<times> Decision) set" where
  "act_answer pr (CheckActs i) (ls, st) = answer_of pr i st"
| "act_answer pr (LoadActs i) s = {}"

fun act_loaded :: "broker_act \<Rightarrow> 'p broker_sys \<Rightarrow> string set" where
  "act_loaded (CheckActs i) s = {}"
| "act_loaded (LoadActs i) (ls, st) = (if i < length ls \<and> ld_phase (ls ! i) = LLoad then spec_keys (ld_spec (ls ! i)) else {})"

fun run_answers :: "'p prompter \<Rightarrow> yaml_codec \<Rightarrow> broker_act list \<Rightarrow> 'p broker_sys \<Rightarrow> (nat \<times> PermissionRequest \<times> Decision) set" where
  "run_answers pr y [] s = {}"
| "run_answers pr y (a # sched) s = act_answer pr a s \<union> run_answers pr y sched (broker_step pr y a s)"

fun run_loaded :: "'p prompter \<Rightarrow> yaml_codec \<Rightarrow> broker_act list \<Rightarrow> 'p broker_sys \<Rightarrow> string set" where
  "run_loaded pr y [] s = {}"
| "run_loaded pr y (a # sched) s = act_loaded a s \<union> run_loaded pr y sched (broker_step pr y a s)"

text \<open>A load that nothing interrupts is \<open>handleWhitelistLoad\<close>.\<close>

lemma lone_load_is_handleWhitelistLoad:
  assumes "handleWhitelistLoad y \<lparr>hr_Method = ''POST'', hr_Body = Inr (Some spec)\<rparr> b = (rep, b')"
  shows "broker_run pr y [LoadActs 0, LoadActs 0] ([\<lparr>ld_spec = spec, ld_persist = True, ld_phase = LLoad\<rparr>], ts, cs, b) =
    ([\<lparr>ld_spec = spec, ld_persist = True, ld_phase = LDone\<rparr>], ts, cs, b')"
  using assms by (auto simp: handleWhitelistLoad_def load_step_def Let_def)

section \<open>Consent under every interleaving\<close>

lemma load_step_grounded:
  assumes "checks_grounded K A (ts, cs, b)" and "load_step y t b = (ph, b')"
  shows "checks_grounded (K \<union> (if ld_phase t = LLoad then spec_keys (ld_spec t) else {})) A (ts, cs, b')"
proof -
  let ?L = "K \<union> (if ld_phase t = LLoad then spec_keys (ld_spec t) else {})"
  have g: "checks_grounded ?L A (ts, cs, b)" by (rule checks_grounded_mono [OF assms(1)]) auto
  have "bk_rules b' = (if ld_phase t = LLoad then wl_rules (wl_LoadFromSpec (ld_spec t) (bk_whitelist b)) else bk_rules b)"
    using assms(2) by (auto simp: load_step_def split: load_phase.splits)
  then have "k \<in> ?L" if "bk_rules b' k = Some DecisionAlways" "bk_rules b k \<noteq> Some DecisionAlways" for k
    using that by (auto simp: wl_LoadFromSpec_rules split: if_splits)
  then have "allowed ?L A k" if "bk_rules b' k = Some DecisionAlways" for k
    using that checks_groundedD(2) [OF g, of k] by blast
  then show ?thesis using checks_groundedD(1,3) [OF g] unfolding checks_grounded_def prod.case by blast
qed

lemma broker_step_grounded:
  "checks_grounded K A (snd s) \<Longrightarrow> checks_grounded (K \<union> act_loaded a s) (A \<union> act_answer pr a s) (snd (broker_step pr y a s))"
proof (cases a)
  case (LoadActs i)
  obtain ls ts cs b where s: "s = (ls, ts, cs, b)" by (metis prod_cases4)
  assume "checks_grounded K A (snd s)"
  then show ?thesis using load_step_grounded [of K A ts cs b y "ls ! i"]
    by (auto simp: LoadActs s split: prod.split)
qed (cases s; simp add: checks_step_grounded)

lemma broker_run_grounded:
  "checks_grounded K A (snd s) \<Longrightarrow>
   checks_grounded (K \<union> run_loaded pr y sched s) (A \<union> run_answers pr y sched s) (snd (broker_run pr y sched s))"
proof (induction sched arbitrary: K A s)
  case (Cons a sched)
  from Cons.IH [OF broker_step_grounded [OF Cons.prems]] show ?case by (simp add: Un_assoc)
qed simp

text \<open>
  C3: no interleaving lets anything through without consent: whatever checks of whatever
  proxies, requests on the socket and loads of whitelists run at the same time, and in whatever
  order their actions come, a check that ends with a granting decision is for a resource that
  had an ALWAYS rule at the start, was answered with ALWAYS or loaded from a specification
  during the run, or the user answered ONCE to this very check.
\<close>

theorem concurrent_grants_need_consent:
  assumes "\<forall>t\<in>set ts. th_phase t = origin_start (th_origin t)"
    and "\<forall>c i d. cs c i = Some d \<longrightarrow> final d \<and> (d = DecisionAlways \<longrightarrow> bk_rules b (ruleKey ResourceNetwork i) = Some DecisionAlways)"
    and "broker_run pr y sched (ls, ts, cs, b) = (ls', ts', cs', b')"
    and "n < length ts'" and "th_phase (ts' ! n) = PDone d" and "grants d"
  shows "bk_rules b (th_key (ts' ! n)) = Some DecisionAlways \<or> th_key (ts' ! n) \<in> run_loaded pr y sched (ls, ts, cs, b) \<or>
    (\<exists>m r. (m, r, DecisionAlways) \<in> run_answers pr y sched (ls, ts, cs, b) \<and> req_key r = th_key (ts' ! n)) \<or>
    d = DecisionOnce \<and> (n, th_req (ts' ! n), DecisionOnce) \<in> run_answers pr y sched (ls, ts, cs, b)"
proof -
  let ?K = "{k. bk_rules b k = Some DecisionAlways}"
  have "phase_decision (th_phase (ts ! n)) = None" if "n < length ts" for n
    using that assms(1) by (cases "th_origin (ts ! n)") (auto dest: nth_mem)
  then have "checks_grounded ?K {} (snd (ls, ts, cs, b))" using assms(2) by (auto simp: checks_grounded_def)
  from broker_run_grounded [OF this, of pr y sched]
  have "checks_grounded (?K \<union> run_loaded pr y sched (ls, ts, cs, b)) (run_answers pr y sched (ls, ts, cs, b)) (ts', cs', b')"
    by (simp add: assms(3))
  from checks_groundedD(1) [OF this assms(4), of d] assms(5,6) show ?thesis
    by (auto simp: grounded_def grants_def)
qed

text \<open>A proxy's check, a request on the socket and a load that overlap.\<close>

definition busy_sched :: "broker_act list" where
  "busy_sched = [CheckActs 0, CheckActs 1, CheckActs 0, LoadActs 0] @ replicate 6 (CheckActs 0) @ [LoadActs 0]"

definition busy_start :: "Decision list broker_sys" where
  "busy_start = ([\<lparr>ld_spec = listing_spec, ld_persist = False, ld_phase = LLoad\<rparr>],
     [thread ''a'' ''api.test'' PCache, thread_at (OnSocket (network_request ''b'' ''evil.test'')) PLookup],
     \<lambda>c. Map.empty, demo_broker [DecisionOnce])"

lemmas busy_simps = busy_sched_def busy_start_def checks_step_def thread_step_def load_step_def demo_broker_def wl_Check_def
  NewWhitelistStore_def prepared_def wl_LoadFromSpec_rules eval_nat_numeral network_request_def Let_def

lemma api_unlisted: "ruleKey ResourceNetwork ''api.test'' \<notin> spec_keys listing_spec"
  by (auto simp: listing_spec_def spec_keys_def)

lemma busy_end:
  obtains ls ts cs b where "broker_run prepared one_rule_codec busy_sched busy_start = (ls, ts, cs, b)" and "length ts = 2"
    and "th_phase (ts ! 0) = PDone DecisionOnce" and "th_phase (ts ! 1) = PPrompt" and "th_origin (ts ! 0) = OnProxy ''a'' ''api.test''"
    and "ld_phase (ls ! 0) = LDone"
proof -
  obtain ls ts cs b where r: "broker_run prepared one_rule_codec busy_sched busy_start = (ls, ts, cs, b)" by (metis prod_cases4)
  with that [OF r] api_unlisted show ?thesis by (auto simp: busy_simps)
qed

lemma busy_answers:
  "run_answers prepared one_rule_codec busy_sched busy_start = {(0, network_request ''a'' ''api.test'', DecisionOnce)}"
  using api_unlisted by (simp add: busy_simps answer_of_def)

theorem concurrent_grants_need_consent_witness:
  "\<exists>ls ts s. broker_run prepared one_rule_codec busy_sched busy_start = (ls, ts, s) \<and>
     th_phase (ts ! 0) = PDone DecisionOnce \<and> th_phase (ts ! 1) = PPrompt \<and>
     (0, network_request ''a'' ''api.test'', DecisionOnce) \<in> run_answers prepared one_rule_codec busy_sched busy_start"
proof -
  obtain ls ts cs b where r: "broker_run prepared one_rule_codec busy_sched busy_start = (ls, ts, cs, b)" and d: "length ts = 2"
    "th_phase (ts ! 0) = PDone DecisionOnce" "th_phase (ts ! 1) = PPrompt" "th_origin (ts ! 0) = OnProxy ''a'' ''api.test''"
    by (rule busy_end)
  have l: "run_loaded prepared one_rule_codec busy_sched busy_start \<subseteq> spec_keys listing_spec" by (simp add: busy_simps)
  have "bk_rules (demo_broker [DecisionOnce]) k = None" for k by (simp add: demo_broker_def NewWhitelistStore_def)
  with api_unlisted have "(0, network_request ''a'' ''api.test'', DecisionOnce) \<in> run_answers prepared one_rule_codec busy_sched busy_start"
    using concurrent_grants_need_consent [OF _ _ r [unfolded busy_start_def], folded busy_start_def, of 0 DecisionOnce] d subsetD [OF l]
    by (auto simp: busy_answers)
  with r d show ?thesis by blast
qed

section \<open>Every check ends\<close>

fun phase_left :: "phase \<Rightarrow> nat" where
  "phase_left PCache = 8"
| "phase_left PCheck = 7"
| "phase_left PLookup = 6"
| "phase_left PPrompt = 5"
| "phase_left (PSet d) = 4"
| "phase_left (PSave d) = 3"
| "phase_left (PAudit d src) = 2"
| "phase_left (PStore d) = 1"
| "phase_left (PDone d) = 0"

fun load_left :: "load_phase \<Rightarrow> nat" where
  "load_left LLoad = 2"
| "load_left LSave = 1"
| "load_left LDone = 0"

lemma thread_step_left: "thread_step pr y t s = (ph, s') \<Longrightarrow> phase_left ph \<le> phase_left (th_phase t) - 1"
  by (cases t; cases "th_phase t") (auto simp: thread_step_def Let_def split: prod.splits option.splits if_splits check_origin.splits)

lemma load_step_left: "load_step y t b = (ph, b') \<Longrightarrow> load_left ph \<le> load_left (ld_phase t) - 1"
  by (auto simp: load_step_def split: load_phase.splits if_splits)

lemma broker_step_left:
  assumes "broker_step pr y a (ls, ts, s) = (ls', ts', s')"
  shows "length ts' = length ts" and "length ls' = length ls"
    and "n < length ts \<Longrightarrow> phase_left (th_phase (ts' ! n)) \<le> phase_left (th_phase (ts ! n)) - of_bool (a = CheckActs n)"
    and "n < length ls \<Longrightarrow> load_left (ld_phase (ls' ! n)) \<le> load_left (ld_phase (ls ! n)) - of_bool (a = LoadActs n)"
proof -
  obtain cs b where s: "s = (cs, b)" by (cases s)
  show "length ts' = length ts" "length ls' = length ls"
    using assms by (cases a; auto simp: s checks_step_def split: prod.splits if_splits)+
  show "phase_left (th_phase (ts' ! n)) \<le> phase_left (th_phase (ts ! n)) - of_bool (a = CheckActs n)" if "n < length ts"
    using assms that by (cases a) (auto simp: s checks_step_def nth_list_update dest: thread_step_left split: prod.splits if_splits)
  show "load_left (ld_phase (ls' ! n)) \<le> load_left (ld_phase (ls ! n)) - of_bool (a = LoadActs n)" if "n < length ls"
    using assms that by (cases a) (auto simp: s checks_step_def nth_list_update dest: load_step_left split: prod.splits if_splits)
qed

lemma broker_run_left:
  assumes "broker_run pr y sched (ls, ts, s) = (ls', ts', s')"
  shows "(n < length ts \<longrightarrow> phase_left (th_phase (ts' ! n)) \<le> phase_left (th_phase (ts ! n)) - count_list sched (CheckActs n)) \<and>
    (n < length ls \<longrightarrow> load_left (ld_phase (ls' ! n)) \<le> load_left (ld_phase (ls ! n)) - count_list sched (LoadActs n))"
  using assms
proof (induction sched arbitrary: ls ts s)
  case (Cons a sched)
  obtain ls1 ts1 s1 where st: "broker_step pr y a (ls, ts, s) = (ls1, ts1, s1)" by (metis prod_cases3)
  have "broker_run pr y sched (ls1, ts1, s1) = (ls', ts', s')" using Cons.prems st by simp
  from Cons.IH [OF this] broker_step_left(1,2) [OF st] broker_step_left(3,4) [OF st, of n] show ?case by (auto split: if_splits)
qed simp

lemma broker_run_length: "broker_run pr y sched (ls, ts, s) = (ls', ts', s') \<Longrightarrow> length ts' = length ts \<and> length ls' = length ls"
proof (induction sched arbitrary: ls ts s)
  case (Cons a sched)
  obtain ls1 ts1 s1 where st: "broker_step pr y a (ls, ts, s) = (ls1, ts1, s1)" by (metis prod_cases3)
  with Cons.prems have "broker_run pr y sched (ls1, ts1, s1) = (ls', ts', s')" by simp
  from Cons.IH [OF this] broker_step_left(1,2) [OF st] show ?case by simp
qed simp

lemma run_checks_end:
  assumes "broker_run pr y sched (ls, ts, s) = (ls', ts', s')"
  shows "n < length ts \<and> 8 \<le> count_list sched (CheckActs n) \<longrightarrow> (\<exists>d. th_phase (ts' ! n) = PDone d)"
    and "n < length ls \<and> 2 \<le> count_list sched (LoadActs n) \<longrightarrow> ld_phase (ls' ! n) = LDone"
proof -
  have p: "phase_left ph \<le> 8" "phase_left ph = 0 \<longleftrightarrow> (\<exists>d. ph = PDone d)" for ph by (cases ph; simp)+
  have l: "load_left ph \<le> 2" "load_left ph = 0 \<longleftrightarrow> ph = LDone" for ph by (cases ph; simp)+
  note left = broker_run_left [OF assms, of n]
  show "n < length ts \<and> 8 \<le> count_list sched (CheckActs n) \<longrightarrow> (\<exists>d. th_phase (ts' ! n) = PDone d)"
    using left p [of "th_phase (ts ! n)"] p [of "th_phase (ts' ! n)"] by auto
  show "n < length ls \<and> 2 \<le> count_list sched (LoadActs n) \<longrightarrow> ld_phase (ls' ! n) = LDone"
    using left l [of "ld_phase (ls ! n)"] l [of "ld_phase (ls' ! n)"] by auto
qed

text \<open>
  The number of actions: whatever else runs in between, a check that has been scheduled eight
  times and a load that has been scheduled twice are done.  Waiting (for a mutex or for an
  answer) is not part of the model, so this bounds the model's actions only.
\<close>

theorem checks_end:
  assumes "broker_run pr y sched (ls, ts, s) = (ls', ts', s')"
  shows "(n < length ts \<and> 8 \<le> count_list sched (CheckActs n) \<longrightarrow> (\<exists>d. th_phase (ts' ! n) = PDone d)) \<and>
    (n < length ls \<and> 2 \<le> count_list sched (LoadActs n) \<longrightarrow> ld_phase (ls' ! n) = LDone)"
  using run_checks_end [OF assms] by blast

theorem checks_end_witness:
  "\<exists>ls ts s. broker_run prepared one_rule_codec busy_sched busy_start = (ls, ts, s) \<and>
     (\<exists>d. th_phase (ts ! 0) = PDone d) \<and> ld_phase (ls ! 0) = LDone"
proof -
  obtain ls ts cs b where r: "broker_run prepared one_rule_codec busy_sched busy_start = (ls, ts, cs, b)" by (rule busy_end)
  have "8 \<le> count_list busy_sched (CheckActs 0)" "2 \<le> count_list busy_sched (LoadActs 0)"
    by (simp_all add: busy_sched_def eval_nat_numeral)
  with checks_end [OF r [unfolded busy_start_def], of 0] r show ?thesis by auto
qed

section \<open>Answers are audited\<close>

definition audited :: "PermissionRequest \<Rightarrow> Decision \<Rightarrow> AuditLogger \<Rightarrow> bool" where
  "audited r d a \<longleftrightarrow> (\<exists>now. audit_entry now r d ''user'' \<in> set (al_entries a))"

definition answers_kept :: "(nat \<times> PermissionRequest \<times> Decision) set \<Rightarrow> 'p checks \<Rightarrow> bool" where
  "answers_kept A st \<longleftrightarrow>
     (case st of (ts, cs, b) \<Rightarrow>
      \<exists>a. bk_audit b = Some a \<and> \<not> al_broken a \<and>
        (\<forall>(n, r, d)\<in>A. n < length ts \<and> th_req (ts ! n) = r \<and>
           (th_phase (ts ! n) \<in> {PSet d, PSave d, PAudit d ''user''} \<or> audited r d a)))"

lemma step_audit:
  assumes "thread_step pr y t (cs, b) = (ph, cs', b')" and "bk_audit b = Some a" and "\<not> al_broken a"
  shows "\<exists>a'. bk_audit b' = Some a' \<and> \<not> al_broken a' \<and> set (al_entries a) \<subseteq> set (al_entries a') \<and>
    (\<forall>d. th_phase t = PAudit d ''user'' \<longrightarrow> audited (th_req t) d a')"
  using assms by (auto simp: thread_step_def Let_def audit_decision_def LogDecision_def audited_def
      split: phase.splits prod.splits option.splits if_splits)

lemma step_follows:
  assumes "thread_step pr y t (cs, b) = (ph, cs', b')"
  shows "th_phase t \<in> {PSet d, PSave d} \<Longrightarrow> ph \<in> {PSet d, PSave d, PAudit d ''user''}"
    and "th_phase t = PPrompt \<Longrightarrow> fst (pr (th_req t) (bk_prompt b)) = (None, d) \<Longrightarrow> ph \<in> {PSet d, PSave d, PAudit d ''user''}"
  using assms by (auto simp: thread_step_def Let_def split: prod.splits if_splits)

lemma checks_step_answers_kept:
  assumes "answers_kept A st"
  shows "answers_kept (A \<union> answer_of pr i st) (checks_step pr y i st)"
proof -
  obtain ts cs b where st: "st = (ts, cs, b)" by (metis prod_cases3)
  show ?thesis
  proof (cases "i < length ts")
    case True
    obtain ph cs' b' where s: "thread_step pr y (ts ! i) (cs, b) = (ph, cs', b')" by (metis prod_cases3)
    obtain a where a: "bk_audit b = Some a" "\<not> al_broken a"
      and k: "\<And>n r d. (n, r, d) \<in> A \<Longrightarrow> n < length ts \<and> th_req (ts ! n) = r \<and>
        (th_phase (ts ! n) \<in> {PSet d, PSave d, PAudit d ''user''} \<or> audited r d a)"
      using assms unfolding st answers_kept_def prod.case by blast
    obtain a' where a': "bk_audit b' = Some a'" "\<not> al_broken a'" "set (al_entries a) \<subseteq> set (al_entries a')"
      and e: "\<And>d. th_phase (ts ! i) = PAudit d ''user'' \<Longrightarrow> audited (th_req (ts ! i)) d a'"
      using step_audit [OF s a] by blast
    let ?ts = "ts[i := (ts ! i)\<lparr>th_phase := ph\<rparr>]"
    have "n < length ?ts \<and> th_req (?ts ! n) = r \<and> (th_phase (?ts ! n) \<in> {PSet d, PSave d, PAudit d ''user''} \<or> audited r d a')"
      if "(n, r, d) \<in> A \<union> answer_of pr i st" for n r d
    proof (cases "(n, r, d) \<in> A")
      case True
      have "audited r d a'" if "audited r d a" using that a'(3) by (auto simp: audited_def)
      with k [OF True] show ?thesis using e [of d] step_follows(1) [OF s, of d] by (cases "n = i") auto
    next
      case False
      with that have "n = i" "r = th_req (ts ! i)" "th_phase (ts ! i) = PPrompt" "fst (pr (th_req (ts ! i)) (bk_prompt b)) = (None, d)"
        by (auto simp: answer_of_def st split: if_splits prod.splits option.splits)
      then show ?thesis using step_follows(2) [OF s] \<open>i < length ts\<close> by auto
    qed
    then have "answers_kept (A \<union> answer_of pr i st) (?ts, cs', b')" unfolding answers_kept_def prod.case using a'(1,2) by blast
    then show ?thesis using s True by (simp add: checks_step_def st)
  qed (use assms in \<open>simp add: st checks_step_def answer_of_def\<close>)
qed

lemma broker_step_answers_kept:
  "answers_kept A (snd s) \<Longrightarrow> answers_kept (A \<union> act_answer pr a s) (snd (broker_step pr y a s))"
proof (cases a)
  case (LoadActs i)
  obtain ls ts cs b where s: "s = (ls, ts, cs, b)" by (metis prod_cases4)
  obtain ph b' where l: "load_step y (ls ! i) b = (ph, b')" by (cases "load_step y (ls ! i) b")
  then have "bk_audit b' = bk_audit b" by (auto simp: load_step_def split: load_phase.splits)
  moreover assume "answers_kept A (snd s)"
  ultimately show ?thesis by (simp add: LoadActs s l answers_kept_def)
qed (cases s; simp add: checks_step_answers_kept)

lemma broker_run_answers_kept:
  "answers_kept A (snd s) \<Longrightarrow> answers_kept (A \<union> run_answers pr y sched s) (snd (broker_run pr y sched s))"
proof (induction sched arbitrary: A s)
  case (Cons a sched)
  from Cons.IH [OF broker_step_answers_kept [OF Cons.prems]] show ?case by (simp add: Un_assoc)
qed simp

text \<open>
  C20: no answer goes unrecorded: when the log can be written, every answer that a prompt got in a
  run is in it, with the request it was about, as soon as its check has been scheduled eight
  times, whatever ran in between.
\<close>

theorem concurrent_answers_audited:
  assumes "bk_audit b = Some a" and "\<not> al_broken a" and "broker_run pr y sched (ls, ts, cs, b) = (ls', ts', cs', b')"
    and "(n, r, d) \<in> run_answers pr y sched (ls, ts, cs, b)" and "8 \<le> count_list sched (CheckActs n)"
  shows "\<exists>a' now. bk_audit b' = Some a' \<and> audit_entry now r d ''user'' \<in> set (al_entries a')"
proof -
  have "answers_kept {} (snd (ls, ts, cs, b))" using assms(1,2) by (simp add: answers_kept_def)
  from broker_run_answers_kept [OF this, of pr y sched]
  have k: "answers_kept (run_answers pr y sched (ls, ts, cs, b)) (ts', cs', b')" by (simp add: assms(3))
  then obtain a' where a': "bk_audit b' = Some a'" "n < length ts'"
    "th_phase (ts' ! n) \<in> {PSet d, PSave d, PAudit d ''user''} \<or> audited r d a'"
    using assms(4) unfolding answers_kept_def prod.case by fastforce
  have "\<exists>d. th_phase (ts' ! n) = PDone d"
    using run_checks_end [OF assms(3)] broker_run_length [OF assms(3)] a'(2) assms(5) by auto
  with a' show ?thesis by (auto simp: audited_def)
qed

theorem concurrent_answers_audited_witness:
  "\<exists>ls ts cs b a now. broker_run prepared one_rule_codec busy_sched busy_start = (ls, ts, cs, b) \<and> bk_audit b = Some a \<and>
     audit_entry now (network_request ''a'' ''api.test'') DecisionOnce ''user'' \<in> set (al_entries a)"
proof -
  obtain ls ts cs b where r: "broker_run prepared one_rule_codec busy_sched busy_start = (ls, ts, cs, b)" by (rule busy_end)
  have c: "8 \<le> count_list busy_sched (CheckActs 0)" by (simp add: busy_sched_def eval_nat_numeral)
  have a: "bk_audit (demo_broker [DecisionOnce]) = Some \<lparr>al_entries = [], al_broken = False\<rparr>" by (simp add: demo_broker_def)
  show ?thesis
    using concurrent_answers_audited [OF a _ r [unfolded busy_start_def] _ c, folded busy_start_def] r by (simp add: busy_answers)
qed

end
