(* ===== verification/Proxy_Manager.thy ===== *)
theory Proxy_Manager
  imports Network_Proxy Netns
begin

text \<open>
  The per-container proxies of \<open>daemon/proxy_manager.go\<close> and the routing of connections from
  virtual machines to them in \<open>daemon/vsock_listener.go\<close>.  An HTTP server that is made is
  numbered; \<open>pm_serving\<close> holds the numbers of those that have not been shut down.  The answer
  of \<open>net.Listen\<close> is an argument.
\<close>

record managedProxy =
  mp_server :: nat
  mp_proxy :: NetworkProxy
  mp_addr :: string

record 'k ProxyManager =
  pm_proxies :: "string \<rightharpoonup> managedProxy"
  pm_isolator :: "(NetworkIsolator \<times> 'k net_state) option"
  pm_made :: nat
  pm_serving :: "nat set"

definition NewProxyManager :: "(NetworkIsolator \<times> 'k net_state) option \<Rightarrow> 'k ProxyManager" where
  "NewProxyManager isol = \<lparr>pm_proxies = Map.empty, pm_isolator = isol, pm_made = 0, pm_serving = {}\<rparr>"

text \<open>\<open>srv.Shutdown\<close>; its error is ignored everywhere.\<close>

definition shutdown :: "managedProxy \<Rightarrow> 'k ProxyManager \<Rightarrow> 'k ProxyManager" where
  "shutdown mp pm = pm\<lparr>pm_serving := pm_serving pm - {mp_server mp}\<rparr>"

definition ProxyManager_Start ::
  "'k net_kernel \<Rightarrow> (string \<Rightarrow> (ip_addr \<times> nat) option) \<Rightarrow> go_error + string \<Rightarrow> string \<Rightarrow> 'k ProxyManager \<Rightarrow>
     (go_error + string) \<times> 'k ProxyManager" where
  "ProxyManager_Start nk v6 listen c pm =
     (if pm_proxies pm c \<noteq> None then (Inl (''proxy already running for container '' @ c), pm)
      else case listen of
        Inl e \<Rightarrow> (Inl (''failed to listen: '' @ e), pm)
      | Inr a \<Rightarrow>
        let mp = \<lparr>mp_server = pm_made pm, mp_proxy = NewNetworkProxy c a, mp_addr = a\<rparr>;
            pm1 = pm\<lparr>pm_proxies := (pm_proxies pm)(c \<mapsto> mp), pm_made := Suc (pm_made pm),
                     pm_serving := insert (pm_made pm) (pm_serving pm)\<rparr>
        in case pm_isolator pm1 of
             None \<Rightarrow> (Inr a, pm1)
           | Some (ni, n) \<Rightarrow>
             (case Isolator_Setup nk v6 c a ni n of
                (Inl e, ni', n') \<Rightarrow>
                  (Inl (''network isolation failed: '' @ e),
                   (shutdown mp pm1)\<lparr>pm_proxies := (pm_proxies pm1)(c := None), pm_isolator := Some (ni', n')\<rparr>)
              | (Inr ns, ni', n') \<Rightarrow> (Inr a, pm1\<lparr>pm_isolator := Some (ni', n')\<rparr>)))"

definition ProxyManager_Stop ::
  "'k net_kernel \<Rightarrow> string \<Rightarrow> 'k ProxyManager \<Rightarrow> go_error option \<times> 'k ProxyManager" where
  "ProxyManager_Stop nk c pm =
     (case pm_proxies pm c of
        None \<Rightarrow> (Some (''no proxy running for container '' @ c), pm)
      | Some mp \<Rightarrow>
        (None, shutdown mp (pm\<lparr>pm_proxies := (pm_proxies pm)(c := None),
            pm_isolator := map_option (\<lambda>(ni, n). snd (Isolator_Teardown nk c ni n)) (pm_isolator pm)\<rparr>)))"

text \<open>The maps are visited in the orders \<open>isos\<close> and \<open>names\<close>.\<close>

definition ProxyManager_StopAll ::
  "'k net_kernel \<Rightarrow> string list \<Rightarrow> string list \<Rightarrow> 'k ProxyManager \<Rightarrow> 'k ProxyManager" where
  "ProxyManager_StopAll nk isos names pm =
     fold shutdown (List.map_filter (pm_proxies pm) names)
       (pm\<lparr>pm_proxies := Map.empty,
           pm_isolator := map_option (\<lambda>(ni, n). Isolator_TeardownAll nk isos ni n) (pm_isolator pm)\<rparr>)"

text \<open>
  \<open>VsockListener.handleConn\<close> takes the first proxy that the iteration over the map yields:
  any of them, since the order of a map is not specified.  With none the connection is closed.
\<close>

definition vsock_may_route :: "'k ProxyManager \<Rightarrow> string option \<Rightarrow> bool" where
  "vsock_may_route pm a \<longleftrightarrow>
     (case a of
        None \<Rightarrow> pm_proxies pm = Map.empty
      | Some addr \<Rightarrow> \<exists>c mp. pm_proxies pm c = Some mp \<and> mp_addr mp = addr)"

section \<open>The contract of a registry of proxies\<close>

text \<open>
  What the daemon relies on: the manager is, to its callers, a map from the names of running
  containers to the addresses of their proxies.  A successful start adds a new entry, a failed
  one changes nothing, and a stop removes the entry.
\<close>

locale proxy_registry =
  fixes start :: "string \<Rightarrow> 'm \<Rightarrow> (go_error + string) \<times> 'm"
    and stop :: "string \<Rightarrow> 'm \<Rightarrow> 'm"
    and addrs :: "'m \<Rightarrow> (string \<rightharpoonup> string)"
    and reg_ok :: "'m \<Rightarrow> bool"
  assumes start_adds: "reg_ok m \<Longrightarrow> start c m = (Inr a, m') \<Longrightarrow>
      reg_ok m' \<and> addrs m c = None \<and> addrs m' = (addrs m)(c \<mapsto> a)"
    and start_fails: "reg_ok m \<Longrightarrow> start c m = (Inl e, m') \<Longrightarrow> reg_ok m' \<and> addrs m' = addrs m"
    and stop_removes: "reg_ok m \<Longrightarrow> reg_ok (stop c m) \<and> addrs (stop c m) = (addrs m)(c := None)"
begin

text \<open>Stopping what was started gives back the map, and a running container cannot be started again.\<close>

lemma start_stop: "reg_ok m \<Longrightarrow> start c m = (Inr a, m') \<Longrightarrow> addrs (stop c m') = addrs m"
  using start_adds stop_removes by (metis fun_upd_triv fun_upd_upd)

lemma second_start_fails: "reg_ok m \<Longrightarrow> addrs m c \<noteq> None \<Longrightarrow> \<exists>e m'. start c m = (Inl e, m')"
  using start_adds by (metis prod.collapse sum.exhaust)

text \<open>
  The bookkeeping of a client that keeps one activity in flight per running proxy, in a
  list: a start appends the new name and a stop drops the name of the activity that ends.
\<close>

lemma flight_start:
  assumes "reg_ok m" and "dom (addrs m) = set ns" and "distinct ns" and "start c m = (Inr a, m')"
  shows "dom (addrs m') = set (ns @ [c])" and "distinct (ns @ [c])"
  using start_adds [OF assms(1,4)] assms(2,3) by auto

lemma flight_stop:
  assumes "reg_ok m" and "dom (addrs m) = set ns" and "distinct ns" and "ns = xs @ c # ys"
  shows "dom (addrs (stop c m)) = set (xs @ ys)" and "distinct (xs @ ys)"
  using stop_removes [OF assms(1), of c] assms(2-4) by auto

end

text \<open>
  The manager's invariant: the servers that serve are exactly those of the registered
  proxies, no two containers share one, every proxy works for the container it is registered
  for, and the namespaces are those of the same containers.
\<close>

definition pm_ok :: "'k ProxyManager \<Rightarrow> bool" where
  "pm_ok pm \<longleftrightarrow>
     pm_serving pm = mp_server ` ran (pm_proxies pm) \<and>
     (\<forall>c d mp mq. pm_proxies pm c = Some mp \<longrightarrow> pm_proxies pm d = Some mq \<longrightarrow> mp_server mp = mp_server mq \<longrightarrow> c = d) \<and>
     (\<forall>c mp. pm_proxies pm c = Some mp \<longrightarrow> mp_server mp < pm_made pm \<and> np_container (mp_proxy mp) = c) \<and>
     (\<forall>ni n. pm_isolator pm = Some (ni, n) \<longrightarrow> dom (ni_netns ni) = dom (pm_proxies pm))"

definition pm_addrs :: "'k ProxyManager \<Rightarrow> (string \<rightharpoonup> string)" where
  "pm_addrs pm = (\<lambda>c. map_option mp_addr (pm_proxies pm c))"

lemma pm_addrs_dom: "dom (pm_addrs pm) = dom (pm_proxies pm)"
  by (auto simp: pm_addrs_def)

lemma pm_ok_new: "(\<forall>ni n. isol = Some (ni, n) \<longrightarrow> ni_netns ni = Map.empty) \<Longrightarrow> pm_ok (NewProxyManager isol)"
  by (auto simp: pm_ok_def NewProxyManager_def)

lemma Setup_dom:
  assumes "Isolator_Setup nk v6 c a ni n = (r, ni', n')"
  shows "dom (ni_netns ni') = (case r of Inl e \<Rightarrow> dom (ni_netns ni) | Inr ns \<Rightarrow> insert c (dom (ni_netns ni)))"
  using assms by (auto simp: Isolator_Setup_def Let_def split: if_splits option.splits prod.splits)

lemma Teardown_dom: "Isolator_Teardown nk c ni n = (r, ni', n') \<Longrightarrow> dom (ni_netns ni') = dom (ni_netns ni) - {c}"
  by (auto simp: Isolator_Teardown_def split: option.splits if_splits)

lemma pm_fresh_server:
  assumes "pm_ok pm"
  shows "pm_made pm \<notin> pm_serving pm" and "pm_proxies pm d = Some mp \<Longrightarrow> mp_server mp \<noteq> pm_made pm"
  using assms unfolding pm_ok_def by (auto simp: ran_def) (metis less_irrefl)+

lemma pm_insert_ok:
  assumes "pm_ok pm" and "pm_proxies pm c = None"
    and "\<forall>ni n. isol = Some (ni, n) \<longrightarrow> dom (ni_netns ni) = insert c (dom (pm_proxies pm))"
  shows "pm_ok (pm\<lparr>pm_proxies := (pm_proxies pm)(c \<mapsto> \<lparr>mp_server = pm_made pm, mp_proxy = NewNetworkProxy c a, mp_addr = a\<rparr>),
    pm_made := Suc (pm_made pm), pm_serving := insert (pm_made pm) (pm_serving pm), pm_isolator := isol\<rparr>)"
  using assms pm_fresh_server(2) [OF assms(1)] pm_fresh_server(2) [OF assms(1), symmetric]
  by (auto simp: pm_ok_def NewNetworkProxy_def less_Suc_eq)

text \<open>Taking a container out, with its server and its namespace.\<close>

lemma pm_remove_ok:
  assumes "pm_ok pm" and "pm_proxies pm c = Some mp"
    and "\<forall>ni n. isol = Some (ni, n) \<longrightarrow> dom (ni_netns ni) = dom (pm_proxies pm) - {c}"
  shows "pm_ok (shutdown mp (pm\<lparr>pm_proxies := (pm_proxies pm)(c := None), pm_isolator := isol\<rparr>))"
proof -
  have ser: "mp_server ` ran ((pm_proxies pm)(c := None)) = mp_server ` ran (pm_proxies pm) - {mp_server mp}"
  proof (intro set_eqI iffI)
    fix x
    assume "x \<in> mp_server ` ran ((pm_proxies pm)(c := None))"
    then obtain d mq where "d \<noteq> c" "pm_proxies pm d = Some mq" "x = mp_server mq"
      by (auto simp: ran_def split: if_splits)
    with assms(1,2) show "x \<in> mp_server ` ran (pm_proxies pm) - {mp_server mp}"
      unfolding pm_ok_def by (auto simp: ran_def)
  next
    fix x
    assume "x \<in> mp_server ` ran (pm_proxies pm) - {mp_server mp}"
    then obtain d mq where "pm_proxies pm d = Some mq" "x = mp_server mq" "x \<noteq> mp_server mp" by (auto simp: ran_def)
    moreover from this assms(2) have "d \<noteq> c" by auto
    ultimately show "x \<in> mp_server ` ran ((pm_proxies pm)(c := None))" by (auto simp: ran_def)
  qed
  show ?thesis unfolding pm_ok_def
  proof (intro conjI)
    show "pm_serving (shutdown mp (pm\<lparr>pm_proxies := (pm_proxies pm)(c := None), pm_isolator := isol\<rparr>)) =
        mp_server ` ran (pm_proxies (shutdown mp (pm\<lparr>pm_proxies := (pm_proxies pm)(c := None), pm_isolator := isol\<rparr>)))"
      using assms(1) ser by (simp add: shutdown_def pm_ok_def)
  qed (use assms in \<open>auto simp: shutdown_def pm_ok_def split: if_splits\<close>)
qed

lemma Start_ok:
  assumes "pm_ok pm" and "ProxyManager_Start nk v6 listen c pm = (r, pm')"
  shows "pm_ok pm' \<and> (case r of
      Inl e \<Rightarrow> pm_addrs pm' = pm_addrs pm
    | Inr a \<Rightarrow> pm_addrs pm c = None \<and> pm_addrs pm' = (pm_addrs pm)(c \<mapsto> a) \<and> listen = Inr a)"
proof (cases "pm_proxies pm c")
  case (Some mp)
  with assms show ?thesis by (auto simp: ProxyManager_Start_def)
next
  case None
  show ?thesis
  proof (cases listen)
    case (Inl e)
    with None assms show ?thesis by (auto simp: ProxyManager_Start_def)
  next
    case (Inr a)
    let ?mp = "\<lparr>mp_server = pm_made pm, mp_proxy = NewNetworkProxy c a, mp_addr = a\<rparr>"
    let ?pm = "\<lambda>isol. pm\<lparr>pm_proxies := (pm_proxies pm)(c \<mapsto> ?mp), pm_made := Suc (pm_made pm),
      pm_serving := insert (pm_made pm) (pm_serving pm), pm_isolator := isol\<rparr>"
    show ?thesis
    proof (cases "pm_isolator pm")
      case no: None
      have "pm' = ?pm None" "r = Inr a" using assms(2) None Inr no by (auto simp: ProxyManager_Start_def Let_def)
      then show ?thesis using pm_insert_ok [OF assms(1) None, of None a] None Inr by (auto simp: pm_addrs_def)
    next
      case (Some x)
      obtain ni n r1 ni' n' where x: "x = (ni, n)" "Isolator_Setup nk v6 c a ni n = (r1, ni', n')" by (metis prod_cases3 prod.collapse)
      have d: "dom (ni_netns ni) = dom (pm_proxies pm)" using assms(1) Some x(1) by (simp add: pm_ok_def)
      show ?thesis
      proof (cases r1)
        case err: (Inl e)
        have "pm' = (shutdown ?mp (?pm (Some (ni, n))))\<lparr>pm_proxies := (pm_proxies pm)(c := None), pm_isolator := Some (ni', n')\<rparr>"
            "\<exists>e. r = Inl e"
          using assms(2) None Inr Some x err by (auto simp: ProxyManager_Start_def Let_def shutdown_def)
        moreover have "(pm_proxies pm)(c := None) = pm_proxies pm" using None by auto
        ultimately have "pm' = pm\<lparr>pm_made := Suc (pm_made pm), pm_isolator := Some (ni', n')\<rparr>" "\<exists>e. r = Inl e"
          using pm_fresh_server(1) [OF assms(1)] by (simp_all add: shutdown_def)
        then show ?thesis using assms(1) d Setup_dom [OF x(2)] err by (auto simp: pm_ok_def pm_addrs_def less_Suc_eq)
      next
        case ok: (Inr ns)
        have "pm' = ?pm (Some (ni', n'))" "r = Inr a"
          using assms(2) None Inr Some x ok by (auto simp: ProxyManager_Start_def Let_def)
        then show ?thesis
          using pm_insert_ok [OF assms(1) None, of "Some (ni', n')" a] Setup_dom [OF x(2)] d ok None Inr by (auto simp: pm_addrs_def)
      qed
    qed
  qed
qed

lemma Stop_ok:
  assumes "pm_ok pm" and "ProxyManager_Stop nk c pm = (r, pm')"
  shows "pm_ok pm' \<and> pm_addrs pm' = (pm_addrs pm)(c := None)"
proof (cases "pm_proxies pm c")
  case None
  with assms show ?thesis by (auto simp: ProxyManager_Stop_def pm_addrs_def)
next
  case (Some mp)
  let ?isol = "map_option (\<lambda>(ni, n). snd (Isolator_Teardown nk c ni n)) (pm_isolator pm)"
  have "\<forall>ni n. ?isol = Some (ni, n) \<longrightarrow> dom (ni_netns ni) = dom (pm_proxies pm) - {c}"
  proof (intro allI impI)
    fix ni n
    assume "?isol = Some (ni, n)"
    then obtain ni0 n0 where i: "pm_isolator pm = Some (ni0, n0)" and t: "snd (Isolator_Teardown nk c ni0 n0) = (ni, n)"
      by auto
    then obtain r0 where "Isolator_Teardown nk c ni0 n0 = (r0, ni, n)" by (metis prod.collapse)
    from Teardown_dom [OF this] i assms(1) show "dom (ni_netns ni) = dom (pm_proxies pm) - {c}" by (simp add: pm_ok_def)
  qed
  from pm_remove_ok [OF assms(1) Some this] Some assms(2) show ?thesis
    by (auto simp: ProxyManager_Stop_def shutdown_def pm_addrs_def)
qed

lemma fold_shutdown: "fold shutdown mps pm = pm\<lparr>pm_serving := pm_serving pm - mp_server ` set mps\<rparr>"
proof (induction mps arbitrary: pm)
  case (Cons mp mps)
  have "S - {x} - T = S - insert x T" for S T :: "nat set" and x by blast
  with Cons show ?case by (simp add: shutdown_def)
qed simp

lemma StopAll_ok:
  assumes "pm_ok pm" and "set names = dom (pm_proxies pm)"
  shows "pm_ok (ProxyManager_StopAll nk isos names pm)" and "pm_serving (ProxyManager_StopAll nk isos names pm) = {}"
proof -
  have "set (List.map_filter (pm_proxies pm) names) = ran (pm_proxies pm)"
    using assms(2) by (force simp: map_filter_def ran_def)
  then show "pm_serving (ProxyManager_StopAll nk isos names pm) = {}"
    using assms(1) by (simp add: ProxyManager_StopAll_def fold_shutdown pm_ok_def)
  then show "pm_ok (ProxyManager_StopAll nk isos names pm)"
    by (auto simp: pm_ok_def ProxyManager_StopAll_def fold_shutdown Isolator_TeardownAll_def)
qed

interpretation proxies: proxy_registry
  "ProxyManager_Start nk v6 listen" "\<lambda>c m. snd (ProxyManager_Stop nk c m)" pm_addrs pm_ok for nk v6 listen
proof
  show "pm_ok m' \<and> pm_addrs m c = None \<and> pm_addrs m' = (pm_addrs m)(c \<mapsto> a)"
    if "pm_ok m" "ProxyManager_Start nk v6 listen c m = (Inr a, m')" for m m' c a
    using Start_ok [OF that] by simp
  show "pm_ok m' \<and> pm_addrs m' = pm_addrs m"
    if "pm_ok m" "ProxyManager_Start nk v6 listen c m = (Inl e, m')" for m m' c e
    using Start_ok [OF that] by simp
  show "pm_ok (snd (ProxyManager_Stop nk c m)) \<and> pm_addrs (snd (ProxyManager_Stop nk c m)) = (pm_addrs m)(c := None)"
    if "pm_ok m" for m c
    using Stop_ok [OF that, of nk c] by (metis prod.collapse)
qed

section \<open>Runs of the manager\<close>

inductive pm_reaches :: "'k net_kernel \<Rightarrow> 'k ProxyManager \<Rightarrow> bool" for nk where
  pm_new: "(\<forall>ni n. isol = Some (ni, n) \<longrightarrow> ni_netns ni = Map.empty) \<Longrightarrow> pm_reaches nk (NewProxyManager isol)"
| pm_start: "pm_reaches nk pm \<Longrightarrow> ProxyManager_Start nk v6 listen c pm = (r, pm') \<Longrightarrow> pm_reaches nk pm'"
| pm_stop: "pm_reaches nk pm \<Longrightarrow> ProxyManager_Stop nk c pm = (e, pm') \<Longrightarrow> pm_reaches nk pm'"
| pm_stop_all: "pm_reaches nk pm \<Longrightarrow> set names = dom (pm_proxies pm) \<Longrightarrow> pm_reaches nk (ProxyManager_StopAll nk isos names pm)"

lemma pm_reaches_ok: "pm_reaches nk pm \<Longrightarrow> pm_ok pm"
proof (induction rule: pm_reaches.induct)
  case (pm_start pm v6 listen c r pm')
  then show ?case using Start_ok by blast
next
  case (pm_stop pm c e pm')
  then show ?case using Stop_ok by blast
qed (auto intro: pm_ok_new StopAll_ok(1))

text \<open>
  Whatever sequence of starts, failed starts and stops the manager sees, exactly the
  servers of registered proxies are serving (none is left behind, not by a start whose
  network isolation failed either), every proxy asks for permission in the name of the
  container it is registered for, and the network namespaces are those of these containers.
\<close>

theorem proxies_accounted_for:
  assumes "pm_reaches nk pm"
  shows "pm_serving pm = mp_server ` ran (pm_proxies pm) \<and>
    (\<forall>c mp. pm_proxies pm c = Some mp \<longrightarrow> np_container (mp_proxy mp) = c) \<and>
    (\<forall>ni n. pm_isolator pm = Some (ni, n) \<longrightarrow> dom (ni_netns ni) = dom (pm_proxies pm))"
  using pm_reaches_ok [OF assms] by (simp add: pm_ok_def)

theorem proxies_accounted_for_witness:
  "\<exists>pm :: string set ProxyManager. pm_serving pm = {0} \<and> mp_server ` ran (pm_proxies pm) = {0}"
proof -
  obtain r pm' where s: "ProxyManager_Start calm_kernel (\<lambda>_. None) (Inr ''127.0.0.1:40000'') ''demo'' (NewProxyManager None) = (r, pm')"
    by fastforce
  then have "pm_serving pm' = {0}" by (auto simp: ProxyManager_Start_def NewProxyManager_def Let_def)
  moreover have "pm_reaches calm_kernel pm'" by (rule pm_start [OF pm_new s]) simp
  ultimately show ?thesis using proxies_accounted_for [of calm_kernel pm'] by auto
qed

text \<open>
  C21: the manager refines a map from the names of running containers to the addresses of
  their proxies: a start that succeeds adds a new entry with the address it returns, a start
  that fails changes no entry, a stop removes the entry and fails exactly if there was none.
\<close>

theorem proxy_manager_refines_map:
  assumes "pm_reaches nk pm"
  shows "(case ProxyManager_Start nk v6 listen c pm of
      (Inl e, pm') \<Rightarrow> pm_addrs pm' = pm_addrs pm
    | (Inr a, pm') \<Rightarrow> pm_addrs pm c = None \<and> pm_addrs pm' = (pm_addrs pm)(c \<mapsto> a)) \<and>
    (case ProxyManager_Stop nk c pm of
      (e, pm') \<Rightarrow> pm_addrs pm' = (pm_addrs pm)(c := None) \<and> (e = None \<longleftrightarrow> pm_addrs pm c \<noteq> None))"
proof -
  note ok = pm_reaches_ok [OF assms]
  have "fst (ProxyManager_Stop nk c pm) = None \<longleftrightarrow> pm_addrs pm c \<noteq> None"
    by (simp add: ProxyManager_Stop_def pm_addrs_def split: option.split)
  moreover have "pm_addrs (snd (ProxyManager_Stop nk c pm)) = (pm_addrs pm)(c := None)"
    using proxies.stop_removes [OF ok, of nk c] by blast
  moreover obtain r pm' where s: "ProxyManager_Start nk v6 listen c pm = (r, pm')" by fastforce
  moreover have "case r of Inl e \<Rightarrow> pm_addrs pm' = pm_addrs pm | Inr a \<Rightarrow> pm_addrs pm c = None \<and> pm_addrs pm' = (pm_addrs pm)(c \<mapsto> a)"
    using proxies.start_adds [OF ok] proxies.start_fails [OF ok] s by (cases r) auto
  ultimately show ?thesis by (auto split: prod.splits sum.splits)
qed

theorem proxy_manager_refines_map_witness:
  "\<exists>pm' :: string set ProxyManager. pm_addrs pm' = [''demo'' \<mapsto> ''127.0.0.1:40000'']"
proof -
  have r: "pm_reaches calm_kernel (NewProxyManager None)" by (rule pm_new) simp
  obtain pm' where s: "ProxyManager_Start calm_kernel (\<lambda>_. None) (Inr ''127.0.0.1:40000'') ''demo'' (NewProxyManager None) = (Inr ''127.0.0.1:40000'', pm')"
    by (simp add: ProxyManager_Start_def NewProxyManager_def Let_def)
  have "pm_addrs (NewProxyManager None :: string set ProxyManager) = Map.empty" by (auto simp: pm_addrs_def NewProxyManager_def)
  moreover note proxy_manager_refines_map [OF r, of "''demo''" "\<lambda>_. None" "Inr ''127.0.0.1:40000''"]
  ultimately show ?thesis unfolding s by auto
qed

section \<open>Named network namespaces\<close>

text \<open>The namespaces of the kernel beside those, \<open>B\<close>, that were there before the manager.\<close>

definition pm_nets :: "('k \<Rightarrow> string set) \<Rightarrow> string set \<Rightarrow> 'k ProxyManager \<Rightarrow> bool" where
  "pm_nets named B pm \<longleftrightarrow> (\<forall>ni n. pm_isolator pm = Some (ni, n) \<longrightarrow> nets_match named B ni n)"

lemma pm_nets_new: "(\<forall>ni n. isol = Some (ni, n) \<longrightarrow> ni_netns ni = Map.empty \<and> net_names named n = B) \<Longrightarrow> pm_nets named B (NewProxyManager isol)"
  by (auto simp: pm_nets_def NewProxyManager_def nets_match_def)

lemma pm_nets_cong: "pm_isolator pm' = pm_isolator pm \<Longrightarrow> pm_nets named B pm' = pm_nets named B pm"
  by (simp add: pm_nets_def)

lemma Start_nets:
  assumes "ns_kernel nk named" and "pm_nets named B pm" and "ProxyManager_Start nk v6 listen c pm = (r, pm')"
  shows "pm_nets named B pm'"
proof (cases "pm_isolator pm' = pm_isolator pm")
  case True
  then show ?thesis using assms(2) pm_nets_cong by blast
next
  case False
  then obtain ni n a r1 ni' n' where i: "pm_isolator pm = Some (ni, n)" "Isolator_Setup nk v6 c a ni n = (r1, ni', n')" "pm_isolator pm' = Some (ni', n')"
    using assms(3) by (auto simp: ProxyManager_Start_def Let_def shutdown_def split: if_splits sum.splits option.splits prod.splits)
  with Setup_match [OF assms(1) _ i(2)] assms(2) show ?thesis by (simp add: pm_nets_def)
qed

lemma Stop_nets:
  assumes "ns_kernel nk named" and "pm_nets named B pm" and "ProxyManager_Stop nk c pm = (r, pm')"
  shows "pm_nets named B pm'"
proof (cases "pm_isolator pm' = pm_isolator pm")
  case True
  then show ?thesis using assms(2) pm_nets_cong by blast
next
  case False
  then have "pm_isolator pm' = map_option (\<lambda>(ni, n). snd (Isolator_Teardown nk c ni n)) (pm_isolator pm)"
    using assms(3) by (auto simp: ProxyManager_Stop_def shutdown_def split: option.splits)
  with False obtain ni n where i: "pm_isolator pm = Some (ni, n)" "pm_isolator pm' = Some (snd (Isolator_Teardown nk c ni n))"
    by (cases "pm_isolator pm") auto
  obtain r1 ni' n' where t: "Isolator_Teardown nk c ni n = (r1, ni', n')" by (metis prod_cases3)
  from Teardown_match [OF assms(1) _ t] i t assms(2) show ?thesis by (simp add: pm_nets_def)
qed

text \<open>Stopping all proxies removes every namespace that was made, if every entry of the isolator's map is visited.\<close>

lemma StopAll_nets:
  assumes "ns_kernel nk named" and "pm_nets named B pm" and "pm_isolator pm = Some (ni, n)" and "visits isos (ni_netns ni)"
  shows "\<exists>ni' n'. pm_isolator (ProxyManager_StopAll nk isos names pm) = Some (ni', n') \<and> ni_netns ni' = Map.empty \<and>
    net_names named n' = B \<and> nets_match named B ni' n'"
proof -
  obtain ni' n' where t: "Isolator_TeardownAll nk isos ni n = (ni', n')" by fastforce
  from TeardownAll_match [OF assms(1) _ assms(4) t] assms(2,3) t show ?thesis
    by (auto simp: pm_nets_def ProxyManager_StopAll_def fold_shutdown Isolator_TeardownAll_def)
qed

text \<open>A connection from a virtual machine may reach the proxy of any running container.\<close>

lemma vsock_any_proxy:
  "pm_proxies pm c = Some mp \<Longrightarrow> vsock_may_route pm (Some (mp_addr mp))"
  by (auto simp: vsock_may_route_def)

end
