(* ===== verification/Concurrent_Proxies.thy ===== *)
theory Concurrent_Proxies
  imports Proxy_Manager
begin

text \<open>
  Starts and stops of proxies that overlap.  \<open>ProxyManager.Start\<close> holds the manager's lock to its end,
  while \<open>ProxyManager.Stop\<close> of \<open>daemon/proxy_manager.go\<close> gives it back as soon as the proxy is out of the
  map, and \<open>NetworkIsolator.Teardown\<close> of \<open>daemon/netns.go\<close> gives its own lock back as soon as the
  namespace is out of the isolator's map.  The actions here are the sections in between; any number
  of stops is under way beside at most one start.
\<close>

section \<open>Actions\<close>

text \<open>What a stop still has to do: the teardown of its container, the removal of the links and of the namespace, the shutdown of its server.\<close>

datatype stop =
    StTeardown string managedProxy
  | StRemove isolatedNet managedProxy
  | StShutdown managedProxy

fun stop_proxy :: "stop \<Rightarrow> managedProxy" where
  "stop_proxy (StTeardown c mp) = mp"
| "stop_proxy (StRemove inet mp) = mp"
| "stop_proxy (StShutdown mp) = mp"

abbreviation stop_server :: "stop \<Rightarrow> nat" where
  "stop_server s \<equiv> mp_server (stop_proxy s)"

fun teardown_name :: "stop \<Rightarrow> string option" where
  "teardown_name (StTeardown c mp) = Some c"
| "teardown_name s = None"

text \<open>The manager, the container and proxy of the start that holds the lock and has yet to set up its namespace, and the stops.\<close>

record 'k proxy_sys =
  px_pm :: "'k ProxyManager"
  px_start :: "(string \<times> managedProxy) option"
  px_stops :: "stop list"

definition start_register :: "go_error + string \<Rightarrow> string \<Rightarrow> 'k proxy_sys \<Rightarrow> (go_error + string) \<times> 'k proxy_sys" where
  "start_register listen c st =
     (let pm = px_pm st
      in if pm_proxies pm c \<noteq> None then (Inl (''proxy already running for container '' @ c), st)
      else case listen of
        Inl e \<Rightarrow> (Inl (''failed to listen: '' @ e), st)
      | Inr a \<Rightarrow>
        let mp = \<lparr>mp_server = pm_made pm, mp_proxy = NewNetworkProxy c a, mp_addr = a\<rparr>
        in (Inr a, st\<lparr>px_pm := pm\<lparr>pm_proxies := (pm_proxies pm)(c \<mapsto> mp), pm_made := Suc (pm_made pm),
                                   pm_serving := insert (pm_made pm) (pm_serving pm)\<rparr>,
                      px_start := (if pm_isolator pm = None then None else Some (c, mp))\<rparr>))"

definition start_setup ::
  "'k net_kernel \<Rightarrow> (string \<Rightarrow> (ip_addr \<times> nat) option) \<Rightarrow> 'k proxy_sys \<Rightarrow> ((go_error + string) \<times> 'k proxy_sys) option" where
  "start_setup nk v6 st =
     (case (px_start st, pm_isolator (px_pm st)) of
        (Some (c, mp), Some (ni, n)) \<Rightarrow>
          (case Isolator_Setup nk v6 c (mp_addr mp) ni n of
             (Inl e, ni', n') \<Rightarrow>
               let pm = shutdown mp (px_pm st)
               in Some (Inl (''network isolation failed: '' @ e),
                    st\<lparr>px_pm := pm\<lparr>pm_proxies := (pm_proxies pm)(c := None), pm_isolator := Some (ni', n')\<rparr>, px_start := None\<rparr>)
           | (Inr ns, ni', n') \<Rightarrow>
               Some (Inr (mp_addr mp), st\<lparr>px_pm := (px_pm st)\<lparr>pm_isolator := Some (ni', n')\<rparr>, px_start := None\<rparr>))
      | _ \<Rightarrow> None)"

definition stop_begin :: "string \<Rightarrow> 'k proxy_sys \<Rightarrow> go_error option \<times> 'k proxy_sys" where
  "stop_begin c st =
     (let pm = px_pm st
      in case pm_proxies pm c of
        None \<Rightarrow> (Some (''no proxy running for container '' @ c), st)
      | Some mp \<Rightarrow>
        (None, st\<lparr>px_pm := pm\<lparr>pm_proxies := (pm_proxies pm)(c := None)\<rparr>,
                  px_stops := px_stops st @ [if pm_isolator pm = None then StShutdown mp else StTeardown c mp]\<rparr>))"

text \<open>The next action of the \<open>i\<close>-th stop.  An error of the teardown is only logged.\<close>

definition stop_step :: "'k net_kernel \<Rightarrow> nat \<Rightarrow> 'k proxy_sys \<Rightarrow> 'k proxy_sys" where
  "stop_step nk i st =
     (let pm = px_pm st
      in if length (px_stops st) \<le> i then st
      else case px_stops st ! i of
        StTeardown c mp \<Rightarrow>
          (case pm_isolator pm of
             None \<Rightarrow> st\<lparr>px_stops := (px_stops st)[i := StShutdown mp]\<rparr>
           | Some (ni, n) \<Rightarrow>
             (case ni_netns ni c of
                None \<Rightarrow> st\<lparr>px_stops := (px_stops st)[i := StShutdown mp]\<rparr>
              | Some inet \<Rightarrow>
                st\<lparr>px_pm := pm\<lparr>pm_isolator := Some (ni\<lparr>ni_netns := (ni_netns ni)(c := None)\<rparr>, n)\<rparr>,
                   px_stops := (px_stops st)[i := StRemove inet mp]\<rparr>))
      | StRemove inet mp \<Rightarrow>
          st\<lparr>px_pm := pm\<lparr>pm_isolator := map_option (\<lambda>(ni, n). (ni, remove_net nk inet n)) (pm_isolator pm)\<rparr>,
             px_stops := (px_stops st)[i := StShutdown mp]\<rparr>
      | StShutdown mp \<Rightarrow>
          st\<lparr>px_pm := shutdown mp pm, px_stops := take i (px_stops st) @ drop (Suc i) (px_stops st)\<rparr>)"

inductive proxies_step :: "'k net_kernel \<Rightarrow> 'k proxy_sys \<Rightarrow> 'k proxy_sys \<Rightarrow> bool" for nk where
  px_register: "px_start st = None \<Longrightarrow> start_register listen c st = (r, st') \<Longrightarrow> proxies_step nk st st'"
| px_setup: "start_setup nk v6 st = Some (r, st') \<Longrightarrow> proxies_step nk st st'"
| px_begin: "px_start st = None \<Longrightarrow> stop_begin c st = (r, st') \<Longrightarrow> proxies_step nk st st'"
| px_stop: "stop_step nk i st = st' \<Longrightarrow> proxies_step nk st st'"

section \<open>One after the other\<close>

text \<open>
  Without anything in between, the actions of a start and of a stop are \<open>ProxyManager_Start\<close> and
  \<open>ProxyManager_Stop\<close>.
\<close>

definition idle :: "'k ProxyManager \<Rightarrow> 'k proxy_sys" where
  "idle pm = \<lparr>px_pm = pm, px_start = None, px_stops = []\<rparr>"

lemma start_actions:
  assumes "start_register listen c (idle pm) = (r1, st1)"
  shows "ProxyManager_Start nk v6 listen c pm =
    (case start_setup nk v6 st1 of None \<Rightarrow> (r1, px_pm st1) | Some (r2, st2) \<Rightarrow> (r2, px_pm st2))"
proof (cases "pm_proxies pm c = None \<and> (\<exists>a. listen = Inr a)")
  case False
  then show ?thesis using assms
    by (cases listen) (auto simp: start_register_def idle_def start_setup_def ProxyManager_Start_def)
next
  case True
  then obtain a where a: "listen = Inr a" by blast
  show ?thesis
  proof (cases "pm_isolator pm")
    case None
    with True a assms show ?thesis
      by (auto simp: start_register_def idle_def start_setup_def ProxyManager_Start_def Let_def)
  next
    case (Some x)
    obtain ni n r ni' n' where x: "x = (ni, n)" "Isolator_Setup nk v6 c a ni n = (r, ni', n')" by (metis prod_cases3 prod.collapse)
    let ?mp = "\<lparr>mp_server = pm_made pm, mp_proxy = NewNetworkProxy c a, mp_addr = a\<rparr>"
    let ?pm = "pm\<lparr>pm_proxies := (pm_proxies pm)(c \<mapsto> ?mp), pm_made := Suc (pm_made pm), pm_serving := insert (pm_made pm) (pm_serving pm)\<rparr>"
    have st1: "r1 = Inr a" "st1 = \<lparr>px_pm = ?pm, px_start = Some (c, ?mp), px_stops = []\<rparr>"
      using True a Some assms by (auto simp: start_register_def idle_def Let_def)
    have "ProxyManager_Start nk v6 listen c pm = (case r of
        Inl e \<Rightarrow> (Inl (''network isolation failed: '' @ e), (shutdown ?mp ?pm)\<lparr>pm_proxies := (pm_proxies ?pm)(c := None), pm_isolator := Some (ni', n')\<rparr>)
      | Inr ns \<Rightarrow> (Inr a, ?pm\<lparr>pm_isolator := Some (ni', n')\<rparr>))"
      using True a Some x by (cases r) (simp_all add: ProxyManager_Start_def Let_def)
    then show ?thesis using Some x unfolding st1 by (cases r) (simp_all add: start_setup_def shutdown_def Let_def)
  qed
qed

lemma stop_actions:
  assumes "stop_begin c (idle pm) = (r, st)"
  shows "ProxyManager_Stop nk c pm = (r, px_pm (stop_step nk 0 (stop_step nk 0 (stop_step nk 0 st))))"
proof (cases "pm_proxies pm c")
  case None
  with assms show ?thesis by (auto simp: stop_begin_def idle_def stop_step_def ProxyManager_Stop_def)
next
  case (Some mp)
  show ?thesis
  proof (cases "pm_isolator pm")
    case None
    with Some assms show ?thesis by (auto simp: stop_begin_def idle_def stop_step_def ProxyManager_Stop_def shutdown_def Let_def)
  next
    case iso: (Some x)
    obtain ni n where x: "x = (ni, n)" by fastforce
    have st: "r = None" "st = \<lparr>px_pm = pm\<lparr>pm_proxies := (pm_proxies pm)(c := None)\<rparr>, px_start = None, px_stops = [StTeardown c mp]\<rparr>"
      using Some iso assms by (simp_all add: stop_begin_def idle_def Let_def)
    show ?thesis
      by (cases "ni_netns ni c") (simp_all add: st Some iso x stop_step_def ProxyManager_Stop_def Isolator_Teardown_def shutdown_def)
  qed
qed

section \<open>What holds between the actions\<close>

abbreviation servers :: "(string \<rightharpoonup> managedProxy) \<Rightarrow> nat set" where
  "servers ps \<equiv> mp_server ` ran ps"

definition own_servers :: "(string \<rightharpoonup> managedProxy) \<Rightarrow> bool" where
  "own_servers ps \<longleftrightarrow>
     (\<forall>c d mp mq. ps c = Some mp \<longrightarrow> ps d = Some mq \<longrightarrow> mp_server mp = mp_server mq \<longrightarrow> c = d) \<and>
     (\<forall>c mp. ps c = Some mp \<longrightarrow> np_container (mp_proxy mp) = c)"

lemma in_servers: "ps c = Some mp \<Longrightarrow> mp_server mp \<in> servers ps"
  by (rule imageI) (auto simp: ran_def)

lemma servers_remove:
  assumes "own_servers ps" and "ps c = Some mp"
  shows "servers (ps(c := None)) = servers ps - {mp_server mp}" and "own_servers (ps(c := None))"
proof -
  have "x \<in> servers (ps(c := None)) \<longleftrightarrow> (\<exists>d mq. d \<noteq> c \<and> ps d = Some mq \<and> x = mp_server mq)" for x
    by (auto simp: ran_def image_iff)
  moreover have "d \<noteq> c \<longleftrightarrow> mp_server mq \<noteq> mp_server mp" if "ps d = Some mq" for d mq
    using assms that unfolding own_servers_def by (metis option.inject)
  moreover have "x \<in> servers ps \<longleftrightarrow> (\<exists>d mq. ps d = Some mq \<and> x = mp_server mq)" for x
    by (auto simp: ran_def image_iff)
  ultimately show "servers (ps(c := None)) = servers ps - {mp_server mp}"
    unfolding set_eq_iff Diff_iff singleton_iff by metis
  show "own_servers (ps(c := None))" using assms(1) by (auto simp: own_servers_def)
qed

lemma servers_add:
  assumes "own_servers ps" and "ps c = None" and "mp_server mp \<notin> servers ps" and "np_container (mp_proxy mp) = c"
  shows "servers (ps(c \<mapsto> mp)) = insert (mp_server mp) (servers ps)" and "own_servers (ps(c \<mapsto> mp))"
proof -
  show "servers (ps(c \<mapsto> mp)) = insert (mp_server mp) (servers ps)" using assms(2) by (simp add: ran_map_upd)
  have "mp_server mq \<noteq> mp_server mp" if "ps d = Some mq" for d mq using in_servers [of ps d mq] that assms(3) by metis
  then show "own_servers (ps(c \<mapsto> mp))" using assms(1,4) by (auto simp: own_servers_def dest: sym)
qed

text \<open>Every server that serves belongs to a registered proxy or to a stop that has yet to shut it down.\<close>

definition servers_ok :: "'k proxy_sys \<Rightarrow> bool" where
  "servers_ok st \<longleftrightarrow>
     (let pm = px_pm st; ss = map stop_server (px_stops st)
      in own_servers (pm_proxies pm) \<and> pm_serving pm = servers (pm_proxies pm) \<union> set ss \<and>
         servers (pm_proxies pm) \<inter> set ss = {} \<and> distinct ss \<and> (\<forall>x\<in>pm_serving pm. x < pm_made pm))"

text \<open>
  The isolator knows the containers that are registered, but for the one that is being set up, and
  those of stops before their teardown, and these are different ones.
\<close>

definition in_setup :: "'k proxy_sys \<Rightarrow> string set" where
  "in_setup st = (case px_start st of None \<Rightarrow> {} | Some (c, mp) \<Rightarrow> {c})"

abbreviation teardowns :: "stop list \<Rightarrow> string list" where
  "teardowns ss \<equiv> List.map_filter teardown_name ss"

lemma teardowns_append: "teardowns (xs @ ys) = teardowns xs @ teardowns ys"
  by (simp add: List.map_filter_def)

definition spaces_ok :: "'k proxy_sys \<Rightarrow> bool" where
  "spaces_ok st \<longleftrightarrow>
     (let pm = px_pm st; reg = dom (pm_proxies pm) - in_setup st; tds = teardowns (px_stops st)
      in (\<forall>c mp. px_start st = Some (c, mp) \<longrightarrow> pm_proxies pm c = Some mp \<and> pm_isolator pm \<noteq> None) \<and>
         (\<forall>ni n. pm_isolator pm = Some (ni, n) \<longrightarrow> dom (ni_netns ni) = reg \<union> set tds \<and> reg \<inter> set tds = {} \<and> distinct tds))"

lemma idle_ok:
  assumes "pm_ok pm"
  shows "servers_ok (idle pm) \<and> spaces_ok (idle pm)"
proof -
  have "\<forall>x\<in>servers (pm_proxies pm). x < pm_made pm" using assms by (auto simp: pm_ok_def ran_def)
  moreover have "own_servers (pm_proxies pm)" "pm_serving pm = servers (pm_proxies pm)"
    "\<forall>ni n. pm_isolator pm = Some (ni, n) \<longrightarrow> dom (ni_netns ni) = dom (pm_proxies pm)"
    using assms unfolding pm_ok_def own_servers_def by blast+
  ultimately show ?thesis by (simp add: servers_ok_def spaces_ok_def idle_def in_setup_def map_filter_simps)
qed

lemma settled_ok:
  assumes "servers_ok st" and "spaces_ok st" and "px_start st = None" and "px_stops st = []"
  shows "pm_ok (px_pm st)"
proof -
  have "mp_server mp < pm_made (px_pm st)" if "pm_proxies (px_pm st) c = Some mp" for c mp
    using assms(1,4) in_servers [where ps = "pm_proxies (px_pm st)", OF that] by (simp add: servers_ok_def Let_def)
  then show ?thesis using assms by (auto simp: servers_ok_def spaces_ok_def own_servers_def in_setup_def pm_ok_def map_filter_simps Let_def)
qed

lemma register_ok:
  assumes "servers_ok st" and "spaces_ok st" and "px_start st = None" and "start_register listen c st = (r, st')"
  shows "servers_ok st' \<and> spaces_ok st'"
proof (cases "pm_proxies (px_pm st) c = None \<and> (\<exists>a. listen = Inr a)")
  case False
  with assms(4) have "st' = st" by (cases listen) (auto simp: start_register_def Let_def split: if_splits)
  with assms(1,2) show ?thesis by simp
next
  case True
  let ?pm = "px_pm st"
  obtain a where a: "listen = Inr a" using True by blast
  define mp where "mp = \<lparr>mp_server = pm_made ?pm, mp_proxy = NewNetworkProxy c a, mp_addr = a\<rparr>"
  have st': "st' = st\<lparr>px_pm := ?pm\<lparr>pm_proxies := (pm_proxies ?pm)(c \<mapsto> mp), pm_made := Suc (pm_made ?pm),
        pm_serving := insert (pm_made ?pm) (pm_serving ?pm)\<rparr>,
      px_start := (if pm_isolator ?pm = None then None else Some (c, mp))\<rparr>"
    using assms(4) True a by (auto simp: start_register_def Let_def mp_def)
  have new: "pm_made ?pm \<notin> pm_serving ?pm" using assms(1) by (auto simp: servers_ok_def Let_def)
  then have "mp_server mp \<notin> servers (pm_proxies ?pm)" using assms(1) by (simp add: servers_ok_def Let_def mp_def)
  then have "servers ((pm_proxies ?pm)(c \<mapsto> mp)) = insert (mp_server mp) (servers (pm_proxies ?pm))" "own_servers ((pm_proxies ?pm)(c \<mapsto> mp))"
    using servers_add [of "pm_proxies ?pm" c mp] assms(1) True by (auto simp: servers_ok_def Let_def mp_def NewNetworkProxy_def)
  then have "servers_ok st'" using assms(1) new
    by (auto simp: servers_ok_def Let_def st' mp_def less_Suc_eq simp del: map_upd_Some_unfold)
  moreover have "spaces_ok st'" using assms(2,3) True
    by (auto simp: spaces_ok_def Let_def st' in_setup_def)
  ultimately show ?thesis by simp
qed

lemma setup_ok:
  assumes "servers_ok st" and "spaces_ok st" and "start_setup nk v6 st = Some (r, st')"
  shows "servers_ok st' \<and> spaces_ok st'"
proof -
  let ?pm = "px_pm st"
  obtain c mp ni n r1 ni' n' where p: "px_start st = Some (c, mp)" "pm_isolator ?pm = Some (ni, n)"
    and s: "Isolator_Setup nk v6 c (mp_addr mp) ni n = (r1, ni', n')"
    using assms(3) by (auto simp: start_setup_def split: option.splits prod.splits)
  have c: "pm_proxies ?pm c = Some mp" using assms(2) p by (auto simp: spaces_ok_def Let_def)
  note d = Setup_dom [OF s]
  have sp: "dom (ni_netns ni) = dom (pm_proxies ?pm) - {c} \<union> set (teardowns (px_stops st))"
      "(dom (pm_proxies ?pm) - {c}) \<inter> set (teardowns (px_stops st)) = {}" "distinct (teardowns (px_stops st))"
    using assms(2) p by (simp_all add: spaces_ok_def Let_def in_setup_def)
  show ?thesis
  proof (cases r1)
    case (Inl e)
    then have st': "st' = st\<lparr>px_pm := ?pm\<lparr>pm_serving := pm_serving ?pm - {mp_server mp}, pm_proxies := (pm_proxies ?pm)(c := None),
        pm_isolator := Some (ni', n')\<rparr>, px_start := None\<rparr>"
      using assms(3) p s by (simp add: start_setup_def Let_def shutdown_def)
    have "mp_server mp \<in> servers (pm_proxies ?pm)" by (rule in_servers [where ps = "pm_proxies ?pm", OF c])
    then have "servers_ok st'" using assms(1) servers_remove [of "pm_proxies ?pm" c mp] c by (auto simp: servers_ok_def Let_def st')
    moreover have "spaces_ok st'" using sp d Inl by (simp add: spaces_ok_def Let_def st' in_setup_def)
    ultimately show ?thesis by simp
  next
    case (Inr ns)
    then have st': "st' = st\<lparr>px_pm := ?pm\<lparr>pm_isolator := Some (ni', n')\<rparr>, px_start := None\<rparr>"
      using assms(3) p s by (simp add: start_setup_def)
    have "ni_netns ni c = None" using s Inr by (auto simp: Isolator_Setup_def split: if_splits)
    then have "c \<notin> set (teardowns (px_stops st))" using sp(1) by auto
    moreover have "dom (ni_netns ni') = insert c (dom (ni_netns ni))" using d Inr by simp
    ultimately have "spaces_ok st'" using sp c by (auto simp: spaces_ok_def Let_def st' in_setup_def)
    moreover have "servers_ok st'" using assms(1) by (simp add: servers_ok_def Let_def st')
    ultimately show ?thesis by simp
  qed
qed

lemma begin_ok:
  assumes "servers_ok st" and "spaces_ok st" and "px_start st = None" and "stop_begin c st = (r, st')"
  shows "servers_ok st' \<and> spaces_ok st'"
proof (cases "pm_proxies (px_pm st) c")
  case None
  with assms show ?thesis by (simp add: stop_begin_def)
next
  case (Some mp)
  let ?pm = "px_pm st" and ?s = "if pm_isolator (px_pm st) = None then StShutdown mp else StTeardown c mp"
  have st': "st' = st\<lparr>px_pm := ?pm\<lparr>pm_proxies := (pm_proxies ?pm)(c := None)\<rparr>, px_stops := px_stops st @ [?s]\<rparr>"
    using assms(4) Some by (auto simp: stop_begin_def Let_def)
  have s: "stop_server ?s = mp_server mp" "List.map_filter teardown_name [?s] = (if pm_isolator ?pm = None then [] else [c])"
    by (simp_all add: map_filter_simps)
  have "mp_server mp \<in> servers (pm_proxies ?pm)" by (rule in_servers [where ps = "pm_proxies ?pm", OF Some])
  then have "servers_ok st'" using assms(1) servers_remove [of "pm_proxies ?pm" c mp] Some
    by (auto simp: servers_ok_def Let_def st' s(1))
  moreover have "spaces_ok st'" using assms(2,3) Some
    by (auto simp: spaces_ok_def Let_def st' in_setup_def s(2) teardowns_append)
  ultimately show ?thesis by simp
qed

lemma stop_ok:
  assumes "servers_ok st" and "spaces_ok st"
  shows "servers_ok (stop_step nk i st) \<and> spaces_ok (stop_step nk i st)"
proof (cases "i < length (px_stops st)")
  case False
  with assms show ?thesis by (simp add: stop_step_def)
next
  case True
  let ?pm = "px_pm st"
  define xs ys where "xs = take i (px_stops st)" and "ys = drop (Suc i) (px_stops st)"
  have split: "px_stops st = xs @ px_stops st ! i # ys" and i: "length xs = i"
    using True by (simp_all add: xs_def ys_def id_take_nth_drop [symmetric])
  have upd: "(px_stops st)[i := t] = xs @ t # ys" for t using True by (simp add: xs_def ys_def upd_conv_take_nth_drop)
  have td: "List.map_filter teardown_name (xs @ t # ys) = teardowns xs @ teardowns [t] @ teardowns ys" for t
    by (simp add: teardowns_append map_filter_simps split: option.split)
  have same: "servers_ok st'" if "pm_proxies (px_pm st') = pm_proxies ?pm" "pm_serving (px_pm st') = pm_serving ?pm"
      "pm_made (px_pm st') = pm_made ?pm" "px_stops st' = xs @ t # ys" "stop_proxy t = stop_proxy (px_stops st ! i)" for st' :: "'a proxy_sys" and t
  proof -
    have "map stop_server (px_stops st') = map stop_server (px_stops st)" using that(4,5) by (subst split) simp
    then show ?thesis using assms(1) that(1-3) unfolding servers_ok_def Let_def by metis
  qed
  show ?thesis
  proof (cases "px_stops st ! i")
    case (StTeardown c mp)
    have tds: "teardowns (px_stops st) = teardowns xs @ c # teardowns ys"
      by (subst split) (simp add: td StTeardown map_filter_simps)
    show ?thesis
    proof (cases "pm_isolator ?pm")
      case None
      then have st': "stop_step nk i st = st\<lparr>px_stops := xs @ StShutdown mp # ys\<rparr>" using True StTeardown by (simp add: stop_step_def upd)
      have "spaces_ok (stop_step nk i st)" using assms(2) None by (auto simp: spaces_ok_def Let_def st' in_setup_def)
      moreover have "servers_ok (stop_step nk i st)" by (rule same [of _ "StShutdown mp"]) (simp_all add: st' StTeardown)
      ultimately show ?thesis by simp
    next
      case (Some x)
      obtain ni n where x: "x = (ni, n)" by fastforce
      have sp: "dom (ni_netns ni) = dom (pm_proxies ?pm) - in_setup st \<union> set (teardowns (px_stops st))"
          "(dom (pm_proxies ?pm) - in_setup st) \<inter> set (teardowns (px_stops st)) = {}" "distinct (teardowns (px_stops st))"
        using assms(2) Some x by (simp_all add: spaces_ok_def Let_def)
      have "c \<in> set (teardowns (px_stops st))" by (simp add: tds)
      then have "c \<in> dom (ni_netns ni)" unfolding sp(1) by blast
      then obtain inet where inet: "ni_netns ni c = Some inet" by blast
      have st': "stop_step nk i st = st\<lparr>px_pm := ?pm\<lparr>pm_isolator := Some (ni\<lparr>ni_netns := (ni_netns ni)(c := None)\<rparr>, n)\<rparr>,
          px_stops := xs @ StRemove inet mp # ys\<rparr>"
        using True StTeardown Some x inet by (simp add: stop_step_def upd)
      have "spaces_ok (stop_step nk i st)" using assms(2) sp Some
        by (auto simp: spaces_ok_def Let_def st' in_setup_def td map_filter_simps tds)
      moreover have "servers_ok (stop_step nk i st)" by (rule same [of _ "StRemove inet mp"]) (simp_all add: st' StTeardown)
      ultimately show ?thesis by simp
    qed
  next
    case (StRemove inet mp)
    then have st': "stop_step nk i st = st\<lparr>px_pm := ?pm\<lparr>pm_isolator := map_option (\<lambda>(ni, n). (ni, remove_net nk inet n)) (pm_isolator ?pm)\<rparr>,
        px_stops := xs @ StShutdown mp # ys\<rparr>" using True by (simp add: stop_step_def upd Let_def)
    have tds: "teardowns (px_stops st) = teardowns xs @ teardowns ys"
      by (subst split) (simp add: td StRemove map_filter_simps)
    have "spaces_ok (stop_step nk i st)" using assms(2)
      by (auto simp: spaces_ok_def Let_def st' in_setup_def td map_filter_simps tds split: option.splits)
    moreover have "servers_ok (stop_step nk i st)" by (rule same [of _ "StShutdown mp"]) (simp_all add: st' StRemove)
    ultimately show ?thesis by simp
  next
    case (StShutdown mp)
    then have st': "stop_step nk i st = st\<lparr>px_pm := shutdown mp ?pm, px_stops := xs @ ys\<rparr>"
      using True by (simp add: stop_step_def xs_def ys_def)
    have tds: "teardowns (px_stops st) = teardowns (xs @ ys)"
      by (subst split) (simp add: td StShutdown map_filter_simps teardowns_append)
    have "spaces_ok (stop_step nk i st)" using assms(2)
      by (simp add: spaces_ok_def Let_def st' in_setup_def tds shutdown_def)
    moreover have "map stop_server (px_stops st) = map stop_server xs @ mp_server mp # map stop_server ys"
      by (subst split) (simp add: StShutdown)
    then have "servers_ok (stop_step nk i st)" using assms(1) by (auto simp: servers_ok_def Let_def st' shutdown_def)
    ultimately show ?thesis by simp
  qed
qed

lemma proxies_step_ok: "proxies_step nk st st' \<Longrightarrow> servers_ok st \<and> spaces_ok st \<Longrightarrow> servers_ok st' \<and> spaces_ok st'"
  by (induction rule: proxies_step.induct) (use register_ok setup_ok begin_ok stop_ok in blast)+

lemma proxies_reach_ok: "(proxies_step nk)\<^sup>*\<^sup>* st st' \<Longrightarrow> servers_ok st \<and> spaces_ok st \<Longrightarrow> servers_ok st' \<and> spaces_ok st'"
  by (induction rule: rtranclp_induct) (auto dest: proxies_step_ok)

section \<open>The namespaces in the kernel\<close>

text \<open>
  Beside the namespaces \<open>B\<close> that were there before, the kernel has one for every container that the
  isolator knows, and one for every stop that has yet to remove it; all these have different names.
\<close>

fun removal_name :: "stop \<Rightarrow> string option" where
  "removal_name (StRemove inet mp) = Some (in_nsName inet)"
| "removal_name s = None"

abbreviation removals :: "stop list \<Rightarrow> string list" where
  "removals ss \<equiv> List.map_filter removal_name ss"

lemma removals_append: "removals (xs @ ys) = removals xs @ removals ys"
  by (simp add: List.map_filter_def)

definition names_ok :: "('k \<Rightarrow> string set) \<Rightarrow> string set \<Rightarrow> 'k proxy_sys \<Rightarrow> bool" where
  "names_ok named B st \<longleftrightarrow>
     (\<forall>ni n. pm_isolator (px_pm st) = Some (ni, n) \<longrightarrow>
       (let own = ns_name ` dom (ni_netns ni); rms = removals (px_stops st)
        in net_names named n = B \<union> own \<union> set rms \<and> B \<inter> own = {} \<and> B \<inter> set rms = {} \<and> own \<inter> set rms = {} \<and> distinct rms \<and>
           (\<forall>c v. ni_netns ni c = Some v \<longrightarrow> in_nsName v = ns_name c)))"

lemma names_okD:
  assumes "names_ok named B st" and "pm_isolator (px_pm st) = Some (ni, n)"
  shows "net_names named n = B \<union> ns_name ` dom (ni_netns ni) \<union> set (removals (px_stops st))" and "B \<inter> ns_name ` dom (ni_netns ni) = {}"
    and "B \<inter> set (removals (px_stops st)) = {}" and "ns_name ` dom (ni_netns ni) \<inter> set (removals (px_stops st)) = {}"
    and "distinct (removals (px_stops st))" and "ni_netns ni c = Some v \<Longrightarrow> in_nsName v = ns_name c"
  using assms by (simp_all add: names_ok_def Let_def)

lemma names_okI:
  assumes "pm_isolator (px_pm st) = Some (ni, n)" and "ns_name ` dom (ni_netns ni) = own" and "removals (px_stops st) = rms"
    and "net_names named n = B \<union> own \<union> set rms" and "B \<inter> own = {}" and "B \<inter> set rms = {}" and "own \<inter> set rms = {}" and "distinct rms"
    and "\<And>c v. ni_netns ni c = Some v \<Longrightarrow> in_nsName v = ns_name c"
  shows "names_ok named B st"
  using assms by (simp add: names_ok_def Let_def)

lemma names_cong:
  "names_ok named B st \<Longrightarrow> pm_isolator (px_pm st') = pm_isolator (px_pm st) \<Longrightarrow> removals (px_stops st') = removals (px_stops st) \<Longrightarrow>
   names_ok named B st'"
  by (simp add: names_ok_def)

lemma setup_names:
  assumes k: "ns_kernel nk named" and ok: "names_ok named B st" and s: "start_setup nk v6 st = Some (r, st')"
  shows "names_ok named B st'"
proof -
  obtain c mp ni n where st: "px_start st = Some (c, mp)" "pm_isolator (px_pm st) = Some (ni, n)"
    using s by (auto simp: start_setup_def split: option.splits)
  obtain r1 ni' n' where u: "Isolator_Setup nk v6 c (mp_addr mp) ni n = (r1, ni', n')" by (metis prod_cases3)
  have st': "pm_isolator (px_pm st') = Some (ni', n')" "px_stops st' = px_stops st"
    using s st u by (auto simp: start_setup_def shutdown_def Let_def split: sum.splits)
  note D = names_okD [OF ok st(2)] and S = Setup_names [OF k u]
  show ?thesis
  proof (cases r1)
    case (Inl e)
    with S D show ?thesis unfolding names_ok_def st' by (simp add: Let_def)
  next
    case (Inr ns)
    obtain v where v: "in_nsName v = ns_name c" "ni_netns ni' = (ni_netns ni)(c \<mapsto> v)" "ns_name c \<notin> net_names named n"
        "net_names named n' = insert (ns_name c) (net_names named n)" using S Inr by auto
    have own: "ns_name ` dom (ni_netns ni') = insert (ns_name c) (ns_name ` dom (ni_netns ni))" by (simp add: v(2))
    have "in_nsName w = ns_name d" if "ni_netns ni' d = Some w" for d w
      using that v(1,2) D(6) [of d w] by (auto split: if_splits)
    then show ?thesis using D(1-5) v(3,4) unfolding names_ok_def st' Let_def by (auto simp: own)
  qed
qed

lemma stop_names:
  assumes k: "ns_kernel nk named" and ok: "names_ok named B st"
  shows "names_ok named B (stop_step nk i st)"
proof (cases "i < length (px_stops st)")
  case False
  with ok show ?thesis by (simp add: stop_step_def)
next
  case True
  let ?pm = "px_pm st"
  define xs ys where "xs = take i (px_stops st)" and "ys = drop (Suc i) (px_stops st)"
  have split: "px_stops st = xs @ px_stops st ! i # ys" using True by (simp add: xs_def ys_def id_take_nth_drop [symmetric])
  have upd: "(px_stops st)[i := t] = xs @ t # ys" for t using True by (simp add: xs_def ys_def upd_conv_take_nth_drop)
  have rm: "List.map_filter removal_name (xs @ t # ys) = removals xs @ removals [t] @ removals ys" for t
    by (simp add: removals_append map_filter_simps split: option.split)
  have rms: "removals (px_stops st) = removals xs @ removals [px_stops st ! i] @ removals ys" using rm split by metis
  show ?thesis
  proof (cases "px_stops st ! i")
    case (StTeardown c mp)
    show ?thesis
    proof (cases "\<exists>ni n inet. pm_isolator ?pm = Some (ni, n) \<and> ni_netns ni c = Some inet")
      case False
      then have "pm_isolator (px_pm (stop_step nk i st)) = pm_isolator ?pm" "px_stops (stop_step nk i st) = xs @ StShutdown mp # ys"
        using True StTeardown by (auto simp: stop_step_def upd Let_def split: option.splits)
      then show ?thesis by (intro names_cong [OF ok]) (simp_all add: rm rms StTeardown map_filter_simps)
    next
      case (True)
      then obtain ni n inet where i: "pm_isolator ?pm = Some (ni, n)" "ni_netns ni c = Some inet" by blast
      have st': "pm_isolator (px_pm (stop_step nk i st)) = Some (ni\<lparr>ni_netns := (ni_netns ni)(c := None)\<rparr>, n)"
          "px_stops (stop_step nk i st) = xs @ StRemove inet mp # ys"
        using \<open>i < length (px_stops st)\<close> StTeardown i by (auto simp: stop_step_def upd Let_def)
      note D = names_okD [OF ok i(1)]
      have n: "in_nsName inet = ns_name c" by (rule D(6) [OF i(2)])
      define Own where "Own = ns_name ` dom (ni_netns ni)"
      have own: "ns_name ` dom ((ni_netns ni)(c := None)) = Own - {ns_name c}" unfolding Own_def dom_fun_upd by (auto simp: ns_name_inj)
      have c: "ns_name c \<in> Own" unfolding Own_def using i(2) by blast
      have r: "removals (px_stops st) = removals xs @ removals ys" by (simp add: rms StTeardown map_filter_simps)
      have rms': "removals (px_stops (stop_step nk i st)) = removals xs @ ns_name c # removals ys"
        unfolding st' rm by (simp add: map_filter_simps n)
      note D' = D(1-5) [folded Own_def, unfolded r]
      show ?thesis
      proof (rule names_okI [OF st'(1) _ rms'])
        show "ns_name ` dom (ni_netns (ni\<lparr>ni_netns := (ni_netns ni)(c := None)\<rparr>)) = Own - {ns_name c}" using own by simp
        show "in_nsName w = ns_name d" if "ni_netns (ni\<lparr>ni_netns := (ni_netns ni)(c := None)\<rparr>) d = Some w" for d w
          using that D(6) [of d w] by (auto split: if_splits)
      qed (use D' c in auto)
    qed
  next
    case (StRemove inet mp)
    show ?thesis
    proof (cases "pm_isolator ?pm")
      case None
      then show ?thesis using True StRemove by (simp add: names_ok_def stop_step_def Let_def)
    next
      case (Some x)
      obtain ni n where x: "x = (ni, n)" by fastforce
      have st': "pm_isolator (px_pm (stop_step nk i st)) = Some (ni, remove_net nk inet n)" "px_stops (stop_step nk i st) = xs @ StShutdown mp # ys"
        using True StRemove Some x by (auto simp: stop_step_def upd Let_def)
      note D = names_okD [OF ok, of ni n, unfolded Some x, OF refl]
      have r: "removals (px_stops st) = removals xs @ in_nsName inet # removals ys" by (simp add: rms StRemove map_filter_simps)
      show ?thesis using D unfolding names_ok_def st' rm Let_def r by (auto simp: remove_names [OF k] map_filter_simps)
    qed
  next
    case (StShutdown mp)
    then have "pm_isolator (px_pm (stop_step nk i st)) = pm_isolator ?pm" "px_stops (stop_step nk i st) = xs @ ys"
      using True by (auto simp: stop_step_def shutdown_def Let_def xs_def ys_def)
    then show ?thesis by (intro names_cong [OF ok]) (simp_all add: rms StShutdown removals_append map_filter_simps)
  qed
qed

lemma proxies_reach_names:
  "(proxies_step nk)\<^sup>*\<^sup>* st st' \<Longrightarrow> ns_kernel nk named \<Longrightarrow> names_ok named B st \<Longrightarrow> names_ok named B st'"
proof (induction rule: rtranclp_induct)
  case (step st1 st2)
  from step(2) step(3) [OF step(4,5)] step(4) show ?case
  proof (induction rule: proxies_step.induct)
    case (px_register st listen c r st')
    then show ?case by (intro names_cong [OF px_register(3)])
        (auto simp: start_register_def Let_def split: if_splits sum.splits)
  next
    case (px_begin st c r st')
    then show ?case by (intro names_cong [OF px_begin(3)])
        (auto simp: stop_begin_def Let_def removals_append map_filter_simps split: option.splits)
  qed (use setup_names stop_names in blast)+
qed simp

lemma idle_names: "pm_nets named B pm \<Longrightarrow> names_ok named B (idle pm)"
  by (auto simp: names_ok_def pm_nets_def nets_match_def idle_def map_filter_simps)

lemma settled_names: "names_ok named B st \<Longrightarrow> px_stops st = [] \<Longrightarrow> pm_nets named B (px_pm st)"
  by (auto simp: names_ok_def pm_nets_def nets_match_def map_filter_simps)

text \<open>A setup for a container whose namespace a stop has yet to tear down or to remove fails.\<close>

lemma blocked_setup:
  assumes k: "ns_kernel nk named" and ok: "names_ok named B st" and i: "pm_isolator (px_pm st) = Some (ni, n)"
    and c: "ni_netns ni c \<noteq> None \<or> ns_name c \<in> set (removals (px_stops st))"
    and u: "Isolator_Setup nk v6 c a ni n = (r, ni', n')"
  shows "\<exists>e. r = Inl e"
proof (cases r)
  case (Inr ns)
  with Setup_names [OF k u] have "ns_name c \<notin> net_names named n" by simp
  with names_okD(1) [OF ok i] c show ?thesis by auto
qed simp



end
