(* ===== verification/Proxy_Servers.thy ===== *)
theory Proxy_Servers
  imports MCP_Proxy
begin

text \<open>
  The HTTP servers of the proxies: \<open>Start\<close>, \<open>StartOnListener\<close> and \<open>Stop\<close> of \<open>proxy/network.go\<close> and \<open>proxy/mcp.go\<close>.
  \<open>Serve\<close> of net/http returns \<open>ErrServerClosed\<close> once the server has been shut down, and the error of its
  listener otherwise.
\<close>

datatype serve_end = ErrServerClosed | ServeError go_error

text \<open>A server: whether \<open>Shutdown\<close> has been called.  The field \<open>httpServer\<close> of a proxy is nil before its first start.\<close>

record http_server =
  hs_shutdown :: bool

definition new_http_server :: http_server where
  "new_http_server = \<lparr>hs_shutdown = False\<rparr>"

text \<open>How serving ends, \<open>None\<close> while it goes on: with the failure of the listener or with the shutdown.\<close>

definition http_Serve :: "go_error option \<Rightarrow> http_server \<Rightarrow> serve_end option" where
  "http_Serve fail s = (if hs_shutdown s then Some ErrServerClosed else map_option ServeError fail)"

definition http_Shutdown :: "http_server \<Rightarrow> http_server" where
  "http_Shutdown s = s\<lparr>hs_shutdown := True\<rparr>"

definition serve_result :: "string \<Rightarrow> serve_end \<Rightarrow> go_error option" where
  "serve_result what r = (case r of ErrServerClosed \<Rightarrow> None | ServeError e \<Rightarrow> Some (what @ '': '' @ e))"

text \<open>Every start makes a new server.  Network proxies return nil after a shutdown on both ways to start.\<close>

definition NetworkProxy_Start :: "http_server option \<Rightarrow> http_server option" where
  "NetworkProxy_Start s = Some new_http_server"

definition NetworkProxy_served :: "serve_end \<Rightarrow> go_error option" where
  "NetworkProxy_served r = serve_result ''proxy server error'' r"

definition NetworkProxy_Stop :: "http_server option \<Rightarrow> http_server option" where
  "NetworkProxy_Stop s = map_option http_Shutdown s"

definition MCPProxy_Start :: "http_server option \<Rightarrow> http_server option" where
  "MCPProxy_Start s = Some new_http_server"

definition MCPProxy_served :: "serve_end \<Rightarrow> go_error option" where
  "MCPProxy_served r = serve_result ''mcp proxy error'' r"

definition MCPProxy_Stop :: "http_server option \<Rightarrow> http_server option" where
  "MCPProxy_Stop s = map_option http_Shutdown s"

text \<open>The MCP proxy on a listener returns what \<open>Serve\<close> returns.\<close>

definition MCPProxy_servedOnListener :: "serve_end \<Rightarrow> go_error option" where
  "MCPProxy_servedOnListener r = Some (case r of ErrServerClosed \<Rightarrow> ''http: Server closed'' | ServeError e \<Rightarrow> e)"

section \<open>Stopping\<close>

text \<open>A stop after the start ends serving without an error.\<close>

lemma stop_ends_serving:
  "\<exists>s. NetworkProxy_Stop (NetworkProxy_Start s0) = Some s \<and> map_option NetworkProxy_served (http_Serve fail s) = Some None"
  by (simp add: NetworkProxy_Stop_def NetworkProxy_Start_def http_Shutdown_def http_Serve_def NetworkProxy_served_def serve_result_def)

text \<open>A stop that comes before the start is lost: the proxy serves as if it had not been stopped.\<close>

lemma early_stop_is_lost:
  "NetworkProxy_Start (NetworkProxy_Stop s0) = NetworkProxy_Start s0 \<and>
   (\<exists>s. NetworkProxy_Start (NetworkProxy_Stop s0) = Some s \<and> http_Serve None s = None)"
  by (simp add: NetworkProxy_Start_def http_Serve_def new_http_server_def)

text \<open>A regular shutdown of an MCP proxy is reported as an error when it was started on a listener, and only then.\<close>

lemma mcp_listener_reports_shutdown:
  "MCPProxy_servedOnListener ErrServerClosed = Some ''http: Server closed'' \<and> MCPProxy_served ErrServerClosed = None \<and>
   NetworkProxy_served ErrServerClosed = None"
  by (simp add: MCPProxy_servedOnListener_def MCPProxy_served_def NetworkProxy_served_def serve_result_def)

end
