(* ===== verification/Events.thy ===== *)
theory Events
  imports Misbah_Prelude "HOL-Library.Sublist"
begin

text \<open>
  The event bus of \<open>daemon/events.go\<close>.  A Go channel is a buffer with a closed flag in a heap
  of channels, named by the numbers in the order they were made.  Sending to a closed
  channel and closing one twice panic in Go: the operations return \<open>None\<close> there.  Every
  operation runs under the bus's lock, so a run of the bus is a sequence of operations; the
  receipt of an event by a subscriber is an operation of its own.
\<close>

type_synonym ContainerEventType = string

definition EventStarted :: ContainerEventType where "EventStarted = ''started''"
definition EventStopped :: ContainerEventType where "EventStopped = ''stopped''"
definition EventExited :: ContainerEventType where "EventExited = ''exited''"
definition EventError :: ContainerEventType where "EventError = ''error''"

record ContainerEvent =
  ev_Type :: ContainerEventType
  ev_Name :: string
  ev_ExitCode :: "32 word"
  ev_Error :: string
  ev_Timestamp :: i64

record event_chan =
  ch_buf :: "ContainerEvent list"
  ch_closed :: bool

text \<open>The capacity given to \<open>make\<close> in \<open>Subscribe\<close>.\<close>

definition chan_cap :: nat where "chan_cap = 16"

record EventBus =
  eb_subscribers :: "string \<Rightarrow> nat list"
  eb_chans :: "event_chan list"

definition NewEventBus :: EventBus where
  "NewEventBus = \<lparr>eb_subscribers = (\<lambda>_. []), eb_chans = []\<rparr>"

definition Subscribe :: "string \<Rightarrow> EventBus \<Rightarrow> nat \<times> EventBus" where
  "Subscribe name b =
     (let ch = length (eb_chans b)
      in (ch, b\<lparr>eb_chans := eb_chans b @ [\<lparr>ch_buf = [], ch_closed = False\<rparr>],
                eb_subscribers := (eb_subscribers b)(name := eb_subscribers b name @ [ch])\<rparr>))"

definition close_chan :: "nat \<Rightarrow> EventBus \<Rightarrow> EventBus option" where
  "close_chan ch b =
     (let c = eb_chans b ! ch
      in if ch_closed c then None else Some (b\<lparr>eb_chans := (eb_chans b)[ch := c\<lparr>ch_closed := True\<rparr>]\<rparr>))"

definition Unsubscribe :: "string \<Rightarrow> nat \<Rightarrow> EventBus \<Rightarrow> EventBus option" where
  "Unsubscribe name ch b =
     (if ch \<in> set (eb_subscribers b name)
      then close_chan ch (b\<lparr>eb_subscribers := (eb_subscribers b)(name := remove1 ch (eb_subscribers b name))\<rparr>)
      else Some b)"

text \<open>\<open>select { case ch <- event: default: }\<close>\<close>

definition send_or_drop :: "ContainerEvent \<Rightarrow> nat \<Rightarrow> event_chan list \<Rightarrow> event_chan list option" where
  "send_or_drop ev ch cs =
     (let c = cs ! ch
      in if ch_closed c then None
         else if length (ch_buf c) < chan_cap then Some (cs[ch := c\<lparr>ch_buf := ch_buf c @ [ev]\<rparr>])
         else Some cs)"

fun send_all :: "ContainerEvent \<Rightarrow> nat list \<Rightarrow> event_chan list \<Rightarrow> event_chan list option" where
  "send_all ev [] cs = Some cs"
| "send_all ev (ch # chs) cs = (case send_or_drop ev ch cs of None \<Rightarrow> None | Some cs' \<Rightarrow> send_all ev chs cs')"

definition stamp_event :: "i64 \<Rightarrow> ContainerEvent \<Rightarrow> ContainerEvent" where
  "stamp_event now ev = (if ev_Timestamp ev = 0 then ev\<lparr>ev_Timestamp := now\<rparr> else ev)"

definition Publish :: "i64 \<Rightarrow> ContainerEvent \<Rightarrow> EventBus \<Rightarrow> EventBus option" where
  "Publish now event b =
     (let ev = stamp_event now event
      in case send_all ev (eb_subscribers b (ev_Name ev)) (eb_chans b) of
           None \<Rightarrow> None
         | Some cs \<Rightarrow>
           if ev_Name ev \<noteq> []
           then map_option (\<lambda>cs'. b\<lparr>eb_chans := cs'\<rparr>) (send_all ev (eb_subscribers b []) cs)
           else Some (b\<lparr>eb_chans := cs\<rparr>))"

text \<open>
  A receive from a channel with a buffered event; with none it blocks or, once the channel
  is closed, reports that it is closed: the bus does not change in either case.
\<close>

definition recv_event :: "nat \<Rightarrow> EventBus \<Rightarrow> ContainerEvent option \<times> EventBus" where
  "recv_event ch b =
     (if ch < length (eb_chans b)
      then (case ch_buf (eb_chans b ! ch) of
              [] \<Rightarrow> (None, b)
            | ev # q \<Rightarrow> (Some ev, b\<lparr>eb_chans := (eb_chans b)[ch := (eb_chans b ! ch)\<lparr>ch_buf := q\<rparr>]\<rparr>))
      else (None, b))"

section \<open>Runs of the bus\<close>

datatype bus_op =
    OpSubscribe string
  | OpUnsubscribe string nat
  | OpPublish i64 ContainerEvent
  | OpReceive nat

primrec bus_exec :: "bus_op \<Rightarrow> EventBus \<Rightarrow> EventBus option" where
  "bus_exec (OpSubscribe name) b = Some (snd (Subscribe name b))"
| "bus_exec (OpUnsubscribe name ch) b = Unsubscribe name ch b"
| "bus_exec (OpPublish now ev) b = Publish now ev b"
| "bus_exec (OpReceive ch) b = Some (snd (recv_event ch b))"

text \<open>The results of the runs from the fresh bus; \<open>None\<close> is a run that ended in a panic.\<close>

inductive bus_reaches :: "EventBus option \<Rightarrow> bool" where
  bus_fresh: "bus_reaches (Some NewEventBus)"
| bus_more: "bus_reaches (Some b) \<Longrightarrow> bus_reaches (bus_exec op b)"

text \<open>The events a subscriber takes from its channel in a run, and what is left at the end.\<close>

definition taken :: "nat \<Rightarrow> bus_op \<Rightarrow> EventBus \<Rightarrow> ContainerEvent list" where
  "taken ch op b = (if op = OpReceive ch then case_option [] (\<lambda>e. [e]) (fst (recv_event ch b)) else [])"

fun stream_of :: "nat \<Rightarrow> bus_op list \<Rightarrow> EventBus \<Rightarrow> (ContainerEvent list \<times> EventBus) option" where
  "stream_of ch [] b = Some ([], b)"
| "stream_of ch (op # ops) b =
     (case bus_exec op b of
        None \<Rightarrow> None
      | Some b' \<Rightarrow> map_option (\<lambda>(evs, b''). (taken ch op b @ evs, b'')) (stream_of ch ops b'))"

text \<open>
  The invariant: a subscribed channel exists, is open and is subscribed once, and no buffer
  exceeds its capacity.
\<close>

definition bus_ok :: "EventBus \<Rightarrow> bool" where
  "bus_ok b \<longleftrightarrow>
     (\<forall>n. distinct (eb_subscribers b n)) \<and>
     (\<forall>m n ch. ch \<in> set (eb_subscribers b m) \<longrightarrow> ch \<in> set (eb_subscribers b n) \<longrightarrow> m = n) \<and>
     (\<forall>n. \<forall>ch\<in>set (eb_subscribers b n). ch < length (eb_chans b) \<and> \<not> ch_closed (eb_chans b ! ch)) \<and>
     (\<forall>c\<in>set (eb_chans b). length (ch_buf c) \<le> chan_cap)"

definition open_chans :: "nat list \<Rightarrow> event_chan list \<Rightarrow> bool" where
  "open_chans chs cs \<longleftrightarrow> (\<forall>ch\<in>set chs. ch < length cs \<and> \<not> ch_closed (cs ! ch))"

lemma bus_ok_open: "bus_ok b \<Longrightarrow> open_chans (eb_subscribers b n) (eb_chans b)"
  by (simp add: bus_ok_def open_chans_def)

text \<open>What one send does to the heap of channels.\<close>

definition sent :: "ContainerEvent \<Rightarrow> nat list \<Rightarrow> event_chan list \<Rightarrow> event_chan list \<Rightarrow> bool" where
  "sent ev chs cs cs' \<longleftrightarrow> length cs' = length cs \<and>
     (\<forall>i<length cs. ch_closed (cs' ! i) = ch_closed (cs ! i) \<and>
        ch_buf (cs' ! i) = (if i \<in> set chs \<and> length (ch_buf (cs ! i)) < chan_cap
                            then ch_buf (cs ! i) @ [ev] else ch_buf (cs ! i)))"

lemma sent_open: "sent ev chs cs cs' \<Longrightarrow> open_chans xs cs' = open_chans xs cs"
  by (auto simp: sent_def open_chans_def)

lemma send_or_drop_sent:
  "open_chans [ch] cs \<Longrightarrow> \<exists>cs'. send_or_drop ev ch cs = Some cs' \<and> sent ev [ch] cs cs'"
  by (auto simp: send_or_drop_def sent_def open_chans_def Let_def nth_list_update)

lemma send_all_sent:
  "open_chans chs cs \<Longrightarrow> distinct chs \<Longrightarrow> \<exists>cs'. send_all ev chs cs = Some cs' \<and> sent ev chs cs cs'"
proof (induction chs arbitrary: cs)
  case Nil
  then show ?case by (simp add: sent_def)
next
  case (Cons ch chs)
  then obtain c1 where s1: "send_or_drop ev ch cs = Some c1" "sent ev [ch] cs c1"
    using send_or_drop_sent [of ch cs ev] by (auto simp: open_chans_def)
  with Cons.prems have "open_chans chs c1" using sent_open [OF s1(2), of chs] by (auto simp: open_chans_def)
  with Cons obtain c2 where s2: "send_all ev chs c1 = Some c2" "sent ev chs c1 c2" by auto
  have "sent ev (ch # chs) cs c2" using s1(2) s2(2) Cons.prems(2) by (auto simp: sent_def)
  with s1(1) s2(1) show ?case by simp
qed

text \<open>The channels that see an event: those of its name and those of the empty name.\<close>

definition audience :: "ContainerEvent \<Rightarrow> EventBus \<Rightarrow> nat list" where
  "audience ev b = eb_subscribers b (ev_Name ev) @ (if ev_Name ev \<noteq> [] then eb_subscribers b [] else [])"

lemma send_all_append:
  "send_all ev (xs @ ys) cs = (case send_all ev xs cs of None \<Rightarrow> None | Some cs' \<Rightarrow> send_all ev ys cs')"
  by (induction xs arbitrary: cs) (simp_all split: option.split)

lemma Publish_audience:
  "Publish now event b =
     map_option (\<lambda>cs. b\<lparr>eb_chans := cs\<rparr>) (send_all (stamp_event now event) (audience event b) (eb_chans b))"
  by (simp add: Publish_def audience_def send_all_append Let_def stamp_event_def split: option.split)

lemma audience_ok: "bus_ok b \<Longrightarrow> open_chans (audience ev b) (eb_chans b) \<and> distinct (audience ev b)"
  by (auto simp: audience_def bus_ok_def open_chans_def)

lemma Publish_sent:
  assumes "bus_ok b"
  obtains cs where "Publish now ev b = Some (b\<lparr>eb_chans := cs\<rparr>)"
    and "sent (stamp_event now ev) (audience ev b) (eb_chans b) cs"
  using send_all_sent [of "audience ev b" "eb_chans b" "stamp_event now ev"] audience_ok [OF assms, of ev]
  by (auto simp: Publish_audience)

lemma bus_ok_new: "bus_ok NewEventBus"
  by (simp add: bus_ok_def NewEventBus_def)

lemma bus_ok_Subscribe: "bus_ok b \<Longrightarrow> bus_ok (snd (Subscribe name b))"
  by (auto simp: bus_ok_def Subscribe_def Let_def nth_append intro: less_SucI split: if_splits)

lemma bus_ok_Unsubscribe:
  assumes "bus_ok b"
  shows "\<exists>b'. Unsubscribe name ch b = Some b' \<and> bus_ok b'"
proof (cases "ch \<in> set (eb_subscribers b name)")
  case True
  with assms have o: "ch < length (eb_chans b)" "\<not> ch_closed (eb_chans b ! ch)" by (auto simp: bus_ok_def)
  let ?c = "(eb_chans b ! ch)\<lparr>ch_closed := True\<rparr>"
  let ?b = "b\<lparr>eb_subscribers := (eb_subscribers b)(name := remove1 ch (eb_subscribers b name)), eb_chans := (eb_chans b)[ch := ?c]\<rparr>"
  have "Unsubscribe name ch b = Some ?b" using True o by (simp add: Unsubscribe_def close_chan_def Let_def)
  moreover have "bus_ok ?b"
  proof -
    have d: "set (remove1 ch (eb_subscribers b name)) = set (eb_subscribers b name) - {ch}"
      using assms by (simp add: bus_ok_def set_remove1_eq)
    have sub: "set (eb_subscribers ?b n) \<subseteq> set (eb_subscribers b n) - {ch}" for n
      using assms True d by (auto simp: bus_ok_def split: if_splits)
    have 1: "distinct (eb_subscribers ?b n)" for n
      using assms by (simp add: bus_ok_def distinct_remove1)
    have 2: "m = n" if "x \<in> set (eb_subscribers ?b m)" "x \<in> set (eb_subscribers ?b n)" for m n x
      using that sub [of m] sub [of n] assms unfolding bus_ok_def by blast
    have 3: "x < length (eb_chans ?b) \<and> \<not> ch_closed (eb_chans ?b ! x)" if "x \<in> set (eb_subscribers ?b n)" for n x
    proof -
      have "x \<noteq> ch" "x \<in> set (eb_subscribers b n)" using that sub [of n] by blast+
      with assms show ?thesis by (auto simp: bus_ok_def)
    qed
    have 4: "length (ch_buf c) \<le> chan_cap" if "c \<in> set (eb_chans ?b)" for c
    proof -
      have "c \<in> insert ?c (set (eb_chans b))" using that set_update_subset_insert by fastforce
      with assms o(1) show ?thesis unfolding bus_ok_def by (auto dest: nth_mem)
    qed
    show ?thesis unfolding bus_ok_def using 1 2 3 4 by blast
  qed
  ultimately show ?thesis by blast
qed (use assms in \<open>simp add: Unsubscribe_def\<close>)

lemma bus_ok_sent:
  assumes "bus_ok b" and "sent ev chs (eb_chans b) cs"
  shows "bus_ok (b\<lparr>eb_chans := cs\<rparr>)"
proof -
  have "length (ch_buf c) \<le> chan_cap" if "c \<in> set cs" for c
  proof -
    obtain i where i: "i < length cs" "c = cs ! i" using \<open>c \<in> set cs\<close> by (auto simp: in_set_conv_nth)
    then have "length (ch_buf (eb_chans b ! i)) \<le> chan_cap" using assms by (auto simp: bus_ok_def sent_def)
    then show ?thesis using i assms(2) by (auto simp: sent_def)
  qed
  then show ?thesis using assms by (auto simp: bus_ok_def sent_def)
qed

lemma recv_event_cases:
  "recv_event ch b = (None, b) \<or>
   (\<exists>ev q. ch < length (eb_chans b) \<and> ch_buf (eb_chans b ! ch) = ev # q \<and>
      recv_event ch b = (Some ev, b\<lparr>eb_chans := (eb_chans b)[ch := (eb_chans b ! ch)\<lparr>ch_buf := q\<rparr>]\<rparr>))"
  by (auto simp: recv_event_def split: list.split)

lemma bus_ok_recv:
  assumes "bus_ok b"
  shows "bus_ok (snd (recv_event ch b))"
proof -
  consider "recv_event ch b = (None, b)"
    | ev q where "ch < length (eb_chans b)" "ch_buf (eb_chans b ! ch) = ev # q"
        "snd (recv_event ch b) = b\<lparr>eb_chans := (eb_chans b)[ch := (eb_chans b ! ch)\<lparr>ch_buf := q\<rparr>]\<rparr>"
    using recv_event_cases [of ch b] by auto
  then show ?thesis
  proof cases
    case 2
    let ?c = "(eb_chans b ! ch)\<lparr>ch_buf := q\<rparr>"
    have "length (ch_buf c) \<le> chan_cap" if "c \<in> set ((eb_chans b)[ch := ?c])" for c
    proof -
      have "length (ev # q) \<le> chan_cap" using assms 2(1,2) by (metis bus_ok_def nth_mem)
      moreover have "c \<in> insert ?c (set (eb_chans b))" using that set_update_subset_insert by fastforce
      ultimately show ?thesis using assms unfolding bus_ok_def by auto
    qed
    with assms 2 show ?thesis by (auto simp: bus_ok_def nth_list_update)
  qed (use assms in simp)
qed

lemma bus_exec_ok: "bus_ok b \<Longrightarrow> \<exists>b'. bus_exec op b = Some b' \<and> bus_ok b'"
proof (cases op)
  case (OpPublish now ev)
  assume "bus_ok b"
  then show ?thesis unfolding OpPublish bus_exec.simps by (metis Publish_sent bus_ok_sent)
qed (auto simp: bus_ok_Subscribe bus_ok_Unsubscribe bus_ok_recv)

text \<open>
  C31: no sequence of subscriptions, unsubscriptions (also repeated ones), publications and
  receipts makes the bus panic by sending to a closed channel or closing one twice, and no
  subscriber's buffer ever exceeds its 16 events.
\<close>

theorem bus_never_panics:
  assumes "bus_reaches r"
  shows "\<exists>b. r = Some b \<and> bus_ok b"
  using assms
proof induction
  case (bus_more b op)
  then show ?case using bus_exec_ok by blast
qed (simp add: bus_ok_new)

theorem bus_never_panics_witness:
  "\<exists>b. bus_exec (OpUnsubscribe ''c'' 0) (snd (Subscribe ''c'' NewEventBus)) = Some b \<and> bus_ok b"
proof -
  have "bus_reaches (bus_exec (OpSubscribe ''c'') NewEventBus)" by (rule bus_more [OF bus_fresh])
  then have "bus_reaches (bus_exec (OpUnsubscribe ''c'' 0) (snd (Subscribe ''c'' NewEventBus)))"
    unfolding bus_exec.simps(1) by (rule bus_more)
  then show ?thesis by (rule bus_never_panics)
qed

section \<open>What a subscriber receives\<close>

text \<open>The published events that concern a subscriber of a name, as they are sent.\<close>

fun published :: "string \<Rightarrow> bus_op list \<Rightarrow> ContainerEvent list" where
  "published n [] = []"
| "published n (op # ops) =
     (case op of
        OpPublish now ev \<Rightarrow> (if ev_Name ev = n \<or> n = [] then [stamp_event now ev] else [])
      | _ \<Rightarrow> []) @ published n ops"

definition subscribed :: "string \<Rightarrow> nat \<Rightarrow> EventBus \<Rightarrow> bool" where
  "subscribed n ch b \<longleftrightarrow> bus_ok b \<and> ch \<in> set (eb_subscribers b n)"

abbreviation buffer :: "nat \<Rightarrow> EventBus \<Rightarrow> ContainerEvent list" where
  "buffer ch b \<equiv> ch_buf (eb_chans b ! ch)"

lemma subscribed_audience:
  assumes "subscribed n ch b"
  shows "ch \<in> set (audience ev b) \<longleftrightarrow> ev_Name ev = n \<or> n = []"
proof -
  have "ch \<in> set (eb_subscribers b m) \<longleftrightarrow> m = n" for m
    using assms by (auto simp: subscribed_def bus_ok_def)
  then show ?thesis by (auto simp: audience_def)
qed

lemma subscribed_buffer: "subscribed n ch b \<Longrightarrow> ch < length (eb_chans b) \<and> length (buffer ch b) \<le> chan_cap"
  by (auto simp: subscribed_def bus_ok_def)

lemma subscribed_exec:
  assumes "subscribed n ch b" and "op \<noteq> OpUnsubscribe n ch" and "bus_exec op b = Some b'"
  shows "ch \<in> set (eb_subscribers b' n) \<and> taken ch op b @ buffer ch b' = take chan_cap (buffer ch b @ published n [op])"
proof (cases op)
  case (OpSubscribe m)
  then show ?thesis using assms(1,3) subscribed_buffer [OF assms(1)]
    by (auto simp: subscribed_def Subscribe_def Let_def nth_append taken_def)
next
  case (OpUnsubscribe m c)
  have "ch \<noteq> c \<or> ch \<notin> set (eb_subscribers b m)"
    using assms(1,2) OpUnsubscribe by (auto simp: subscribed_def bus_ok_def)
  then show ?thesis using assms(1,3) OpUnsubscribe subscribed_buffer [OF assms(1)]
    by (auto simp: subscribed_def Unsubscribe_def close_chan_def Let_def taken_def split: if_splits)
next
  case (OpPublish now ev)
  obtain cs where p: "Publish now ev b = Some (b\<lparr>eb_chans := cs\<rparr>)"
      "sent (stamp_event now ev) (audience ev b) (eb_chans b) cs"
    using Publish_sent assms(1) unfolding subscribed_def by metis
  then show ?thesis
    using assms(1,3) OpPublish subscribed_buffer [OF assms(1)] subscribed_audience [OF assms(1), of ev]
    by (auto simp: subscribed_def sent_def taken_def)
next
  case (OpReceive c)
  then show ?thesis using assms(1,3) subscribed_buffer [OF assms(1)] recv_event_cases [of c b]
    by (auto simp: subscribed_def taken_def nth_list_update)
qed

lemma stream_of_published:
  assumes "subscribed n ch b" and "OpUnsubscribe n ch \<notin> set ops"
  shows "\<exists>evs b'. stream_of ch ops b = Some (evs, b') \<and> subseq (evs @ buffer ch b') (buffer ch b @ published n ops) \<and>
    (length (buffer ch b @ published n ops) \<le> chan_cap \<longrightarrow> evs @ buffer ch b' = buffer ch b @ published n ops)"
  using assms
proof (induction ops arbitrary: b)
  case (Cons op ops)
  obtain b1 where b1: "bus_exec op b = Some b1" "bus_ok b1"
    using bus_exec_ok Cons.prems(1) unfolding subscribed_def by blast
  have one: "ch \<in> set (eb_subscribers b1 n)" "taken ch op b @ buffer ch b1 = take chan_cap (buffer ch b @ published n [op])"
    using subscribed_exec [OF Cons.prems(1) _ b1(1)] Cons.prems(2) by auto
  then have sub: "subscribed n ch b1" using b1(2) by (simp add: subscribed_def)
  obtain evs b' where r: "stream_of ch ops b1 = Some (evs, b')"
      "subseq (evs @ buffer ch b') (buffer ch b1 @ published n ops)"
      "length (buffer ch b1 @ published n ops) \<le> chan_cap \<Longrightarrow> evs @ buffer ch b' = buffer ch b1 @ published n ops"
    using Cons.IH [OF sub] Cons.prems(2) by auto
  have pub: "published n (op # ops) = published n [op] @ published n ops" by simp
  have "subseq ((taken ch op b @ buffer ch b1) @ published n ops) (buffer ch b @ published n (op # ops))"
    unfolding one(2) pub append_assoc [symmetric] by (rule list_emb_append_mono [OF prefix_imp_subseq [OF take_is_prefix]]) simp
  moreover have "subseq (taken ch op b @ evs @ buffer ch b') (taken ch op b @ buffer ch b1 @ published n ops)"
    by (rule list_emb_append_mono [OF _ r(2)]) simp
  ultimately have "subseq ((taken ch op b @ evs) @ buffer ch b') (buffer ch b @ published n (op # ops))"
    using subseq_order.order_trans by fastforce
  moreover have "(taken ch op b @ evs) @ buffer ch b' = buffer ch b @ published n (op # ops)"
    if "length (buffer ch b @ published n (op # ops)) \<le> chan_cap"
  proof -
    have len: "length (buffer ch b @ published n [op]) + length (published n ops) \<le> chan_cap"
      using that unfolding pub by (simp only: length_append add.assoc)
    then have eq: "taken ch op b @ buffer ch b1 = buffer ch b @ published n [op]"
      unfolding one(2) by (simp only: take_all_iff)
    have "length (buffer ch b1) \<le> length (buffer ch b @ published n [op])"
      unfolding eq [symmetric] by simp
    then have "evs @ buffer ch b' = buffer ch b1 @ published n ops" using r(3) len by simp
    then show ?thesis using eq unfolding pub by (metis append.assoc)
  qed
  ultimately show ?case using b1 r(1) by auto
qed simp

text \<open>
  A new subscriber of a container (of all containers, for the empty name) receives, in
  the order of publication and with no invented or repeated event, events published for that
  container; as long as no more than 16 are published it misses none, however its receipts
  and the operations of the other subscribers are interleaved.
\<close>

theorem subscriber_stream:
  assumes "bus_ok b" and "Subscribe n b = (ch, b0)" and "OpUnsubscribe n ch \<notin> set ops"
  shows "\<exists>evs b'. stream_of ch ops b0 = Some (evs, b') \<and> subseq (evs @ buffer ch b') (published n ops) \<and>
    (length (published n ops) \<le> 16 \<longrightarrow> evs @ buffer ch b' = published n ops)"
proof -
  have "subscribed n ch b0" using assms(1,2) bus_ok_Subscribe [OF assms(1), of n]
    by (auto simp: subscribed_def Subscribe_def Let_def)
  moreover have "buffer ch b0 = []" using assms(2) by (auto simp: Subscribe_def Let_def)
  ultimately show ?thesis using stream_of_published [of n ch b0 ops] assms(3) by (simp add: chan_cap_def)
qed

definition demo_event :: ContainerEvent where
  "demo_event = \<lparr>ev_Type = EventStarted, ev_Name = ''c'', ev_ExitCode = 0, ev_Error = [], ev_Timestamp = 0\<rparr>"

theorem subscriber_stream_witness:
  "\<exists>evs b'. stream_of 0 [OpPublish 7 demo_event, OpReceive 0] (snd (Subscribe ''c'' NewEventBus)) = Some (evs, b') \<and>
     evs @ buffer 0 b' = [demo_event\<lparr>ev_Timestamp := 7\<rparr>]"
proof -
  have n: "Subscribe ''c'' NewEventBus = (0, snd (Subscribe ''c'' NewEventBus))"
    by (simp add: Subscribe_def NewEventBus_def)
  have p: "published ''c'' [OpPublish 7 demo_event, OpReceive 0] = [demo_event\<lparr>ev_Timestamp := 7\<rparr>]"
    by (simp add: demo_event_def stamp_event_def)
  from subscriber_stream [OF bus_ok_new n, of "[OpPublish 7 demo_event, OpReceive 0]"] show ?thesis
    unfolding p by (auto simp del: stream_of.simps)
qed

end
