(* ===== verification/Container_Stores.thy ===== *)
theory Container_Stores
  imports Host_OS
begin

text \<open>
  The two stores that the daemon keeps per container: captured output
  (\<open>daemon/logstore.go\<close>) and overlay directories (\<open>daemon/overlay.go\<close>).  The writers that
  \<open>LogStore.Create\<close> hands out keep a pointer to their buffer, so the buffers live in a heap
  and a writer names its buffer by index.  Package \<open>mirage\<close>, which compares and copies
  directories, is not part of the sources: its two functions are arguments.
\<close>

section \<open>Captured output\<close>

record ContainerLog =
  log_stdout :: string
  log_stderr :: string

record LogStore =
  ls_logs :: "string \<rightharpoonup> nat"
  ls_heap :: "ContainerLog list"

definition NewLogStore :: LogStore where
  "NewLogStore = \<lparr>ls_logs = Map.empty, ls_heap = []\<rparr>"

record logWriter =
  lw_cl :: nat
  lw_isStderr :: bool

text \<open>The writers that tee to the buffer are returned without their other destination.\<close>

definition LogStore_Create :: "string \<Rightarrow> LogStore \<Rightarrow> (logWriter \<times> logWriter) \<times> LogStore" where
  "LogStore_Create name s =
     (let cl = length (ls_heap s)
      in ((\<lparr>lw_cl = cl, lw_isStderr = False\<rparr>, \<lparr>lw_cl = cl, lw_isStderr = True\<rparr>),
          s\<lparr>ls_logs := (ls_logs s)(name \<mapsto> cl), ls_heap := ls_heap s @ [\<lparr>log_stdout = [], log_stderr = []\<rparr>]\<rparr>))"

definition LogStore_Get :: "string \<Rightarrow> LogStore \<Rightarrow> (string \<times> string) option" where
  "LogStore_Get name s =
     map_option (\<lambda>cl. (log_stdout (ls_heap s ! cl), log_stderr (ls_heap s ! cl))) (ls_logs s name)"

definition LogStore_Remove :: "string \<Rightarrow> LogStore \<Rightarrow> LogStore" where
  "LogStore_Remove name s = s\<lparr>ls_logs := (ls_logs s)(name := None)\<rparr>"

definition logWriter_Write :: "logWriter \<Rightarrow> string \<Rightarrow> LogStore \<Rightarrow> LogStore" where
  "logWriter_Write w p s =
     (let cl = ls_heap s ! lw_cl w
      in s\<lparr>ls_heap := (ls_heap s)[lw_cl w :=
           (if lw_isStderr w then cl\<lparr>log_stderr := log_stderr cl @ p\<rparr> else cl\<lparr>log_stdout := log_stdout cl @ p\<rparr>)]\<rparr>)"

text \<open>
  What \<open>io.MultiWriter(orig, logWriter)\<close> does on a write: the original destination first, and
  the buffer only if that took the whole slice without an error.
\<close>

definition tee_Write :: "(string \<Rightarrow> 'o \<Rightarrow> (go_error option \<times> nat) \<times> 'o) \<Rightarrow> logWriter \<Rightarrow> string \<Rightarrow> 'o \<times> LogStore \<Rightarrow>
    (go_error option \<times> nat) \<times> 'o \<times> LogStore" where
  "tee_Write orig w p os =
     (case os of (o1, s) \<Rightarrow>
      case orig p o1 of
        ((Some e, n), o2) \<Rightarrow> ((Some e, n), o2, s)
      | ((None, n), o2) \<Rightarrow>
        if n \<noteq> length p then ((Some ''short write'', n), o2, s)
        else ((None, length p), o2, logWriter_Write w p s))"

text \<open>Every writer handed out and every name in use refer to an allocated buffer.\<close>

definition logs_ok :: "LogStore \<Rightarrow> bool" where
  "logs_ok s \<longleftrightarrow> (\<forall>name cl. ls_logs s name = Some cl \<longrightarrow> cl < length (ls_heap s))"

definition write_all :: "(logWriter \<times> string) list \<Rightarrow> LogStore \<Rightarrow> LogStore" where
  "write_all ws s = fold (\<lambda>(w, p). logWriter_Write w p) ws s"

definition written :: "logWriter \<Rightarrow> (logWriter \<times> string) list \<Rightarrow> string" where
  "written w ws = concat [p. (v, p) \<leftarrow> ws, v = w]"

lemma write_all_heap:
  assumes "cl < length (ls_heap s)"
  shows "ls_logs (write_all ws s) = ls_logs s \<and> length (ls_heap (write_all ws s)) = length (ls_heap s) \<and>
    ls_heap (write_all ws s) ! cl =
      \<lparr>log_stdout = log_stdout (ls_heap s ! cl) @ written \<lparr>lw_cl = cl, lw_isStderr = False\<rparr> ws,
       log_stderr = log_stderr (ls_heap s ! cl) @ written \<lparr>lw_cl = cl, lw_isStderr = True\<rparr> ws\<rparr>"
  using assms
proof (induction ws arbitrary: s)
  case (Cons wp ws)
  obtain w p where "wp = (w, p)" by fastforce
  with Cons.IH [of "logWriter_Write w p s"] Cons.prems show ?case
    by (cases w) (auto simp: write_all_def logWriter_Write_def written_def Let_def nth_list_update)
qed (simp add: write_all_def written_def)

text \<open>
  What a container's writers wrote, in order and per stream, is what \<open>Get\<close> answers, whatever
  writers of other containers, or of an earlier container of the same name, still write.
\<close>

theorem captured_output:
  assumes "LogStore_Create name s = ((out, err), s')"
  shows "LogStore_Get name (write_all ws s') = Some (written out ws, written err ws)"
proof -
  have n: "ls_logs s' name = Some (length (ls_heap s))" "length (ls_heap s) < length (ls_heap s')"
      "ls_heap s' ! length (ls_heap s) = \<lparr>log_stdout = [], log_stderr = []\<rparr>"
      "out = \<lparr>lw_cl = length (ls_heap s), lw_isStderr = False\<rparr>" "err = \<lparr>lw_cl = length (ls_heap s), lw_isStderr = True\<rparr>"
    using assms by (auto simp: LogStore_Create_def Let_def)
  from write_all_heap [OF n(2), of ws] show ?thesis unfolding LogStore_Get_def by (simp add: n)
qed

theorem captured_output_witness:
  "\<exists>s' out err. LogStore_Get ''c'' (write_all [(out, ''a''), (err, ''x''), (out, ''b'')] s') = Some (''ab'', ''x'')"
proof -
  obtain out err s' where c: "LogStore_Create ''c'' NewLogStore = ((out, err), s')" by (metis prod.exhaust)
  then have "out \<noteq> err" by (auto simp: LogStore_Create_def Let_def)
  then have w: "written out [(out, ''a''), (err, ''x''), (out, ''b'')] = ''ab''" "written err [(out, ''a''), (err, ''x''), (out, ''b'')] = ''x''"
    by (auto simp: written_def)
  from captured_output [OF c, of "[(out, ''a''), (err, ''x''), (out, ''b'')]"] show ?thesis unfolding w by blast
qed

section \<open>Overlays\<close>

record 'c mirage =
  mi_DiffDirs :: "string \<Rightarrow> string \<Rightarrow> host \<Rightarrow> go_error + 'c list"
  mi_CommitFiles :: "string \<Rightarrow> string \<Rightarrow> string list \<Rightarrow> host \<Rightarrow> go_error option \<times> host"

record plainMirageSpace =
  pm_lower :: string
  pm_upper :: string

record OverlayStore =
  os_spaces :: "string \<rightharpoonup> plainMirageSpace"
  os_dirs :: "string \<rightharpoonup> (string \<times> string)"

definition NewOverlayStore :: OverlayStore where
  "NewOverlayStore = \<lparr>os_spaces = Map.empty, os_dirs = Map.empty\<rparr>"

definition OverlayStore_Register :: "string \<Rightarrow> string \<Rightarrow> string \<Rightarrow> OverlayStore \<Rightarrow> OverlayStore" where
  "OverlayStore_Register name lower upper s =
     s\<lparr>os_dirs := (os_dirs s)(name \<mapsto> (lower, upper)),
       os_spaces := (os_spaces s)(name \<mapsto> \<lparr>pm_lower = lower, pm_upper = upper\<rparr>)\<rparr>"

definition OverlayStore_Remove :: "string \<Rightarrow> OverlayStore \<Rightarrow> OverlayStore" where
  "OverlayStore_Remove name s = s\<lparr>os_spaces := (os_spaces s)(name := None), os_dirs := (os_dirs s)(name := None)\<rparr>"

text \<open>The message, without the quotes that \<open>%q\<close> puts around the name.\<close>

definition no_overlay :: "string \<Rightarrow> go_error" where
  "no_overlay name = ''no overlay for container '' @ name"

definition space_Diff :: "'c mirage \<Rightarrow> plainMirageSpace \<Rightarrow> host \<Rightarrow> go_error + 'c list" where
  "space_Diff mi sp h = mi_DiffDirs mi (pm_lower sp) (pm_upper sp) h"

definition space_Commit :: "'c mirage \<Rightarrow> plainMirageSpace \<Rightarrow> string list \<Rightarrow> host \<Rightarrow> go_error option \<times> host" where
  "space_Commit mi sp paths h = mi_CommitFiles mi (pm_upper sp) (pm_lower sp) paths h"

definition OverlayStore_Diff :: "'c mirage \<Rightarrow> string \<Rightarrow> OverlayStore \<Rightarrow> host \<Rightarrow> go_error + 'c list" where
  "OverlayStore_Diff mi name s h =
     (case os_spaces s name of None \<Rightarrow> Inl (no_overlay name) | Some sp \<Rightarrow> space_Diff mi sp h)"

definition OverlayStore_Commit ::
  "'c mirage \<Rightarrow> string \<Rightarrow> string list \<Rightarrow> OverlayStore \<Rightarrow> host \<Rightarrow> go_error option \<times> host" where
  "OverlayStore_Commit mi name paths s h =
     (case os_spaces s name of None \<Rightarrow> (Some (no_overlay name), h) | Some sp \<Rightarrow> space_Commit mi sp paths h)"

text \<open>A diff reads the registered directories of the last registration, and a commit copies upwards to lower.\<close>

lemma registered_overlay:
  "OverlayStore_Diff mi n (OverlayStore_Register m l u s) h =
     (if n = m then mi_DiffDirs mi l u h else OverlayStore_Diff mi n s h)"
  "OverlayStore_Commit mi n ps (OverlayStore_Register m l u s) h =
     (if n = m then mi_CommitFiles mi u l ps h else OverlayStore_Commit mi n ps s h)"
  "OverlayStore_Diff mi n (OverlayStore_Remove m s) h =
     (if n = m then Inl (no_overlay n) else OverlayStore_Diff mi n s h)"
  by (simp_all add: OverlayStore_Diff_def OverlayStore_Commit_def OverlayStore_Register_def
      OverlayStore_Remove_def space_Diff_def space_Commit_def)

end
