(* ===== verification/Daemon_Server.thy ===== *)
theory Daemon_Server
  imports Proxy_Manager Events Container_Stores CRI_Backend
begin

text \<open>
  The daemon as a whole: the state of \<open>Server\<close> and the container handlers of
  \<open>daemon/server.go\<close>.  \<open>handleContainerStart\<close> answers at once and leaves a goroutine behind:
  its three actions (\<open>lifecycle.Start\<close>, the event, the stop of the proxy) are tasks of the
  server that run interleaved with the requests, each as one step.  A handler or task that
  panics is \<open>None\<close>.
\<close>

record VsockConfig =
  vc_Port :: "32 word"
  vc_BinDir :: string

datatype task =
    TLaunch ContainerSpec
  | TReport string "lifecycle_error option"
  | TStopProxy string

fun task_name :: "task \<Rightarrow> string" where
  "task_name (TLaunch spec) = spec_name spec"
| "task_name (TReport n e) = n"
| "task_name (TStopProxy n) = n"

record ('p, 's, 'k) Server =
  sv_broker :: "'p broker"
  sv_lifecycle :: "'s Lifecycle option"
  sv_backend :: 's
  sv_proxyMgr :: "'k ProxyManager option"
  sv_vsockCfg :: "VsockConfig option"
  sv_events :: EventBus
  sv_logs :: LogStore
  sv_overlays :: OverlayStore
  sv_addr :: string
  sv_tasks :: "task list"

definition NewServer ::
  "'p broker \<Rightarrow> 's Lifecycle option \<Rightarrow> 's \<Rightarrow> 'k ProxyManager option \<Rightarrow> VsockConfig option \<Rightarrow> string \<Rightarrow> ('p, 's, 'k) Server" where
  "NewServer b lc s pm vc addr =
     \<lparr>sv_broker = b, sv_lifecycle = lc, sv_backend = s, sv_proxyMgr = pm, sv_vsockCfg = vc, sv_events = NewEventBus,
      sv_logs = NewLogStore, sv_overlays = NewOverlayStore, sv_addr = addr, sv_tasks = []\<rparr>"

text \<open>
  The surroundings of one step: the kernel's network functions, the answer of \<open>net.Listen\<close>,
  the clock, the liveness of processes as a forced release polls it, and the text of an error.
\<close>

record 'k server_env =
  se_kernel :: "'k net_kernel"
  se_v6 :: "string \<Rightarrow> (ip_addr \<times> nat) option"
  se_listen :: "go_error + string"
  se_now :: i64
  se_polls :: "(int \<Rightarrow> proc_status) list"
  se_text :: "lifecycle_error \<Rightarrow> string"

definition StatusInternalServerError :: nat where "StatusInternalServerError = 500"
definition StatusServiceUnavailable :: nat where "StatusServiceUnavailable = 503"
definition StatusNotFound :: nat where "StatusNotFound = 404"

abbreviation sv_world :: "('p, 's, 'k) Server \<Rightarrow> host \<times> 's" where
  "sv_world sv \<equiv> (bk_host (sv_broker sv), sv_backend sv)"

definition set_world :: "host \<times> 's \<Rightarrow> ('p, 's, 'k) Server \<Rightarrow> ('p, 's, 'k) Server" where
  "set_world w sv = sv\<lparr>sv_broker := (sv_broker sv)\<lparr>bk_host := fst w\<rparr>, sv_backend := snd w\<rparr>"

text \<open>The guards that the handlers for containers share: method, lifecycle, JSON.\<close>

definition with_lifecycle ::
  "string \<Rightarrow> 'b http_request \<Rightarrow> ('p, 's, 'k) Server \<Rightarrow> (nat \<Rightarrow> string \<Rightarrow> 'x) \<Rightarrow> ('s Lifecycle \<Rightarrow> 'b \<Rightarrow> 'x) \<Rightarrow> 'x" where
  "with_lifecycle unavailable r sv fail ok =
     (if hr_Method r \<noteq> ''POST'' then fail StatusMethodNotAllowed ''POST required''
      else case sv_lifecycle sv of
        None \<Rightarrow> fail StatusServiceUnavailable unavailable
      | Some lc \<Rightarrow>
        (case hr_Body r of
           Inl e \<Rightarrow> fail StatusBadRequest (''invalid JSON: '' @ e)
         | Inr body \<Rightarrow> ok lc body))"

section \<open>Starting a container\<close>

definition add_env :: "string list \<Rightarrow> ContainerSpec \<Rightarrow> ContainerSpec" where
  "add_env vars spec = spec\<lparr>spec_Process := (spec_Process spec)\<lparr>proc_Env := proc_Env (spec_Process spec) @ vars\<rparr>\<rparr>"

text \<open>
  The proxy of the container and what tells the container about it: the forwarder inside the
  virtual machine for Kata with vsock, the host's proxy otherwise.
\<close>

definition inject_proxy ::
  "'k server_env \<Rightarrow> ContainerSpec \<Rightarrow> ('p, 's, 'k) Server \<Rightarrow> (go_error + ContainerSpec) \<times> ('p, 's, 'k) Server" where
  "inject_proxy env spec sv =
     (case sv_proxyMgr sv of
        None \<Rightarrow> (Inr spec, sv)
      | Some pm \<Rightarrow>
        (case ProxyManager_Start (se_kernel env) (se_v6 env) (se_listen env) (spec_name spec) pm of
           (Inl e, pm') \<Rightarrow> (Inl e, sv\<lparr>sv_proxyMgr := Some pm'\<rparr>)
         | (Inr proxyAddr, pm') \<Rightarrow>
           (Inr (case (spec_Runtime spec = RuntimeKata, sv_vsockCfg sv) of
                   (True, Some vc) \<Rightarrow>
                     (add_env (ProxyEnvVars (''127.0.0.1:'' @ itoa_nat (unat (vc_Port vc))) []) spec)
                       \<lparr>spec_VsockForwarder := Some \<lparr>vf_Port = vc_Port vc, vf_BinDir = vc_BinDir vc\<rparr>\<rparr>
                 | _ \<Rightarrow> add_env (ProxyEnvVars proxyAddr (sv_addr sv)) spec),
            sv\<lparr>sv_proxyMgr := Some pm'\<rparr>)))"

definition container_event :: "ContainerEventType \<Rightarrow> string \<Rightarrow> string \<Rightarrow> ContainerEvent" where
  "container_event typ name err = \<lparr>ev_Type = typ, ev_Name = name, ev_ExitCode = 0, ev_Error = err, ev_Timestamp = 0\<rparr>"

definition publish ::
  "'k server_env \<Rightarrow> ContainerEvent \<Rightarrow> ('p, 's, 'k) Server \<Rightarrow> ('p, 's, 'k) Server option" where
  "publish env ev sv = map_option (\<lambda>b. sv\<lparr>sv_events := b\<rparr>) (Publish (se_now env) ev (sv_events sv))"

definition handleContainerStart ::
  "'k server_env \<Rightarrow> ContainerSpec option http_request \<Rightarrow> ('p, 's, 'k) Server \<Rightarrow>
     ((string \<times> string) reply \<times> ('p, 's, 'k) Server) option" where
  "handleContainerStart env r sv =
     with_lifecycle ''container lifecycle not available (CRI backend not configured)'' r sv (\<lambda>st msg. Some (HttpError st msg, sv))
       (\<lambda>lc body. case body of
          None \<Rightarrow> Some (HttpError StatusBadRequest ''spec is required'', sv)
        | Some spec \<Rightarrow>
          let sv1 = sv\<lparr>sv_broker := (sv_broker sv)\<lparr>bk_whitelist := wl_LoadFromSpec spec (bk_whitelist (sv_broker sv))\<rparr>\<rparr>
          in case inject_proxy env spec sv1 of
               (Inl e, sv2) \<Rightarrow> Some (HttpError StatusInternalServerError (''proxy start failed: '' @ e), sv2)
             | (Inr spec', sv2) \<Rightarrow>
               map_option (\<lambda>sv3. (OK (spec_name spec, ''started''), sv3\<lparr>sv_tasks := sv_tasks sv3 @ [TLaunch spec']\<rparr>))
                 (publish env (container_event EventStarted (spec_name spec) []) sv2))"

text \<open>The goroutine of a start, action by action.  A panic in \<open>lifecycle.Start\<close> is a panic of the daemon.\<close>

definition run_task :: "'k server_env \<Rightarrow> nat \<Rightarrow> ('p, 's, 'k) Server \<Rightarrow> ('p, 's, 'k) Server option" where
  "run_task env i sv =
     (case sv_tasks sv ! i of
        TLaunch spec \<Rightarrow>
          (case sv_lifecycle sv of
             None \<Rightarrow> None
           | Some lc \<Rightarrow>
             (case Lifecycle_Start lc spec (sv_world sv) of
                (Some LcPanic, w) \<Rightarrow> None
              | (e, w) \<Rightarrow> Some ((set_world w sv)\<lparr>sv_tasks := (sv_tasks sv)[i := TReport (spec_name spec) e]\<rparr>)))
      | TReport name e \<Rightarrow>
          map_option (\<lambda>sv'. sv'\<lparr>sv_tasks := (sv_tasks sv)[i := TStopProxy name]\<rparr>)
            (publish env (case e of None \<Rightarrow> container_event EventExited name []
                                  | Some x \<Rightarrow> container_event EventError name (se_text env x)) sv)
      | TStopProxy name \<Rightarrow>
          Some (sv\<lparr>sv_proxyMgr := map_option (\<lambda>pm. snd (ProxyManager_Stop (se_kernel env) name pm)) (sv_proxyMgr sv),
                   sv_tasks := take i (sv_tasks sv) @ drop (Suc i) (sv_tasks sv)\<rparr>))"

section \<open>The other handlers\<close>

definition handleContainerStop ::
  "'k server_env \<Rightarrow> (string \<times> bool) http_request \<Rightarrow> ('p, 's, 'k) Server \<Rightarrow> string reply \<times> ('p, 's, 'k) Server" where
  "handleContainerStop env r sv =
     with_lifecycle ''container lifecycle not available'' r sv (\<lambda>st msg. (HttpError st msg, sv))
       (\<lambda>lc (name, force).
          case Lifecycle_Stop lc (se_polls env) name force (sv_world sv) of
            (Some e, w) \<Rightarrow> (HttpError StatusInternalServerError (''stop failed: '' @ se_text env e), set_world w sv)
          | (None, w) \<Rightarrow> (OK ''stopped'', set_world w sv))"

text \<open>\<open>Lifecycle.Destroy\<close> never reports an error.\<close>

definition handleContainerDestroy ::
  "string http_request \<Rightarrow> ('p, 's, 'k) Server \<Rightarrow> string reply \<times> ('p, 's, 'k) Server" where
  "handleContainerDestroy r sv =
     with_lifecycle ''container lifecycle not available'' r sv (\<lambda>st msg. (HttpError st msg, sv))
       (\<lambda>lc name. (OK ''destroyed'', set_world (Lifecycle_Destroy lc name (sv_world sv)) sv))"

definition handleContainerList :: "'b http_request \<Rightarrow> ('p, 's, 'k) Server \<Rightarrow> ContainerInfo list reply" where
  "handleContainerList r sv =
     (if hr_Method r \<noteq> ''GET'' then HttpError StatusMethodNotAllowed ''GET required''
      else case sv_lifecycle sv of
        None \<Rightarrow> HttpError StatusServiceUnavailable ''container lifecycle not available''
      | Some lc \<Rightarrow>
        (case Lifecycle_List lc (sv_world sv) of
           Inl e \<Rightarrow> HttpError StatusInternalServerError (''list failed: '' @ e)
         | Inr infos \<Rightarrow> OK infos))"

definition handleContainerStatus :: "string http_request \<Rightarrow> ('p, 's, 'k) Server \<Rightarrow> ContainerInfo reply" where
  "handleContainerStatus r sv =
     with_lifecycle ''container lifecycle not available'' r sv HttpError
       (\<lambda>lc name. case Lifecycle_Status lc name (sv_world sv) of
          Inl e \<Rightarrow> HttpError StatusNotFound (''status failed: '' @ e)
        | Inr info \<Rightarrow> OK info)"

definition handleContainerExec ::
  "(string \<times> string list \<times> i64) http_request \<Rightarrow> ('p, 's, 'k) Server \<Rightarrow>
     (string \<times> string \<times> 32 word) reply \<times> ('p, 's, 'k) Server" where
  "handleContainerExec r sv =
     with_lifecycle ''container lifecycle not available'' r sv (\<lambda>st msg. (HttpError st msg, sv))
       (\<lambda>lc (name, cmd, timeout).
          case Lifecycle_Exec lc name cmd timeout (sv_world sv) of
            (Inl e, w) \<Rightarrow> (HttpError StatusInternalServerError (''exec failed: '' @ e), set_world w sv)
          | (Inr res, w) \<Rightarrow> (OK res, set_world w sv))"

text \<open>The name is the query parameter of a GET request; the message is without the quotes of \<open>%q\<close>.\<close>

definition handleContainerLogs :: "string http_request \<Rightarrow> ('p, 's, 'k) Server \<Rightarrow> (string \<times> string) reply" where
  "handleContainerLogs r sv =
     (if hr_Method r \<noteq> ''GET'' then HttpError StatusMethodNotAllowed ''GET required''
      else let name = (case hr_Body r of Inl e \<Rightarrow> [] | Inr n \<Rightarrow> n)
           in if name = [] then HttpError StatusBadRequest ''name parameter required''
              else case LogStore_Get name (sv_logs sv) of
                     None \<Rightarrow> HttpError StatusNotFound (''no logs for container '' @ name)
                   | Some out \<Rightarrow> OK out)"

definition handleContainerDiff :: "'c mirage \<Rightarrow> string http_request \<Rightarrow> ('p, 's, 'k) Server \<Rightarrow> 'c list reply" where
  "handleContainerDiff mi r sv =
     (if hr_Method r \<noteq> ''POST'' then HttpError StatusMethodNotAllowed ''POST required''
      else case hr_Body r of
        Inl e \<Rightarrow> HttpError StatusBadRequest (''invalid JSON: '' @ e)
      | Inr name \<Rightarrow>
        (case OverlayStore_Diff mi name (sv_overlays sv) (bk_host (sv_broker sv)) of
           Inl e \<Rightarrow> HttpError StatusNotFound e
         | Inr entries \<Rightarrow> OK entries))"

definition handleContainerCommit ::
  "'c mirage \<Rightarrow> (string \<times> string list) http_request \<Rightarrow> ('p, 's, 'k) Server \<Rightarrow> string reply \<times> ('p, 's, 'k) Server" where
  "handleContainerCommit mi r sv =
     (if hr_Method r \<noteq> ''POST'' then (HttpError StatusMethodNotAllowed ''POST required'', sv)
      else case hr_Body r of
        Inl e \<Rightarrow> (HttpError StatusBadRequest (''invalid JSON: '' @ e), sv)
      | Inr (name, paths) \<Rightarrow>
        (case OverlayStore_Commit mi name paths (sv_overlays sv) (bk_host (sv_broker sv)) of
           (Some e, h) \<Rightarrow> (HttpError StatusInternalServerError e, set_world (h, sv_backend sv) sv)
         | (None, h) \<Rightarrow> (OK ''committed'', set_world (h, sv_backend sv) sv)))"

text \<open>\<open>Server.Stop\<close>: the proxies of all containers are stopped; the HTTP server shuts down.\<close>

definition Server_Stop ::
  "'k server_env \<Rightarrow> string list \<Rightarrow> string list \<Rightarrow> ('p, 's, 'k) Server \<Rightarrow> ('p, 's, 'k) Server" where
  "Server_Stop env isos names sv =
     sv\<lparr>sv_proxyMgr := map_option (ProxyManager_StopAll (se_kernel env) isos names) (sv_proxyMgr sv)\<rparr>"

section \<open>Steps of the daemon\<close>

text \<open>
  The daemon answers requests of any kind and runs the tasks of its goroutines, in any order.
  Its shutdown is not a step: nothing follows it.  (A commit does not depend on the type of
  the entries of a diff, which is fixed to \<open>unit\<close> here.)
\<close>

inductive daemon_step :: "'k net_kernel \<Rightarrow> ('p, 's, 'k) Server \<Rightarrow> ('p, 's, 'k) Server \<Rightarrow> bool" for nk where
  step_start: "se_kernel env = nk \<Longrightarrow> handleContainerStart env r sv = Some (rep, sv') \<Longrightarrow> daemon_step nk sv sv'"
| step_task: "se_kernel env = nk \<Longrightarrow> i < length (sv_tasks sv) \<Longrightarrow> run_task env i sv = Some sv' \<Longrightarrow> daemon_step nk sv sv'"
| step_stop: "handleContainerStop env r sv = (rep, sv') \<Longrightarrow> daemon_step nk sv sv'"
| step_destroy: "handleContainerDestroy r sv = (rep, sv') \<Longrightarrow> daemon_step nk sv sv'"
| step_exec: "handleContainerExec r sv = (rep, sv') \<Longrightarrow> daemon_step nk sv sv'"
| step_commit: "handleContainerCommit (mi :: unit mirage) r sv = (rep, sv') \<Longrightarrow> daemon_step nk sv sv'"
| step_permission: "handleRequest pr y r (sv_broker sv) = (rep, b') \<Longrightarrow> daemon_step nk sv (sv\<lparr>sv_broker := b'\<rparr>)"
| step_whitelist: "handleWhitelistLoad y r (sv_broker sv) = (rep, b') \<Longrightarrow> daemon_step nk sv (sv\<lparr>sv_broker := b'\<rparr>)"
| step_events: "bus_exec op (sv_events sv) = Some b' \<Longrightarrow> daemon_step nk sv (sv\<lparr>sv_events := b'\<rparr>)"

text \<open>What a container that is about to be launched knows about its proxy at an address.\<close>

definition knows_proxy :: "('p, 's, 'k) Server \<Rightarrow> string \<Rightarrow> ContainerSpec \<Rightarrow> bool" where
  "knows_proxy sv a spec \<longleftrightarrow>
     (case (spec_Runtime spec = RuntimeKata, sv_vsockCfg sv) of
        (True, Some vc) \<Rightarrow> spec_VsockForwarder spec = Some \<lparr>vf_Port = vc_Port vc, vf_BinDir = vc_BinDir vc\<rparr>
      | _ \<Rightarrow> (\<exists>pre. proc_Env (spec_Process spec) = pre @ ProxyEnvVars a (sv_addr sv)))"

definition flight_ok :: "('p, 's, 'k) Server \<Rightarrow> 'k ProxyManager \<Rightarrow> bool" where
  "flight_ok sv pm \<longleftrightarrow> pm_ok pm \<and> dom (pm_addrs pm) = set (map task_name (sv_tasks sv)) \<and>
     distinct (map task_name (sv_tasks sv)) \<and>
     (\<forall>spec. TLaunch spec \<in> set (sv_tasks sv) \<longrightarrow> (\<exists>a. pm_addrs pm (spec_name spec) = Some a \<and> knows_proxy sv a spec))"

definition server_ok :: "('p, 's, 'k) Server \<Rightarrow> bool" where
  "server_ok sv \<longleftrightarrow> bus_ok (sv_events sv) \<and> pred_option (flight_ok sv) (sv_proxyMgr sv)"

lemma server_okI:
  "bus_ok (sv_events sv) \<Longrightarrow> (\<And>pm. sv_proxyMgr sv = Some pm \<Longrightarrow> flight_ok sv pm) \<Longrightarrow> server_ok sv"
  by (cases "sv_proxyMgr sv") (simp_all add: server_ok_def)

text \<open>Only the tasks and the fields below matter for the invariant.\<close>

lemma knows_proxy_cong:
  assumes "sv_vsockCfg sv' = sv_vsockCfg sv" and "sv_addr sv' = sv_addr sv"
  shows "knows_proxy sv' = knows_proxy sv"
  unfolding knows_proxy_def assms ..

lemma flight_ok_cong:
  assumes "sv_tasks sv' = sv_tasks sv" and "sv_vsockCfg sv' = sv_vsockCfg sv" and "sv_addr sv' = sv_addr sv"
  shows "flight_ok sv' = flight_ok sv"
  unfolding flight_ok_def assms(1) knows_proxy_cong [OF assms(2,3)] ..

lemma server_ok_frame:
  assumes "server_ok sv" and "sv_tasks sv' = sv_tasks sv" and "sv_vsockCfg sv' = sv_vsockCfg sv" and "sv_addr sv' = sv_addr sv"
    and "sv_proxyMgr sv' = sv_proxyMgr sv" and "sv_events sv' = sv_events sv"
  shows "server_ok sv'"
  using assms flight_ok_cong [OF assms(2-4)] by (simp add: server_ok_def)

lemma set_world_frame [simp]:
  "sv_tasks (set_world w sv) = sv_tasks sv" "sv_vsockCfg (set_world w sv) = sv_vsockCfg sv"
  "sv_addr (set_world w sv) = sv_addr sv" "sv_proxyMgr (set_world w sv) = sv_proxyMgr sv"
  "sv_events (set_world w sv) = sv_events sv" "sv_lifecycle (set_world w sv) = sv_lifecycle sv"
  by (simp_all add: set_world_def)

lemma server_ok_set_world [simp]: "server_ok (set_world w sv) = server_ok sv"
  using server_ok_frame [of sv "set_world w sv"] server_ok_frame [of "set_world w sv" sv] by auto

lemma publish_ok:
  assumes "bus_ok (sv_events sv)"
  obtains b where "publish env ev sv = Some (sv\<lparr>sv_events := b\<rparr>)" and "bus_ok b"
  using bus_exec_ok [OF assms, of "OpPublish (se_now env) ev"] by (auto simp: publish_def)

text \<open>The proxy that is injected: the manager's contract, and what the specification is told.\<close>

lemma inject_proxy_spec:
  assumes "sv_proxyMgr sv = Some pm" and "inject_proxy env spec sv = (Inr spec', sv')"
  shows "\<exists>a pm'. ProxyManager_Start (se_kernel env) (se_v6 env) (se_listen env) (spec_name spec) pm = (Inr a, pm') \<and>
    sv' = sv\<lparr>sv_proxyMgr := Some pm'\<rparr> \<and> spec_name spec' = spec_name spec \<and> knows_proxy sv' a spec'"
  using assms by (auto simp: inject_proxy_def knows_proxy_def add_env_def split: prod.splits sum.splits option.splits bool.splits)

lemma inject_proxy_error:
  assumes "sv_proxyMgr sv = Some pm" and "inject_proxy env spec sv = (Inl e, sv')"
  shows "\<exists>pm'. ProxyManager_Start (se_kernel env) (se_v6 env) (se_listen env) (spec_name spec) pm = (Inl e, pm') \<and>
    sv' = sv\<lparr>sv_proxyMgr := Some pm'\<rparr>"
  using assms by (auto simp: inject_proxy_def split: prod.splits sum.splits)

lemma flight_ok_launch:
  assumes "flight_ok sv pm" and "ProxyManager_Start nk v6 listen (spec_name spec) pm = (Inr a, pm')"
    and "knows_proxy sv a spec'" and "spec_name spec' = spec_name spec"
    and "sv_tasks sv' = sv_tasks sv @ [TLaunch spec']" "sv_vsockCfg sv' = sv_vsockCfg sv" "sv_addr sv' = sv_addr sv"
  shows "flight_ok sv' pm'"
proof -
  have ok: "pm_ok pm" "dom (pm_addrs pm) = set (map task_name (sv_tasks sv))" "distinct (map task_name (sv_tasks sv))"
    using assms(1) by (simp_all add: flight_ok_def)
  note A = proxies.start_adds [OF ok(1) assms(2)]
  note F = proxies.flight_start [OF ok assms(2)]
  have "\<exists>b. pm_addrs pm' (spec_name sp) = Some b \<and> knows_proxy sv' b sp" if "TLaunch sp \<in> set (sv_tasks sv')" for sp
  proof (cases "sp = spec'")
    case True
    then show ?thesis using A assms(3,4) knows_proxy_cong [OF assms(6,7)] by simp
  next
    case False
    then have "TLaunch sp \<in> set (sv_tasks sv)" using that assms(5) by simp
    then obtain b where "pm_addrs pm (spec_name sp) = Some b" "knows_proxy sv b sp"
      using assms(1) unfolding flight_ok_def by blast
    moreover from this A have "spec_name sp \<noteq> spec_name spec" by auto
    ultimately show ?thesis using A knows_proxy_cong [OF assms(6,7)] by simp
  qed
  then show ?thesis using A F assms(4,5) by (simp add: flight_ok_def)
qed

lemma inject_proxy_ok:
  fixes sv sv' :: "('p, 's, 'k) Server"
  assumes "server_ok sv" and "inject_proxy env spec sv = (r, sv')"
  shows "sv_tasks sv' = sv_tasks sv \<and> sv_vsockCfg sv' = sv_vsockCfg sv \<and> sv_addr sv' = sv_addr sv \<and> sv_events sv' = sv_events sv \<and>
    (case r of
       Inl e \<Rightarrow> server_ok sv'
     | Inr spec' \<Rightarrow> \<forall>pm'. sv_proxyMgr sv' = Some pm' \<longrightarrow>
         (\<forall>sv3 :: ('p, 's, 'k) Server. sv_tasks sv3 = sv_tasks sv @ [TLaunch spec'] \<longrightarrow> sv_vsockCfg sv3 = sv_vsockCfg sv \<longrightarrow> sv_addr sv3 = sv_addr sv \<longrightarrow>
            flight_ok sv3 pm'))"
proof (cases "sv_proxyMgr sv")
  case None
  with assms show ?thesis by (auto simp: inject_proxy_def)
next
  case (Some pm)
  with assms(1) have f: "flight_ok sv pm" by (simp add: server_ok_def)
  show ?thesis
  proof (cases r)
    case (Inl e)
    obtain pm' where p: "ProxyManager_Start (se_kernel env) (se_v6 env) (se_listen env) (spec_name spec) pm = (Inl e, pm')"
        "sv' = sv\<lparr>sv_proxyMgr := Some pm'\<rparr>"
      using inject_proxy_error [OF Some] assms(2) Inl by blast
    have "flight_ok sv pm'" using f proxies.start_fails [OF _ p(1)] by (simp add: flight_ok_def)
    then have "flight_ok sv' pm'" using flight_ok_cong [of sv' sv] p(2) by simp
    then show ?thesis using Inl p(2) assms(1) by (simp add: server_ok_def)
  next
    case (Inr spec')
    obtain a pm' where p: "ProxyManager_Start (se_kernel env) (se_v6 env) (se_listen env) (spec_name spec) pm = (Inr a, pm')"
        "sv' = sv\<lparr>sv_proxyMgr := Some pm'\<rparr>" "spec_name spec' = spec_name spec" "knows_proxy sv' a spec'"
      using inject_proxy_spec [OF Some] assms(2) Inr by blast
    have "knows_proxy sv a spec'" using p(4) knows_proxy_cong [of sv' sv] p(2) by simp
    then show ?thesis using Inr p(2) flight_ok_launch [OF f p(1) _ p(3)] by auto
  qed
qed

lemma handleContainerStart_ok:
  assumes "server_ok sv"
  shows "\<exists>rep sv'. handleContainerStart env r sv = Some (rep, sv') \<and> server_ok sv'"
proof (cases "\<exists>lc spec. hr_Method r = ''POST'' \<and> sv_lifecycle sv = Some lc \<and> hr_Body r = Inr (Some spec)")
  case False
  then show ?thesis using assms
    by (auto simp: handleContainerStart_def with_lifecycle_def split: option.splits sum.splits)
next
  case True
  then obtain lc spec where t: "hr_Method r = ''POST''" "sv_lifecycle sv = Some lc" "hr_Body r = Inr (Some spec)" by blast
  define sv1 where "sv1 = sv\<lparr>sv_broker := (sv_broker sv)\<lparr>bk_whitelist := wl_LoadFromSpec spec (bk_whitelist (sv_broker sv))\<rparr>\<rparr>"
  have ok1: "server_ok sv1" by (rule server_ok_frame [OF assms]) (simp_all add: sv1_def)
  obtain x sv2 where i: "inject_proxy env spec sv1 = (x, sv2)" by fastforce
  note I = inject_proxy_ok [OF ok1 i]
  have h: "handleContainerStart env r sv = (case (x, sv2) of
        (Inl e, sv2) \<Rightarrow> Some (HttpError StatusInternalServerError (''proxy start failed: '' @ e), sv2)
      | (Inr spec', sv2) \<Rightarrow>
          map_option (\<lambda>sv3. (OK (spec_name spec, ''started''), sv3\<lparr>sv_tasks := sv_tasks sv3 @ [TLaunch spec']\<rparr>))
            (publish env (container_event EventStarted (spec_name spec) []) sv2))"
    by (simp add: handleContainerStart_def with_lifecycle_def t Let_def sv1_def [symmetric] i)
  show ?thesis
  proof (cases x)
    case (Inl e)
    with h I show ?thesis by simp
  next
    case (Inr spec')
    have "sv_events sv2 = sv_events sv1" using I by blast
    then have "bus_ok (sv_events sv2)" using ok1 by (simp add: server_ok_def)
    then obtain b where b: "publish env (container_event EventStarted (spec_name spec) []) sv2 = Some (sv2\<lparr>sv_events := b\<rparr>)" "bus_ok b"
      by (rule publish_ok)
    have "server_ok (sv2\<lparr>sv_events := b, sv_tasks := sv_tasks sv2 @ [TLaunch spec']\<rparr>)"
    proof (rule server_okI)
      fix pm
      assume "sv_proxyMgr (sv2\<lparr>sv_events := b, sv_tasks := sv_tasks sv2 @ [TLaunch spec']\<rparr>) = Some pm"
      then have "sv_proxyMgr sv2 = Some pm" by simp
      moreover have eq: "sv_tasks sv2 = sv_tasks sv1" "sv_vsockCfg sv2 = sv_vsockCfg sv1" "sv_addr sv2 = sv_addr sv1"
        using I by blast+
      ultimately show "flight_ok (sv2\<lparr>sv_events := b, sv_tasks := sv_tasks sv2 @ [TLaunch spec']\<rparr>) pm"
        using I [unfolded Inr sum.case] by auto
    qed (use b in simp)
    then show ?thesis unfolding h using Inr b by simp
  qed
qed

lemma map_task_name_update:
  "i < length ts \<Longrightarrow> task_name t = task_name (ts ! i) \<Longrightarrow> map task_name (ts[i := t]) = map task_name ts"
  by (simp add: map_update list_update_same_conv)

text \<open>An action that leaves its container's proxy alone.\<close>

lemma flight_ok_advance:
  assumes "flight_ok sv pm" and "i < length (sv_tasks sv)" and "task_name t = task_name (sv_tasks sv ! i)" and "\<forall>sp. t \<noteq> TLaunch sp"
    and "sv_tasks sv' = (sv_tasks sv)[i := t]" "sv_vsockCfg sv' = sv_vsockCfg sv" "sv_addr sv' = sv_addr sv"
  shows "flight_ok sv' pm"
proof -
  have "TLaunch sp \<in> set (sv_tasks sv)" if "TLaunch sp \<in> set (sv_tasks sv')" for sp
    using that assms(4,5) set_update_subset_insert [of "sv_tasks sv" i t] by (auto simp: )
  then show ?thesis using assms(1) map_task_name_update [OF assms(2,3)]
    by (simp add: flight_ok_def assms(5) knows_proxy_cong [OF assms(6,7)] del: set_map)
qed

lemma flight_ok_finish:
  assumes "flight_ok sv pm" and "i < length (sv_tasks sv)" and "sv_tasks sv ! i = TStopProxy name"
    and "sv_tasks sv' = take i (sv_tasks sv) @ drop (Suc i) (sv_tasks sv)" "sv_vsockCfg sv' = sv_vsockCfg sv" "sv_addr sv' = sv_addr sv"
  shows "flight_ok sv' (snd (ProxyManager_Stop nk name pm))"
proof -
  let ?ts = "map task_name (sv_tasks sv)"
  have ok: "pm_ok pm" "dom (pm_addrs pm) = set ?ts" "distinct ?ts" using assms(1) by (simp_all add: flight_ok_def)
  have split: "?ts = map task_name (take i (sv_tasks sv)) @ name # map task_name (drop (Suc i) (sv_tasks sv))"
    using assms(2,3) id_take_nth_drop [OF assms(2)] by (metis list.simps(9) map_append task_name.simps(3))
  note F = proxies.flight_stop(1) [OF ok split, of nk] proxies.flight_stop(2) [OF ok split] and R = proxies.stop_removes [OF ok(1), of nk name]
  have "\<exists>a. pm_addrs (snd (ProxyManager_Stop nk name pm)) (spec_name sp) = Some a \<and> knows_proxy sv' a sp"
    if "TLaunch sp \<in> set (sv_tasks sv')" for sp
  proof -
    have "TLaunch sp \<in> set (sv_tasks sv)" using that assms(4) by (auto dest: in_set_takeD in_set_dropD)
    then obtain a where "pm_addrs pm (spec_name sp) = Some a" "knows_proxy sv a sp"
      using assms(1) unfolding flight_ok_def by blast
    moreover have "spec_name sp \<noteq> name"
    proof
      assume "spec_name sp = name"
      then have "name \<in> task_name ` set (sv_tasks sv')" using that by (metis imageI task_name.simps(1))
      with ok(3) show False unfolding split assms(4) by auto
    qed
    ultimately show ?thesis using R knows_proxy_cong [OF assms(5,6)] by simp
  qed
  then show ?thesis using F R by (simp add: flight_ok_def assms(4))
qed

lemma run_task_ok:
  assumes "server_ok sv" and "i < length (sv_tasks sv)" and "run_task env i sv = Some sv'"
  shows "server_ok sv'"
proof (cases "sv_tasks sv ! i")
  case (TLaunch spec)
  then obtain e w where "sv' = (set_world w sv)\<lparr>sv_tasks := (sv_tasks sv)[i := TReport (spec_name spec) e]\<rparr>"
    using assms(3) by (auto simp: run_task_def split: option.splits prod.splits lifecycle_error.splits)
  then show ?thesis using assms(1,2) TLaunch flight_ok_advance [of sv _ i "TReport (spec_name spec) e" sv']
    by (intro server_okI) (auto simp: server_ok_def)
next
  case (TReport name e)
  obtain b where "publish env (case e of None \<Rightarrow> container_event EventExited name [] | Some x \<Rightarrow> container_event EventError name (se_text env x)) sv =
      Some (sv\<lparr>sv_events := b\<rparr>)" "bus_ok b"
    using publish_ok assms(1) unfolding server_ok_def by metis
  then show ?thesis using assms TReport flight_ok_advance [of sv _ i "TStopProxy name" sv']
    by (intro server_okI) (auto simp: server_ok_def run_task_def)
next
  case (TStopProxy name)
  then show ?thesis using assms flight_ok_finish [of sv _ i name sv' "se_kernel env"]
    by (intro server_okI) (auto simp: server_ok_def run_task_def)
qed

lemma other_handlers_ok:
  assumes "server_ok sv"
  shows "handleContainerStop env rs sv = (rep, sv') \<Longrightarrow> server_ok sv'"
    and "handleContainerDestroy rd sv = (rep, sv') \<Longrightarrow> server_ok sv'"
    and "handleContainerExec re sv = (rep', sv') \<Longrightarrow> server_ok sv'"
    and "handleContainerCommit mi rc sv = (rep, sv') \<Longrightarrow> server_ok sv'"
  using assms
  by (auto simp: handleContainerStop_def handleContainerDestroy_def handleContainerExec_def handleContainerCommit_def
      with_lifecycle_def split: if_splits option.splits sum.splits prod.splits)

lemma daemon_step_ok: "daemon_step nk sv sv' \<Longrightarrow> server_ok sv \<Longrightarrow> server_ok sv'"
proof (induction rule: daemon_step.induct)
  case (step_start env r sv rep sv')
  then show ?case using handleContainerStart_ok [of sv env r] by simp
next
  case (step_task env i sv sv')
  then show ?case using run_task_ok by blast
next
  case (step_events opn sv b')
  then have "bus_ok b'" using bus_exec_ok [of "sv_events sv" opn] by (simp add: server_ok_def)
  then show ?case using step_events flight_ok_cong [of "sv\<lparr>sv_events := b'\<rparr>" sv] by (simp add: server_ok_def)
next
  case (step_permission pr y r sv rep b')
  show ?case by (rule server_ok_frame [OF step_permission(2)]) simp_all
next
  case (step_whitelist y r sv rep b')
  show ?case by (rule server_ok_frame [OF step_whitelist(2)]) simp_all
qed (auto intro: other_handlers_ok)

lemma NewServer_ok:
  assumes "\<And>pm. mgr = Some pm \<Longrightarrow> pm_ok pm \<and> pm_proxies pm = Map.empty"
  shows "server_ok (NewServer b lc s mgr vc a)"
  by (rule server_okI) (use assms in \<open>auto simp: NewServer_def bus_ok_new flight_ok_def pm_addrs_def\<close>)

lemma daemon_reaches_ok: "(daemon_step nk)\<^sup>*\<^sup>* sv sv' \<Longrightarrow> server_ok sv \<Longrightarrow> server_ok sv'"
  by (induction rule: rtranclp_induct) (auto intro: daemon_step_ok)

text \<open>
  In every state that the daemon reaches from its start, with requests and goroutines in
  any order: a container that is about to be launched has a proxy of its own running, and its
  specification names that proxy (or the forwarder to it); there is exactly one goroutine per
  running proxy, so none is left serving once all goroutines are done; and no start request
  makes the daemon panic.
\<close>

theorem containers_are_proxied:
  assumes "(daemon_step nk)\<^sup>*\<^sup>* (NewServer b lc s (Some pm0) vc a) sv" and "pm_ok pm0" and "pm_proxies pm0 = Map.empty"
    and "sv_proxyMgr sv = Some pm"
  shows "(\<forall>spec. TLaunch spec \<in> set (sv_tasks sv) \<longrightarrow>
      (\<exists>p. pm_addrs pm (spec_name spec) = Some p \<and> knows_proxy sv p spec)) \<and>
    dom (pm_proxies pm) = task_name ` set (sv_tasks sv) \<and> distinct (map task_name (sv_tasks sv)) \<and>
    (sv_tasks sv = [] \<longrightarrow> pm_serving pm = {}) \<and> (\<forall>env r. handleContainerStart env r sv \<noteq> None)"
proof -
  have ok: "server_ok sv" by (rule daemon_reaches_ok [OF assms(1) NewServer_ok]) (use assms(2,3) in auto)
  then have f: "flight_ok sv pm" using assms(4) by (simp add: server_ok_def)
  have "pm_serving pm = {}" if "sv_tasks sv = []"
    using f that by (auto simp: flight_ok_def pm_ok_def pm_addrs_dom)
  moreover have "handleContainerStart env r sv \<noteq> None" for env r using handleContainerStart_ok [OF ok, of env r] by auto
  ultimately show ?thesis using f by (auto simp: flight_ok_def pm_addrs_dom)
qed

text \<open>A daemon without network isolation, and the request that starts a container on it.\<close>

definition daemon_env :: "string set server_env" where
  "daemon_env = \<lparr>se_kernel = calm_kernel, se_v6 = (\<lambda>_. None), se_listen = Inr ''127.0.0.1:40000'', se_now = 7,
     se_polls = [], se_text = (\<lambda>_. [])\<rparr>"

definition demo_server :: "'s Lifecycle \<Rightarrow> 's \<Rightarrow> (unit, 's, string set) Server" where
  "demo_server lc s = NewServer (demo_broker ()) (Some lc) s (Some (NewProxyManager None)) None ''/run/misbah.sock''"

definition start_ws :: "ContainerSpec option http_request" where
  "start_ws = \<lparr>hr_Method = ''POST'', hr_Body = Inr (Some ws_spec)\<rparr>"

lemma demo_server_ok: "server_ok (demo_server lc s)"
  unfolding demo_server_def by (rule NewServer_ok) (auto simp: NewProxyManager_def pm_ok_def)

lemma demo_start:
  obtains sv spec where "handleContainerStart daemon_env start_ws (demo_server lc s) = Some (OK (''ws'', ''started''), sv)"
    and "server_ok sv" and "sv_tasks sv = [TLaunch spec]" and "sv_proxyMgr sv \<noteq> None"
    and "spec = add_env (ProxyEnvVars ''127.0.0.1:40000'' ''/run/misbah.sock'') ws_spec"
    and "sv_lifecycle sv = Some lc" and "sv_world sv = (demo_host, s)"
proof -
  obtain rep sv where h: "handleContainerStart daemon_env start_ws (demo_server lc s) = Some (rep, sv)" "server_ok sv"
    using handleContainerStart_ok [OF demo_server_ok [of lc s], of daemon_env start_ws] by blast
  have kata: "spec_Runtime ws_spec \<noteq> RuntimeKata" by (simp add: ws_spec_def demo_spec_def RuntimeKata_def)
  show thesis
    by (rule that [of sv]) (use h kata in \<open>auto simp: handleContainerStart_def with_lifecycle_def start_ws_def demo_server_def
      NewServer_def inject_proxy_def daemon_env_def ProxyManager_Start_def NewProxyManager_def Let_def publish_def demo_broker_def\<close>)
qed

theorem containers_are_proxied_witness:
  "\<exists>(sv :: (unit, unit, string set) Server) pm spec p. sv_proxyMgr sv = Some pm \<and> sv_tasks sv = [TLaunch spec] \<and>
     pm_addrs pm (spec_name spec) = Some p \<and> knows_proxy sv p spec"
proof -
  obtain sv spec where h: "handleContainerStart daemon_env start_ws (demo_server demo_lifecycle ()) = Some (OK (''ws'', ''started''), sv)"
      "sv_tasks sv = [TLaunch spec]" "sv_proxyMgr sv \<noteq> None"
    by (rule demo_start)
  then obtain pm where pm: "sv_proxyMgr sv = Some pm" by blast
  have "(daemon_step calm_kernel)\<^sup>*\<^sup>* (demo_server demo_lifecycle ()) sv"
    by (rule r_into_rtranclp, rule step_start [OF _ h(1)]) (simp add: daemon_env_def)
  from containers_are_proxied [OF this [unfolded demo_server_def] _ _ pm] h(2) pm show ?thesis
    by (auto simp: NewProxyManager_def pm_ok_def)
qed

section \<open>The goroutines end\<close>

fun task_rank :: "task \<Rightarrow> nat" where
  "task_rank (TLaunch spec) = 3"
| "task_rank (TReport n e) = 2"
| "task_rank (TStopProxy n) = 1"

definition work_left :: "('p, 's, 'k) Server \<Rightarrow> nat" where
  "work_left sv = sum_list (map task_rank (sv_tasks sv))"

lemma sum_list_split:
  assumes "i < length ts"
  shows "sum_list (map task_rank ts) =
    sum_list (map task_rank (take i ts)) + task_rank (ts ! i) + sum_list (map task_rank (drop (Suc i) ts))"
proof -
  have "sum_list (map task_rank (take i ts @ ts ! i # drop (Suc i) ts)) =
      sum_list (map task_rank (take i ts)) + task_rank (ts ! i) + sum_list (map task_rank (drop (Suc i) ts))"
    by simp
  then show ?thesis by (simp only: id_take_nth_drop [OF assms, symmetric])
qed

lemma run_task_tasks:
  assumes "run_task env i sv = Some sv'"
  shows "(\<exists>t. sv_tasks sv' = (sv_tasks sv)[i := t] \<and> task_name t = task_name (sv_tasks sv ! i) \<and>
      task_rank t < task_rank (sv_tasks sv ! i)) \<or>
    sv_tasks sv' = take i (sv_tasks sv) @ drop (Suc i) (sv_tasks sv)"
  using assms by (auto simp: run_task_def publish_def split: task.splits option.splits prod.splits lifecycle_error.splits)

lemma run_task_decreases:
  assumes "i < length (sv_tasks sv)" and "run_task env i sv = Some sv'"
  shows "work_left sv' < work_left sv"
proof -
  have pos: "0 < task_rank t" for t by (cases t) simp_all
  from run_task_tasks [OF assms(2)] show ?thesis
  proof
    assume "\<exists>t. sv_tasks sv' = (sv_tasks sv)[i := t] \<and> task_name t = task_name (sv_tasks sv ! i) \<and> task_rank t < task_rank (sv_tasks sv ! i)"
    then show ?thesis unfolding work_left_def sum_list_split [OF assms(1)]
      by (auto simp: upd_conv_take_nth_drop [OF assms(1)])
  next
    assume "sv_tasks sv' = take i (sv_tasks sv) @ drop (Suc i) (sv_tasks sv)"
    then show ?thesis unfolding work_left_def sum_list_split [OF assms(1)] using pos by simp
  qed
qed

text \<open>Goroutines exist only on a daemon with a lifecycle, which no step changes.\<close>

definition launchable :: "('p, 's, 'k) Server \<Rightarrow> bool" where
  "launchable sv \<longleftrightarrow> sv_tasks sv \<noteq> [] \<longrightarrow> sv_lifecycle sv \<noteq> None"

lemma publish_frame: "publish env ev sv = Some sv' \<Longrightarrow> sv_lifecycle sv' = sv_lifecycle sv \<and> sv_tasks sv' = sv_tasks sv"
  by (auto simp: publish_def)

lemma inject_proxy_tasks:
  "inject_proxy env spec sv = (r, sv') \<Longrightarrow> sv_lifecycle sv' = sv_lifecycle sv \<and> sv_tasks sv' = sv_tasks sv"
  by (auto simp: inject_proxy_def split: option.splits prod.splits sum.splits)

text \<open>What an accepted or refused start does to the tasks.\<close>

lemma handleContainerStart_tasks:
  assumes "handleContainerStart env r sv = Some (rep, sv')"
  shows "sv_lifecycle sv' = sv_lifecycle sv \<and>
    (sv_tasks sv' = sv_tasks sv \<or> sv_lifecycle sv \<noteq> None \<and> (\<exists>spec. sv_tasks sv' = sv_tasks sv @ [TLaunch spec]))"
  using assms by (auto simp: handleContainerStart_def with_lifecycle_def Let_def dest!: publish_frame inject_proxy_tasks
      split: if_splits option.splits sum.splits prod.splits)

lemma run_task_lifecycle: "run_task env i sv = Some sv' \<Longrightarrow> sv_lifecycle sv' = sv_lifecycle sv"
  by (auto simp: run_task_def dest!: publish_frame split: task.splits option.splits prod.splits lifecycle_error.splits)

lemma other_handlers_tasks:
  "handleContainerStop env rs sv = (rep, sv') \<Longrightarrow> sv_tasks sv' = sv_tasks sv \<and> sv_lifecycle sv' = sv_lifecycle sv"
  "handleContainerDestroy rd sv = (rep, sv') \<Longrightarrow> sv_tasks sv' = sv_tasks sv \<and> sv_lifecycle sv' = sv_lifecycle sv"
  "handleContainerExec re sv = (rep', sv') \<Longrightarrow> sv_tasks sv' = sv_tasks sv \<and> sv_lifecycle sv' = sv_lifecycle sv"
  "handleContainerCommit mi rc sv = (rep, sv') \<Longrightarrow> sv_tasks sv' = sv_tasks sv \<and> sv_lifecycle sv' = sv_lifecycle sv"
  by (auto simp: handleContainerStop_def handleContainerDestroy_def handleContainerExec_def handleContainerCommit_def
      with_lifecycle_def split: if_splits option.splits sum.splits prod.splits)

lemma daemon_step_tasks:
  assumes "daemon_step nk sv sv'"
  obtains "sv_lifecycle sv' = sv_lifecycle sv" "sv_tasks sv' = sv_tasks sv"
  | spec where "sv_lifecycle sv' = sv_lifecycle sv" "sv_lifecycle sv \<noteq> None" "sv_tasks sv' = sv_tasks sv @ [TLaunch spec]"
  | env i where "sv_lifecycle sv' = sv_lifecycle sv" "i < length (sv_tasks sv)" "run_task env i sv = Some sv'"
  using assms
proof cases
  case (step_start env r rep)
  then show thesis using handleContainerStart_tasks that by blast
next
  case (step_task env i)
  then show thesis using run_task_lifecycle that(3) by blast
qed (use that(1) in \<open>auto dest: other_handlers_tasks\<close>)

lemma run_task_launchable:
  assumes "run_task env i sv = Some sv'" and "i < length (sv_tasks sv)" and "launchable sv"
  shows "launchable sv'"
  using assms run_task_lifecycle [OF assms(1)] by (auto simp: launchable_def)

lemma daemon_step_launchable: "daemon_step nk sv sv' \<Longrightarrow> launchable sv \<Longrightarrow> launchable sv'"
  by (erule daemon_step_tasks) (auto simp: launchable_def intro: run_task_launchable)

lemma daemon_reaches_launchable: "(daemon_step nk)\<^sup>*\<^sup>* sv sv' \<Longrightarrow> launchable sv \<Longrightarrow> launchable sv'"
  by (induction rule: rtranclp_induct) (auto intro: daemon_step_launchable)

text \<open>No goroutine is stuck: each action can be taken.\<close>

lemma run_task_total:
  assumes "server_ok sv" and "launchable sv" and "i < length (sv_tasks sv)"
  shows "run_task env i sv \<noteq> None"
proof -
  have "bus_ok (sv_events sv)" using assms(1) by (simp add: server_ok_def)
  then have pub: "publish env ev sv \<noteq> None" for ev by (rule publish_ok [of sv env ev]) simp
  obtain lc where lc: "sv_lifecycle sv = Some lc" using assms(2,3) by (auto simp: launchable_def)
  show ?thesis
  proof (cases "sv_tasks sv ! i")
    case (TLaunch spec)
    with lc Lifecycle_Start_no_panic [of lc spec "sv_world sv"] show ?thesis
      by (auto simp: run_task_def split: option.splits prod.splits lifecycle_error.splits)
  qed (use pub in \<open>auto simp: run_task_def\<close>)
qed

text \<open>An action of any goroutine.\<close>

inductive goroutine_step :: "('p, 's, 'k) Server \<Rightarrow> ('p, 's, 'k) Server \<Rightarrow> bool" where
  "i < length (sv_tasks sv) \<Longrightarrow> run_task env i sv = Some sv' \<Longrightarrow> goroutine_step sv sv'"

lemma goroutine_steps_bound: "(goroutine_step ^^ k) sv sv' \<Longrightarrow> k + work_left sv' \<le> work_left sv"
proof (induction k arbitrary: sv')
  case (Suc k)
  then obtain s where "(goroutine_step ^^ k) sv s" "goroutine_step s sv'" by auto
  with Suc.IH [of s] run_task_decreases show ?case by (fastforce elim: goroutine_step.cases)
qed simp

lemma goroutine_steps_inv:
  "(goroutine_step ^^ k) sv sv' \<Longrightarrow> server_ok sv \<and> launchable sv \<Longrightarrow> server_ok sv' \<and> launchable sv'"
proof (induction k arbitrary: sv')
  case (Suc k)
  then obtain s where "(goroutine_step ^^ k) sv s" "goroutine_step s sv'" by auto
  with Suc show ?case by (auto elim!: goroutine_step.cases intro: run_task_ok run_task_launchable)
qed simp

lemma work_left_bound: "work_left sv \<le> 3 * length (sv_tasks sv)"
proof -
  have "task_rank t \<le> 3" for t by (cases t) simp_all
  then have "sum_list (map task_rank ts) \<le> 3 * length ts" for ts by (induction ts) (auto intro: add_mono)
  then show ?thesis by (simp add: work_left_def)
qed

text \<open>
  The tasks of the model are well-founded: from every state that the daemon reaches they take at
  most three actions each, in whatever order, and none of them panics.  This is a fact about the
  model's actions: that \<open>Lifecycle.Start\<close> itself returns, and that no mutex is held for ever, is not
  expressed by it.
\<close>

theorem goroutines_end:
  assumes "(daemon_step nk)\<^sup>*\<^sup>* (NewServer b lc s (Some pm0) vc a) sv" and "pm_ok pm0" and "pm_proxies pm0 = Map.empty"
    and "(goroutine_step ^^ k) sv sv'"
  shows "k \<le> 3 * length (sv_tasks sv) \<and> (\<forall>i env. i < length (sv_tasks sv') \<longrightarrow> run_task env i sv' \<noteq> None)"
proof
  show "k \<le> 3 * length (sv_tasks sv)"
    using goroutine_steps_bound [OF assms(4)] work_left_bound [of sv] by simp
  have "server_ok sv" by (rule daemon_reaches_ok [OF assms(1) NewServer_ok]) (use assms(2,3) in auto)
  moreover have "launchable sv"
    by (rule daemon_reaches_launchable [OF assms(1)]) (simp add: launchable_def NewServer_def)
  ultimately show "\<forall>i env. i < length (sv_tasks sv') \<longrightarrow> run_task env i sv' \<noteq> None"
    using goroutine_steps_inv [OF assms(4)] run_task_total by blast
qed

theorem goroutines_end_witness:
  "\<exists>(sv :: (unit, unit, string set) Server) spec. sv_tasks sv = [TLaunch spec] \<and> run_task daemon_env 0 sv \<noteq> None"
proof -
  obtain sv spec where h: "handleContainerStart daemon_env start_ws (demo_server demo_lifecycle ()) = Some (OK (''ws'', ''started''), sv)"
      "sv_tasks sv = [TLaunch spec]"
    by (rule demo_start)
  have "(daemon_step calm_kernel)\<^sup>*\<^sup>* (demo_server demo_lifecycle ()) sv"
    by (rule r_into_rtranclp, rule step_start [OF _ h(1)]) (simp add: daemon_env_def)
  from goroutines_end [OF this [unfolded demo_server_def], of 0 sv] h(2) show ?thesis
    by (auto simp: NewProxyManager_def pm_ok_def)
qed

section \<open>Every goroutine is done in a fair run\<close>

definition goroutine_runs :: "string \<Rightarrow> ('p, 's, 'k) Server \<Rightarrow> ('p, 's, 'k) Server \<Rightarrow> bool" where
  "goroutine_runs name sv sv' \<longleftrightarrow>
     (\<exists>env i. i < length (sv_tasks sv) \<and> task_name (sv_tasks sv ! i) = name \<and> run_task env i sv = Some sv')"

abbreviation task_names :: "('p, 's, 'k) Server \<Rightarrow> string list" where
  "task_names sv \<equiv> map task_name (sv_tasks sv)"

lemma same_name_same_task:
  "distinct (map task_name ts) \<Longrightarrow> t \<in> set ts \<Longrightarrow> u \<in> set ts \<Longrightarrow> task_name t = task_name u \<Longrightarrow> t = u"
  by (auto simp: distinct_map dest: inj_onD)

lemma run_task_rank:
  assumes "i < length (sv_tasks sv)" and "run_task env i sv = Some sv'"
    and "distinct (task_names sv)" and "t \<in> set (sv_tasks sv)" and "u \<in> set (sv_tasks sv')" and "task_name u = task_name t"
  shows "task_rank u \<le> task_rank t \<and> (task_name (sv_tasks sv ! i) = task_name t \<longrightarrow> task_rank u < task_rank t)"
proof -
  let ?ts = "sv_tasks sv"
  have other: "u \<noteq> ?ts ! j" if "j < length ?ts" "j \<noteq> i" "task_name (?ts ! i) = task_name t" for j
    using that assms(1,3,6) nth_eq_iff_index_eq [OF assms(3), of i j] by auto
  from run_task_tasks [OF assms(2)] show ?thesis
  proof
    assume "\<exists>v. sv_tasks sv' = ?ts[i := v] \<and> task_name v = task_name (?ts ! i) \<and> task_rank v < task_rank (?ts ! i)"
    then obtain v where v: "sv_tasks sv' = ?ts[i := v]" "task_name v = task_name (?ts ! i)" "task_rank v < task_rank (?ts ! i)" by blast
    from assms(5) v(1) obtain j where j: "j < length ?ts" "u = ?ts[i := v] ! j" by (auto simp: in_set_conv_nth)
    show ?thesis
    proof (cases "j = i")
      case True
      then have "u = v" using j by simp
      then have n: "task_name t = task_name (?ts ! i)" using v(2) assms(6) by metis
      have "t = ?ts ! i" by (rule same_name_same_task [OF assms(3,4) nth_mem [OF assms(1)] n])
      with \<open>u = v\<close> v(3) show ?thesis by simp
    next
      case False
      then have u: "u = ?ts ! j" using j by simp
      have "u \<in> set ?ts" unfolding u using j(1) by simp
      then have "t = u" by (rule same_name_same_task [OF assms(3,4) _ assms(6) [symmetric]])
      then show ?thesis using other [OF j(1) False] u by auto
    qed
  next
    assume d: "sv_tasks sv' = take i ?ts @ drop (Suc i) ?ts"
    then have "u \<in> set ?ts" using assms(5) by (auto dest: in_set_takeD in_set_dropD)
    then have "t = u" by (rule same_name_same_task [OF assms(3,4) _ assms(6) [symmetric]])
    moreover have "task_names sv = map task_name (take i ?ts) @ task_name (?ts ! i) # map task_name (drop (Suc i) ?ts)"
      using id_take_nth_drop [OF assms(1)] by (metis list.simps(9) map_append)
    then have "task_name (?ts ! i) \<notin> task_name ` set (take i ?ts @ drop (Suc i) ?ts)"
      using assms(3) by auto
    ultimately show ?thesis using assms(5) d by auto
  qed
qed

text \<open>What a step may do to the goroutines: nothing, start a new one, or let one of them take its next action.\<close>

definition tasks_step :: "('p, 's, 'k) Server \<Rightarrow> ('p, 's, 'k) Server \<Rightarrow> bool" where
  "tasks_step sv sv' \<longleftrightarrow> sv_lifecycle sv' = sv_lifecycle sv \<and>
     (sv_tasks sv' = sv_tasks sv \<or> sv_lifecycle sv \<noteq> None \<and> (\<exists>spec. sv_tasks sv' = sv_tasks sv @ [TLaunch spec]) \<or>
      (\<exists>env i. i < length (sv_tasks sv) \<and> run_task env i sv = Some sv'))"

lemma tasks_step_launchable: "tasks_step sv sv' \<Longrightarrow> launchable sv \<Longrightarrow> launchable sv'"
  by (auto simp: tasks_step_def launchable_def intro: run_task_launchable)

lemma tasks_step_rank:
  assumes "tasks_step sv sv'" and "distinct (task_names sv)" and "distinct (task_names sv')"
    and "t \<in> set (sv_tasks sv)" and "u \<in> set (sv_tasks sv')" and "task_name u = task_name t"
  shows "task_rank u \<le> task_rank t"
proof -
  consider "sv_tasks sv' = sv_tasks sv" | spec where "sv_tasks sv' = sv_tasks sv @ [TLaunch spec]"
    | env i where "i < length (sv_tasks sv)" "run_task env i sv = Some sv'"
    using assms(1) unfolding tasks_step_def by blast
  then show ?thesis
  proof cases
    case 1
    then show ?thesis using same_name_same_task [OF assms(2,4), of u] assms(5,6) by simp
  next
    case (2 spec)
    then show ?thesis using same_name_same_task [OF assms(3), of t u] assms(4-6) by simp
  next
    case (3 env i)
    then show ?thesis using run_task_rank [OF _ _ assms(2,4-6)] by blast
  qed
qed

text \<open>
  In a run in which the goroutine of a container takes its next action again and again, and
  requests of any kind come in between, that goroutine is done at some time.
\<close>

lemma goroutine_finishes:
  assumes run: "\<And>n. tasks_step (f n) (f (Suc n))" and dist: "\<And>n. distinct (task_names (f n))"
    and fair: "\<And>n. name \<in> set (task_names (f n)) \<Longrightarrow> \<exists>m\<ge>n. goroutine_runs name (f m) (f (Suc m))"
  shows "\<exists>m\<ge>n. name \<notin> set (task_names (f m))"
proof -
  have "\<exists>m\<ge>n. name \<notin> set (task_names (f m))" if "t \<in> set (sv_tasks (f n))" "task_name t = name" "task_rank t \<le> r" for r n t
    using that
  proof (induction r arbitrary: n t)
    case 0
    have "0 < task_rank t" by (cases t) simp_all
    with 0 show ?case by simp
  next
    case (Suc r)
    then obtain m where m: "n \<le> m" "goroutine_runs name (f m) (f (Suc m))" using fair [of n] by force
    show ?case
    proof (rule ccontr)
      assume "\<not> ?case"
      then have here: "\<exists>u\<in>set (sv_tasks (f j)). task_name u = name" if "n \<le> j" for j using that by auto
      have "\<exists>u\<in>set (sv_tasks (f j)). task_name u = name \<and> task_rank u \<le> Suc r" if "n \<le> j" for j
        using that
      proof (induction rule: dec_induct)
        case base
        then show ?case using Suc.prems by blast
      next
        case (step j)
        then obtain u v where "u \<in> set (sv_tasks (f j))" "task_name u = name" "task_rank u \<le> Suc r"
          "v \<in> set (sv_tasks (f (Suc j)))" "task_name v = name"
          using here [of "Suc j"] by auto
        with tasks_step_rank [OF run dist dist, of u j v] show ?case by auto
      qed
      then obtain u where u: "u \<in> set (sv_tasks (f m))" "task_name u = name" "task_rank u \<le> Suc r" using m(1) by blast
      obtain v where v: "v \<in> set (sv_tasks (f (Suc m)))" "task_name v = name" using here [of "Suc m"] m(1) by auto
      obtain env i where "i < length (sv_tasks (f m))" "task_name (sv_tasks (f m) ! i) = name" "run_task env i (f m) = Some (f (Suc m))"
        using m(2) by (auto simp: goroutine_runs_def)
      with run_task_rank [of i "f m" env "f (Suc m)" u v] u v dist have "task_rank v \<le> r" by auto
      from Suc.IH [OF v this] \<open>\<not> ?case\<close> m(1) show False by (meson Suc_leD le_trans)
    qed
  qed
  then show ?thesis by (cases "name \<in> set (task_names (f n))") auto
qed

section \<open>Kata containers and their proxy\<close>

text \<open>The goroutine of a start run to its end.\<close>

definition run_goroutine :: "'k server_env \<Rightarrow> nat \<Rightarrow> ('p, 's, 'k) Server \<Rightarrow> ('p, 's, 'k) Server option" where
  "run_goroutine env i sv = Option.bind (run_task env i sv) (\<lambda>sv1. Option.bind (run_task env i sv1) (run_task env i))"

lemma Backend_Start_registers:
  "Backend_Start rt cf spec b = (Inr cid, b') \<Longrightarrow> bd_containers b' (spec_name spec) = Some cid"
  by (auto simp: Backend_Start_def Let_def split: prod.splits option.splits sum.splits)

lemma Lifecycle_Start_registers:
  assumes "Lifecycle_Start lc spec (h, b) = (None, h', b')" and "lc_backend lc = CRIBackend rt cf"
  shows "\<exists>cid. bd_containers b' (spec_name spec) = Some cid"
proof -
  obtain ms spec' h2 h3 cid where t: "apply_tier (spec\<lparr>spec_Mounts := ms\<rparr>) = Inr spec'"
      "be_Start (lc_backend lc) spec' (h2, b) = (Inr cid, h3, b')"
    using assms(1) by (auto simp: Lifecycle_Start_def split: option.splits sum.splits prod.splits)
  have "Backend_Start rt cf spec' b = (Inr cid, b')" using t(2) by (auto simp: assms(2) CRIBackend_def split: prod.splits)
  moreover have "spec_name spec' = spec_name spec" using apply_tier_name [OF t(1)] by simp
  ultimately show ?thesis using Backend_Start_registers by metis
qed

text \<open>
  C38: the CRI backend's \<open>Start\<close> returns as soon as the container runs, which the goroutine
  takes for its end: it publishes that the container exited and stops its proxy while the
  container, which the backend still knows, runs on.
\<close>

theorem kata_loses_proxy:
  assumes "server_ok sv" and "i < length (sv_tasks sv)" and "sv_tasks sv ! i = TLaunch spec"
    and "sv_lifecycle sv = Some lc" and "lc_backend lc = CRIBackend rt cf"
    and "Lifecycle_Start lc spec (sv_world sv) = (None, h', b')"
  shows "\<exists>sv' cid. run_goroutine env i sv = Some sv' \<and> bd_containers (sv_backend sv') (spec_name spec) = Some cid \<and>
    Publish (se_now env) (container_event EventExited (spec_name spec) []) (sv_events sv) = Some (sv_events sv') \<and>
    (\<forall>pm. sv_proxyMgr sv' = Some pm \<longrightarrow> pm_addrs pm (spec_name spec) = None)"
proof -
  obtain cid where cid: "bd_containers b' (spec_name spec) = Some cid"
    using Lifecycle_Start_registers [OF assms(6,5)] by blast
  let ?sv1 = "(set_world (h', b') sv)\<lparr>sv_tasks := (sv_tasks sv)[i := TReport (spec_name spec) None]\<rparr>"
  have 1: "run_task env i sv = Some ?sv1" using assms(3,4,6) by (simp add: run_task_def)
  obtain b where b: "Publish (se_now env) (container_event EventExited (spec_name spec) []) (sv_events sv) = Some b"
    using bus_exec_ok [of "sv_events sv" "OpPublish (se_now env) (container_event EventExited (spec_name spec) [])"] assms(1)
    by (auto simp: server_ok_def)
  let ?sv2 = "?sv1\<lparr>sv_events := b, sv_tasks := (sv_tasks sv)[i := TStopProxy (spec_name spec)]\<rparr>"
  have 2: "run_task env i ?sv1 = Some ?sv2" using assms(2) b by (simp add: run_task_def publish_def)
  obtain sv3 where 3: "run_task env i ?sv2 = Some sv3" "sv_backend sv3 = b'" "sv_events sv3 = b"
      "sv_proxyMgr sv3 = map_option (\<lambda>pm. snd (ProxyManager_Stop (se_kernel env) (spec_name spec) pm)) (sv_proxyMgr sv)"
    using assms(2) by (simp add: run_task_def set_world_def)
  have "pm_addrs pm (spec_name spec) = None" if "sv_proxyMgr sv3 = Some pm" for pm
    using that 3(4) assms(1) proxies.stop_removes [of _ "se_kernel env" "spec_name spec"]
    by (auto simp: server_ok_def flight_ok_def)
  then show ?thesis using 1 2 3 b cid by (auto simp: run_goroutine_def)
qed

definition kata_lifecycle :: "unit Backend Lifecycle" where
  "kata_lifecycle = \<lparr>lc_lockManager = run_locks, lc_codec = pid_codec, lc_git = demo_git, lc_tempDir = ''/tmp'',
     lc_backend = CRIBackend (failing_runtime (\<lambda>_. False)) kata_config\<rparr>"

lemma kata_starts:
  assumes "spec = add_env (ProxyEnvVars ''127.0.0.1:40000'' ''/run/misbah.sock'') ws_spec"
  shows "\<exists>h' b'. Lifecycle_Start kata_lifecycle spec (demo_host, fresh_backend) = (None, h', b')"
proof -
  have v: "ContainerSpec_Validate spec = None" unfolding assms by code_simp
  have n: "spec_name spec = ''ws''" "provider_label spec = ''pv''" "spec_Mounts spec = []"
    "apply_tier (spec\<lparr>spec_Mounts := []\<rparr>) = Inr (spec\<lparr>spec_Mounts := []\<rparr>)"
    unfolding assms by (simp_all add: add_env_def ws_spec_def demo_spec_def provider_label_def apply_tier_def)
  obtain h1 where a: "AcquireLock pid_codec run_locks ''ws'' ''pv'' demo_host = (Inr (pid_lock 100), h1)"
    using demo_acquire by blast
  obtain b' where "Backend_Start (failing_runtime (\<lambda>_. False)) kata_config (spec\<lparr>spec_Mounts := []\<rparr>) fresh_backend = (Inr ''ctr'', b')"
    by (simp add: Backend_Start_def Let_def demo_runtime_defs)
  then show ?thesis
    by (simp add: Lifecycle_Start_def v n kata_lifecycle_def a ResolveGitCloneMounts_def CRIBackend_def)
qed

theorem kata_loses_proxy_witness:
  "\<exists>(sv :: (unit, unit Backend, string set) Server) sv' cid. run_goroutine daemon_env 0 sv = Some sv' \<and> bd_containers (sv_backend sv') ''ws'' = Some cid \<and>
     (\<forall>pm. sv_proxyMgr sv' = Some pm \<longrightarrow> pm_addrs pm ''ws'' = None)"
proof -
  obtain sv spec where "handleContainerStart daemon_env start_ws (demo_server kata_lifecycle fresh_backend) = Some (OK (''ws'', ''started''), sv)"
      and h1: "server_ok sv" and h2: "sv_tasks sv = [TLaunch spec]" and "sv_proxyMgr sv \<noteq> None"
      and h5: "spec = add_env (ProxyEnvVars ''127.0.0.1:40000'' ''/run/misbah.sock'') ws_spec"
      and h3: "sv_lifecycle sv = Some kata_lifecycle" and h4: "sv_world sv = (demo_host, fresh_backend)"
    by (rule demo_start)
  obtain h' b' where l: "Lifecycle_Start kata_lifecycle spec (sv_world sv) = (None, h', b')"
    using kata_starts [OF h5] unfolding h4 by blast
  have n: "spec_name spec = ''ws''" by (simp add: h5 add_env_def)
  have "lc_backend kata_lifecycle = CRIBackend (failing_runtime (\<lambda>_. False)) kata_config" by (simp add: kata_lifecycle_def)
  from kata_loses_proxy [OF h1 _ _ h3 this l, of 0 daemon_env] h2 n show ?thesis by auto
qed

end
