(* ===== verification/Daemon_Client.thy ===== *)
theory Daemon_Client
  imports Daemon_Server Spec_Files "HOL-Library.List_Lexorder" "HOL-Library.Char_ord"
begin

text \<open>
  The container calls of \<open>daemon/client.go\<close>, the event stream between client and daemon, and the
  facade \<open>pkg/misbah\<close>.  A call is composed with the handler of the daemon at the other end;
  what JSON does to the values that cross the socket is written out (\<open>wire_spec\<close> and others).
\<close>

section \<open>Values on the wire\<close>

text \<open>
  The structs of a specification have no JSON tags but for the injected fields, which are left
  out.  A map is encoded in the order of its keys, and a later member replaces an earlier one
  when two keys become the same text.
\<close>

definition wire_labels :: "(string \<rightharpoonup> string) \<Rightarrow> (string \<rightharpoonup> string)" where
  "wire_labels m = (\<lambda>k. let ks = {k0 \<in> dom m. json_text k0 = k} in if ks = {} then None else map_option json_text (m (Max ks)))"

definition wire_mount :: "MountSpec \<Rightarrow> MountSpec" where
  "wire_mount m =
     \<lparr>mnt_Type = json_text (mnt_Type m), mnt_Source = json_text (mnt_Source m), mnt_Destination = json_text (mnt_Destination m),
      mnt_Options = map json_text (mnt_Options m),
      mnt_GitClone = map_option (\<lambda>g. \<lparr>gc_Repository = json_text (gc_Repository g), gc_Ref = json_text (gc_Ref g), gc_Depth = gc_Depth g\<rparr>) (mnt_GitClone m),
      mnt_Overlay = map_option (\<lambda>v. \<lparr>ov_Lower = json_text (ov_Lower v), ov_Upper = json_text (ov_Upper v), ov_Work = json_text (ov_Work v)\<rparr>) (mnt_Overlay m)\<rparr>"

definition wire_spec :: "ContainerSpec \<Rightarrow> ContainerSpec" where
  "wire_spec s =
     \<lparr>spec_Version = json_text (spec_Version s),
      spec_Metadata = \<lparr>md_Name = json_text (md_Name (spec_Metadata s)), md_Description = json_text (md_Description (spec_Metadata s)),
        md_Labels = wire_labels (md_Labels (spec_Metadata s))\<rparr>,
      spec_Process = \<lparr>proc_Command = map json_text (proc_Command (spec_Process s)), proc_Env = map json_text (proc_Env (spec_Process s)),
        proc_Cwd = json_text (proc_Cwd (spec_Process s)), proc_NetNsName = []\<rparr>,
      spec_Namespaces = spec_Namespaces s,
      spec_Mounts = map wire_mount (spec_Mounts s),
      spec_Resources = map_option (\<lambda>r. r\<lparr>res_Memory := json_text (res_Memory r)\<rparr>) (spec_Resources s),
      spec_Image = json_text (spec_Image s), spec_Runtime = json_text (spec_Runtime s),
      spec_Network = map_option (\<lambda>n. \<lparr>net_Mode = json_text (net_Mode n), net_DNSServers = map json_text (net_DNSServers n),
        net_DNSSearch = map json_text (net_DNSSearch n), net_Hostname = json_text (net_Hostname n)\<rparr>) (spec_Network s),
      spec_TierConfig = map_option (\<lambda>t. \<lparr>tc_Tier = json_text (tc_Tier t), tc_WritablePaths = map json_text (tc_WritablePaths t)\<rparr>) (spec_TierConfig s),
      spec_Nesting = map_option (\<lambda>n. n\<lparr>nest_PermissionPolicy := json_text (nest_PermissionPolicy n)\<rparr>) (spec_Nesting s),
      spec_Permissions = map_option (\<lambda>p. \<lparr>perm_NetworkWhitelist = map json_text (perm_NetworkWhitelist p),
        perm_MCPWhitelist = map json_text (perm_MCPWhitelist p), perm_PackageWhitelist = map json_text (perm_PackageWhitelist p),
        perm_DefaultPolicy = json_text (perm_DefaultPolicy p)\<rparr>) (spec_Permissions s),
      spec_VsockForwarder = None\<rparr>"

definition wire_info :: "ContainerInfo \<Rightarrow> ContainerInfo" where
  "wire_info i = i\<lparr>ci_ID := json_text (ci_ID i), ci_Name := json_text (ci_Name i), ci_State := json_text (ci_State i),
     ci_SandboxID := json_text (ci_SandboxID i)\<rparr>"

section \<open>Requests\<close>

text \<open>
  \<open>httpClient.Do\<close> and the reading of the answer, which \<open>postAny\<close> and \<open>getJSON\<close> share: the text of
  an error answer is taken over, or its status when there is none.
\<close>

definition client_answer :: "transport \<Rightarrow> 'c reply \<Rightarrow> go_error + 'c" where
  "client_answer tr rep =
     (case tr_recv tr of
        Some e \<Rightarrow> Inl (''daemon request: '' @ e)
      | None \<Rightarrow>
        (case rep of
           HttpError st msg \<Rightarrow>
             Inl (''daemon: '' @ (if json_text msg = [] then ''status '' @ itoa_nat st else json_text msg))
         | OK v \<Rightarrow> Inr v))"

definition postAny ::
  "transport \<Rightarrow> ('b http_request \<Rightarrow> 's \<Rightarrow> 'c reply \<times> 's) \<Rightarrow> 'b \<Rightarrow> 's \<Rightarrow> (go_error + 'c) \<times> 's" where
  "postAny tr handler body s =
     (case tr_dial tr of
        Some e \<Rightarrow> (Inl (''daemon request: '' @ e), s)
      | None \<Rightarrow>
        (case handler \<lparr>hr_Method = ''POST'', hr_Body = Inr body\<rparr> s of (rep, s') \<Rightarrow> (client_answer tr rep, s')))"

definition getJSON :: "transport \<Rightarrow> ('b http_request \<Rightarrow> 'c reply) \<Rightarrow> 'b \<Rightarrow> go_error + 'c" where
  "getJSON tr handler q =
     (case tr_dial tr of
        Some e \<Rightarrow> Inl (''daemon request: '' @ e)
      | None \<Rightarrow> client_answer tr (handler \<lparr>hr_Method = ''GET'', hr_Body = Inr q\<rparr>))"

text \<open>A handler that only reads the state.\<close>

definition reading :: "('b http_request \<Rightarrow> 's \<Rightarrow> 'c reply) \<Rightarrow> 'b http_request \<Rightarrow> 's \<Rightarrow> 'c reply \<times> 's" where
  "reading handler r s = (handler r s, s)"

text \<open>The start is \<open>None\<close> when the daemon panics.\<close>

definition Client_ContainerStart ::
  "transport \<Rightarrow> 'k server_env \<Rightarrow> ContainerSpec \<Rightarrow> ('p, 's, 'k) Server \<Rightarrow> ((go_error + (string \<times> string)) \<times> ('p, 's, 'k) Server) option" where
  "Client_ContainerStart tr env spec sv =
     (case tr_dial tr of
        Some e \<Rightarrow> Some (Inl (''daemon request: '' @ e), sv)
      | None \<Rightarrow>
        map_option (\<lambda>(rep, sv'). (map_sum id (map_prod json_text json_text) (client_answer tr rep), sv'))
          (handleContainerStart env \<lparr>hr_Method = ''POST'', hr_Body = Inr (Some (wire_spec spec))\<rparr> sv))"

definition Client_ContainerStop ::
  "transport \<Rightarrow> 'k server_env \<Rightarrow> string \<Rightarrow> bool \<Rightarrow> ('p, 's, 'k) Server \<Rightarrow> (go_error + string) \<times> ('p, 's, 'k) Server" where
  "Client_ContainerStop tr env name force sv = postAny tr (handleContainerStop env) (json_text name, force) sv"

definition Client_ContainerDestroy ::
  "transport \<Rightarrow> string \<Rightarrow> ('p, 's, 'k) Server \<Rightarrow> (go_error + string) \<times> ('p, 's, 'k) Server" where
  "Client_ContainerDestroy tr name sv = postAny tr handleContainerDestroy (json_text name) sv"

definition Client_ContainerList :: "transport \<Rightarrow> ('p, 's, 'k) Server \<Rightarrow> go_error + ContainerInfo list" where
  "Client_ContainerList tr sv = map_sum id (map wire_info) (getJSON tr (\<lambda>r :: unit http_request. handleContainerList r sv) ())"

definition Client_ContainerStatus :: "transport \<Rightarrow> string \<Rightarrow> ('p, 's, 'k) Server \<Rightarrow> go_error + ContainerInfo" where
  "Client_ContainerStatus tr name sv = map_sum id wire_info (fst (postAny tr (reading handleContainerStatus) (json_text name) sv))"

definition Client_ContainerExec ::
  "transport \<Rightarrow> string \<Rightarrow> string list \<Rightarrow> i64 \<Rightarrow> ('p, 's, 'k) Server \<Rightarrow> (go_error + (string \<times> string \<times> 32 word)) \<times> ('p, 's, 'k) Server" where
  "Client_ContainerExec tr name cmd timeout sv =
     apfst (map_sum id (map_prod json_text (map_prod json_text id)))
       (postAny tr handleContainerExec (json_text name, map json_text cmd, timeout) sv)"

definition Client_WhitelistLoad ::
  "transport \<Rightarrow> yaml_codec \<Rightarrow> ContainerSpec \<Rightarrow> 'p broker \<Rightarrow> (go_error + string) \<times> 'p broker" where
  "Client_WhitelistLoad tr y spec b = postAny tr (handleWhitelistLoad y) (Some (wire_spec spec)) b"

text \<open>The entries of a diff belong to package mirage: what JSON makes of them is \<open>wire\<close>.\<close>

definition Client_ContainerDiff ::
  "transport \<Rightarrow> 'c mirage \<Rightarrow> ('c \<Rightarrow> 'c) \<Rightarrow> string \<Rightarrow> ('p, 's, 'k) Server \<Rightarrow> go_error + 'c list" where
  "Client_ContainerDiff tr mi wire name sv =
     map_sum id (map wire) (fst (postAny tr (reading (handleContainerDiff mi)) (json_text name) sv))"

definition Client_ContainerCommit ::
  "transport \<Rightarrow> 'c mirage \<Rightarrow> string \<Rightarrow> string list \<Rightarrow> ('p, 's, 'k) Server \<Rightarrow> (go_error + string) \<times> ('p, 's, 'k) Server" where
  "Client_ContainerCommit tr mi name paths sv = postAny tr (handleContainerCommit mi) (json_text name, map json_text paths) sv"

section \<open>The event stream\<close>

definition wire_event :: "ContainerEvent \<Rightarrow> ContainerEvent" where
  "wire_event e = e\<lparr>ev_Type := json_text (ev_Type e), ev_Name := json_text (ev_Name e), ev_Error := json_text (ev_Error e)\<rparr>"

text \<open>What \<open>handleContainerEvents\<close> writes for the events it receives from its channel.\<close>

definition newline :: char where "newline = CHR 0x0A"

definition sse_frame :: "(ContainerEvent \<Rightarrow> string) \<Rightarrow> ContainerEvent \<Rightarrow> string" where
  "sse_frame marshal ev = ''data: '' @ marshal ev @ [newline, newline]"

definition event_stream :: "(ContainerEvent \<Rightarrow> string) \<Rightarrow> ContainerEvent list \<Rightarrow> string" where
  "event_stream marshal evs = concat (map (sse_frame marshal) evs)"

text \<open>
  The reader in \<open>Client.ContainerEvents\<close>: a byte at a time, empty lines skipped, and \<open>None\<close> at the end
  of the stream, where an unfinished line is lost.
\<close>

fun read_line :: "string \<Rightarrow> string \<Rightarrow> (string \<times> string) option" where
  "read_line buf [] = None"
| "read_line buf (b # bs) =
     (if b = newline then (if buf = [] then read_line [] bs else Some (buf, bs)) else read_line (buf @ [b]) bs)"

definition strip_data :: "string \<Rightarrow> string" where
  "strip_data line = (if length ''data: '' < length line \<and> take 6 line = ''data: '' then drop 6 line else line)"

lemma read_line_shorter: "read_line buf s = Some (line, rest) \<Longrightarrow> length rest < length s"
  by (induction buf s rule: read_line.induct) (auto split: if_splits)

function read_events :: "(string \<Rightarrow> ContainerEvent option) \<Rightarrow> string \<Rightarrow> ContainerEvent list" where
  "read_events unmarshal s =
     (case read_line [] s of
        None \<Rightarrow> []
      | Some (line, rest) \<Rightarrow>
        (case unmarshal (strip_data line) of
           None \<Rightarrow> read_events unmarshal rest
         | Some ev \<Rightarrow> ev # read_events unmarshal rest))"
  by pat_completeness auto
termination
  by (relation "measure (\<lambda>(u, s). length s)") (auto dest: read_line_shorter)

declare read_events.simps [simp del]

section \<open>The facade\<close>

definition Misbah_Create ::
  "transport \<Rightarrow> 'k server_env \<Rightarrow> ContainerSpec \<Rightarrow> ('p, 's, 'k) Server \<Rightarrow> ((go_error + string) \<times> ('p, 's, 'k) Server) option" where
  "Misbah_Create tr env spec sv =
     map_option (apfst (map_sum (\<lambda>e. ''misbah: create: '' @ e) fst)) (Client_ContainerStart tr env spec sv)"

definition Misbah_Stop ::
  "transport \<Rightarrow> 'k server_env \<Rightarrow> string \<Rightarrow> ('p, 's, 'k) Server \<Rightarrow> (go_error + string) \<times> ('p, 's, 'k) Server" where
  "Misbah_Stop tr env name sv = Client_ContainerStop tr env name False sv"

definition Misbah_ForceStop ::
  "transport \<Rightarrow> 'k server_env \<Rightarrow> string \<Rightarrow> ('p, 's, 'k) Server \<Rightarrow> (go_error + string) \<times> ('p, 's, 'k) Server" where
  "Misbah_ForceStop tr env name sv = Client_ContainerStop tr env name True sv"

definition Misbah_Destroy ::
  "transport \<Rightarrow> string \<Rightarrow> ('p, 's, 'k) Server \<Rightarrow> (go_error + string) \<times> ('p, 's, 'k) Server" where
  "Misbah_Destroy tr name sv = Client_ContainerDestroy tr name sv"

definition Misbah_ExecTimeout ::
  "transport \<Rightarrow> string \<Rightarrow> string list \<Rightarrow> i64 \<Rightarrow> ('p, 's, 'k) Server \<Rightarrow> (go_error + (string \<times> string \<times> 32 word)) \<times> ('p, 's, 'k) Server" where
  "Misbah_ExecTimeout tr name cmd t sv = apfst (map_sum (\<lambda>e. ''misbah: exec: '' @ e) id) (Client_ContainerExec tr name cmd t sv)"

definition Misbah_Exec ::
  "transport \<Rightarrow> string \<Rightarrow> string list \<Rightarrow> ('p, 's, 'k) Server \<Rightarrow> (go_error + (string \<times> string \<times> 32 word)) \<times> ('p, 's, 'k) Server" where
  "Misbah_Exec tr name cmd sv = apfst (map_sum (\<lambda>e. ''misbah: exec: '' @ e) id) (Client_ContainerExec tr name cmd 120 sv)"

definition Misbah_Status :: "transport \<Rightarrow> string \<Rightarrow> ('p, 's, 'k) Server \<Rightarrow> go_error + ContainerInfo" where
  "Misbah_Status tr name sv = Client_ContainerStatus tr name sv"

definition Misbah_List :: "transport \<Rightarrow> ('p, 's, 'k) Server \<Rightarrow> go_error + ContainerInfo list" where
  "Misbah_List tr sv = map_sum (\<lambda>e. ''misbah: list: '' @ e) id (Client_ContainerList tr sv)"

definition Misbah_Diff :: "transport \<Rightarrow> 'c mirage \<Rightarrow> ('c \<Rightarrow> 'c) \<Rightarrow> string \<Rightarrow> ('p, 's, 'k) Server \<Rightarrow> go_error + 'c list" where
  "Misbah_Diff tr mi wire name sv = map_sum (\<lambda>e. ''misbah: diff: '' @ e) id (Client_ContainerDiff tr mi wire name sv)"

definition Misbah_Commit ::
  "transport \<Rightarrow> 'c mirage \<Rightarrow> string \<Rightarrow> string list \<Rightarrow> ('p, 's, 'k) Server \<Rightarrow> (go_error + string) \<times> ('p, 's, 'k) Server" where
  "Misbah_Commit tr mi name paths sv = apfst (map_sum (\<lambda>e. ''misbah: commit: '' @ e) id) (Client_ContainerCommit tr mi name paths sv)"

definition Misbah_LoadWhitelist ::
  "transport \<Rightarrow> yaml_codec \<Rightarrow> ContainerSpec \<Rightarrow> 'p broker \<Rightarrow> (go_error + string) \<times> 'p broker" where
  "Misbah_LoadWhitelist tr y spec b = Client_WhitelistLoad tr y spec b"

definition NewSpec :: "string \<Rightarrow> string list \<Rightarrow> ContainerSpec" where
  "NewSpec name cmd =
     \<lparr>spec_Version = ''1.0'', spec_Metadata = \<lparr>md_Name = name, md_Description = [], md_Labels = Map.empty\<rparr>,
      spec_Process = \<lparr>proc_Command = cmd, proc_Env = [], proc_Cwd = ''/workspace'', proc_NetNsName = []\<rparr>,
      spec_Namespaces = \<lparr>ns_User = True, ns_Mount = True, ns_PID = False, ns_Network = False, ns_IPC = False, ns_UTS = False\<rparr>,
      spec_Mounts = [], spec_Resources = None, spec_Image = [], spec_Runtime = ''namespace'', spec_Network = None,
      spec_TierConfig = None, spec_Nesting = None, spec_Permissions = None, spec_VsockForwarder = None\<rparr>"

definition NewSpecWithTier :: "string \<Rightarrow> string list \<Rightarrow> string \<Rightarrow> string list \<Rightarrow> string list \<Rightarrow> ContainerSpec" where
  "NewSpecWithTier name cmd tier repos writablePaths =
     (NewSpec name cmd)\<lparr>spec_TierConfig := Some \<lparr>tc_Tier = tier, tc_WritablePaths = writablePaths\<rparr>,
        spec_Mounts := map (\<lambda>repo. \<lparr>mnt_Type = ''bind'', mnt_Source = repo, mnt_Destination = ''/workspace'',
          mnt_Options = [''rbind'', ''ro''], mnt_GitClone = None, mnt_Overlay = None\<rparr>) repos\<rparr>"

section \<open>The specification that the daemon sees\<close>

text \<open>A predicate that only ASCII text satisfies cannot tell a text from what JSON carries.\<close>

lemma json_text_pred:
  assumes "\<And>t. P t \<Longrightarrow> list_all (byte_in (CHR 0x00) (CHR 0x7F)) t"
  shows "P (json_text s) \<longleftrightarrow> P s"
proof
  assume p: "P (json_text s)"
  then have "json_text s = s" using json_text_eq_ascii [OF assms [OF p], of s] by simp
  with p show "P s" by simp
next
  assume p: "P s"
  from json_text_ascii [OF assms [OF p]] p show "P (json_text s)" by simp
qed

lemma json_text_Nil_iff [simp]: "json_text s = [] \<longleftrightarrow> s = []"
  using json_text_pred [of "\<lambda>t. t = []" s] by simp

lemma json_text_word: "list_all (\<lambda>w. list_all (byte_in (CHR 0x00) (CHR 0x7F)) w) ws \<Longrightarrow> json_text s \<in> set ws \<longleftrightarrow> s \<in> set ws"
  using json_text_pred [of "\<lambda>t. t \<in> set ws" s] by (auto simp: list_all_iff)

lemma is_abs_json_text [simp]: "is_abs (json_text s) = is_abs s"
proof (cases s)
  case (Cons c t)
  have slash: "utf8_len (CHR ''/'' # t) = 1" by (simp add: utf8_len_def byte_in_def)
  show ?thesis
  proof (cases "utf8_len s")
    case 0
    with Cons slash show ?thesis by (auto simp: is_abs_def has_prefix_def json_text.simps(2))
  next
    case (Suc n)
    with Cons show ?thesis by (simp add: is_abs_def has_prefix_def json_text.simps(2))
  qed
qed simp

lemma name_byte_ascii: "name_byte c \<Longrightarrow> byte_in (CHR 0x00) (CHR 0x7F) c"
  by (auto simp: name_byte_def byte_in_def)

lemma valid_name_json [simp]: "valid_name (json_text s) = valid_name s"
  by (rule json_text_pred) (auto simp: valid_name_def list_all_iff name_byte_ascii)

lemma valid_memory_json [simp]: "valid_memory (json_text s) = valid_memory s"
  by (rule json_text_pred) (fastforce simp: valid_memory_def list_all_iff is_digit_def byte_in_def)

lemma byte_ascii_literals [simp]: "byte_in (CHR 0x00) (CHR 0x7F) (Char b0 b1 b2 b3 b4 b5 b6 False)"
  by (cases b0; cases b1; cases b2; cases b3; cases b4; cases b5; cases b6; simp add: byte_in_def)

lemma json_text_member: "list_all (byte_in (CHR 0x00) (CHR 0x7F)) a \<Longrightarrow> a \<in> json_text ` A \<longleftrightarrow> a \<in> A"
  unfolding image_iff using json_text_eq_ascii [of a] by metis

lemma json_text_subset:
  "list_all (list_all (byte_in (CHR 0x00) (CHR 0x7F))) ws \<Longrightarrow> json_text ` A \<subseteq> set ws \<longleftrightarrow> A \<subseteq> set ws"
  unfolding image_subset_iff subset_iff using json_text_word [of ws] by blast

lemma valid_mount_wire [simp]: "valid_mount (wire_mount m) = valid_mount m"
proof -
  have o: "json_text ` A \<subseteq> {''ro'', ''rw'', ''nosuid'', ''nodev'', ''noexec'', ''bind'', ''rbind''} \<longleftrightarrow>
      A \<subseteq> {''ro'', ''rw'', ''nosuid'', ''nodev'', ''noexec'', ''bind'', ''rbind''}" for A
    using json_text_subset [of "[''ro'', ''rw'', ''nosuid'', ''nodev'', ''noexec'', ''bind'', ''rbind'']" A] by simp
  show ?thesis
    unfolding valid_mount_def wire_mount_def
    by (cases "mnt_GitClone m"; cases "mnt_Overlay m") (simp_all add: json_text_eq_ascii o json_text_member)
qed

text \<open>The daemon finds a specification valid exactly when the client would.\<close>

theorem wire_spec_valid:
  "ContainerSpec_Validate (wire_spec s) = None \<longleftrightarrow> ContainerSpec_Validate s = None"
proof -
  have "json_text r \<in> {[], ''namespace'', ''kata''} \<longleftrightarrow> r \<in> {[], ''namespace'', ''kata''}"
    "json_text r \<in> {[], ''pod'', ''none'', ''host''} \<longleftrightarrow> r \<in> {[], ''pod'', ''none'', ''host''}"
    "json_text r \<in> {''eco'', ''sys'', ''com'', ''mod''} \<longleftrightarrow> r \<in> {''eco'', ''sys'', ''com'', ''mod''}"
    "json_text r \<in> {[], ''inherit'', ''restrict'', ''deny''} \<longleftrightarrow> r \<in> {[], ''inherit'', ''restrict'', ''deny''}"
    "json_text r \<in> {[], ''deny'', ''prompt''} \<longleftrightarrow> r \<in> {[], ''deny'', ''prompt''}" for r
    by (simp_all add: json_text_eq_ascii)
  note w = this
  have n: "nest_Enabled (x\<lparr>nest_PermissionPolicy := p\<rparr>) = nest_Enabled x" "nest_MaxDepth (x\<lparr>nest_PermissionPolicy := p\<rparr>) = nest_MaxDepth x"
    "nest_PermissionPolicy (x\<lparr>nest_PermissionPolicy := p\<rparr>) = p"
    "valid_resources (r\<lparr>res_Memory := json_text (res_Memory r)\<rparr>) = valid_resources r" for x :: NestingConfig and p r
    by (simp_all add: valid_resources_def)
  show ?thesis
    unfolding Validate_iff valid_spec_def wire_spec_def
    by (simp only: ContainerSpec.simps ContainerMetadata.simps ProcessSpec.simps NetworkConfig.simps TierConfig.simps
        PermissionConfig.simps NestingConfig.simps w n valid_name_json is_abs_json_text json_text_Nil_iff option.pred_map o_def
        map_is_Nil_conv list.pred_map valid_mount_wire valid_memory_json
        json_text_eq_ascii list.pred_inject byte_ascii_literals HOL.simp_thms)
qed

section \<open>Starting over the socket\<close>

lemma inject_proxy_frame:
  assumes "inject_proxy env spec sv = (Inr spec', sv')"
  shows "ContainerSpec_Validate spec' = ContainerSpec_Validate spec \<and> spec_name spec' = spec_name spec \<and>
    sv_tasks sv' = sv_tasks sv \<and> sv_lifecycle sv' = sv_lifecycle sv \<and> sv_world sv' = sv_world sv"
proof -
  have "ContainerSpec_Validate (add_env vs s) = ContainerSpec_Validate s" "spec_name (add_env vs s) = spec_name s"
    "ContainerSpec_Validate (s\<lparr>spec_VsockForwarder := vf\<rparr>) = ContainerSpec_Validate s" for vs vf s
    by (simp_all add: add_env_def ContainerSpec_Validate_def runtime_check_def ProcessSpec_Validate_def)
  with assms show ?thesis by (auto simp: inject_proxy_def split: option.splits prod.splits sum.splits bool.splits)
qed

lemma client_start_queues:
  assumes "Client_ContainerStart tr env spec sv = Some (Inr (ident, status), sv')"
  shows "status = ''started'' \<and>
    (\<exists>spec'. sv_tasks sv' = sv_tasks sv @ [TLaunch spec'] \<and> spec_name spec' = json_text (spec_name spec) \<and>
       (ContainerSpec_Validate spec' = None \<longleftrightarrow> ContainerSpec_Validate spec = None) \<and>
       (ContainerSpec_Validate spec \<noteq> None \<longrightarrow>
          (\<exists>e sv''. run_task env' (length (sv_tasks sv)) sv' = Some sv'' \<and> sv_world sv'' = sv_world sv' \<and>
             sv_tasks sv'' = sv_tasks sv @ [TReport (json_text (spec_name spec)) (Some (LcValidation e))])))"
proof -
  have sj: "json_text ''started'' = ''started''" by code_simp
  obtain lc where lc: "sv_lifecycle sv = Some lc"
    using assms by (auto simp: Client_ContainerStart_def handleContainerStart_def with_lifecycle_def client_answer_def
        split: option.splits)
  obtain spec' sv2 sv3 where i: "inject_proxy env (wire_spec spec)
      (sv\<lparr>sv_broker := (sv_broker sv)\<lparr>bk_whitelist := wl_LoadFromSpec (wire_spec spec) (bk_whitelist (sv_broker sv))\<rparr>\<rparr>) = (Inr spec', sv2)"
    and p: "publish env (container_event EventStarted (spec_name (wire_spec spec)) []) sv2 = Some sv3"
    and t: "sv' = sv3\<lparr>sv_tasks := sv_tasks sv3 @ [TLaunch spec']\<rparr>" and st: "status = json_text ''started''"
    using assms lc by (auto simp: Client_ContainerStart_def handleContainerStart_def with_lifecycle_def client_answer_def Let_def
        split: option.splits prod.splits sum.splits)
  note f = inject_proxy_frame [OF i]
  have q: "sv_tasks sv3 = sv_tasks sv" "sv_lifecycle sv' = Some lc" using p f lc t by (auto simp: publish_def)
  have n: "spec_name spec' = json_text (spec_name spec)" using f by (simp add: wire_spec_def)
  have v: "ContainerSpec_Validate spec' = None \<longleftrightarrow> ContainerSpec_Validate spec = None" using f wire_spec_valid [of spec] by simp
  have "\<exists>e sv''. run_task env' (length (sv_tasks sv)) sv' = Some sv'' \<and> sv_world sv'' = sv_world sv' \<and>
      sv_tasks sv'' = sv_tasks sv @ [TReport (json_text (spec_name spec)) (Some (LcValidation e))]"
    if "ContainerSpec_Validate spec \<noteq> None"
  proof -
    from that v obtain e where e: "ContainerSpec_Validate spec' = Some e" by auto
    have "sv_tasks sv' ! length (sv_tasks sv) = TLaunch spec'" using t q by simp
    then show ?thesis using e q n t by (auto simp: run_task_def Lifecycle_Start_def set_world_def)
  qed
  then show ?thesis using t q n v st sj by auto
qed

text \<open>
  A start that is answered over the socket has queued the launch of what the client sent:
  under its name, and valid exactly if the client's specification is.  The answer does not
  depend on that: an invalid specification is answered with "started" as well, and its launch
  fails validation before it touches the host or the backend.
\<close>

theorem client_start_launches:
  assumes "Client_ContainerStart tr env spec sv = Some (Inr (ident, status), sv')"
  shows "status = ''started'' \<and>
    (\<exists>spec'. sv_tasks sv' = sv_tasks sv @ [TLaunch spec'] \<and> spec_name spec' = json_text (spec_name spec) \<and>
       (ContainerSpec_Validate spec' = None \<longleftrightarrow> ContainerSpec_Validate spec = None) \<and>
       (ContainerSpec_Validate spec \<noteq> None \<longrightarrow>
          (\<exists>e sv''. run_task env' (length (sv_tasks sv)) sv' = Some sv'' \<and> sv_world sv'' = sv_world sv' \<and>
             sv_tasks sv'' = sv_tasks sv @ [TReport (json_text (spec_name spec)) (Some (LcValidation e))])))"
  by (rule client_start_queues [OF assms])

definition perfect_socket :: transport where
  "perfect_socket = \<lparr>tr_dial = None, tr_recv = None\<rparr>"

text \<open>A specification without a command is not valid.\<close>

definition idle_spec :: ContainerSpec where
  "idle_spec = NewSpec ''ws'' []"

theorem client_start_launches_witness:
  "\<exists>ident (sv' :: (unit, unit, string set) Server) sv'' e.
     Client_ContainerStart perfect_socket daemon_env idle_spec (demo_server demo_lifecycle ()) = Some (Inr (ident, ''started''), sv') \<and>
     run_task daemon_env 0 sv' = Some sv'' \<and> sv_tasks sv'' = [TReport ''ws'' (Some (LcValidation e))]"
proof -
  let ?sv = "demo_server demo_lifecycle () :: (unit, unit, string set) Server"
  have n: "spec_name (wire_spec idle_spec) = ''ws''" "spec_name idle_spec = ''ws''" "spec_Runtime (wire_spec idle_spec) \<noteq> RuntimeKata"
    by (simp_all add: wire_spec_def idle_spec_def NewSpec_def json_text_ascii RuntimeKata_def)
  have r: "json_text ''ws'' = ''ws''" by code_simp
  have v: "ContainerSpec_Validate idle_spec \<noteq> None" by (simp add: idle_spec_def Validate_iff valid_spec_def NewSpec_def)
  obtain rep sv' where h: "handleContainerStart daemon_env \<lparr>hr_Method = ''POST'', hr_Body = Inr (Some (wire_spec idle_spec))\<rparr> ?sv = Some (rep, sv')"
    using handleContainerStart_ok [OF demo_server_ok [of demo_lifecycle "()"], of daemon_env] by blast
  then have "rep = OK (''ws'', ''started'')"
    using n by (auto simp: handleContainerStart_def with_lifecycle_def demo_server_def NewServer_def inject_proxy_def daemon_env_def
        ProxyManager_Start_def NewProxyManager_def Let_def publish_def demo_broker_def)
  with h have c: "Client_ContainerStart perfect_socket daemon_env idle_spec ?sv = Some (Inr (json_text ''ws'', json_text ''started''), sv')"
    by (simp add: Client_ContainerStart_def perfect_socket_def client_answer_def)
  from client_start_launches [OF c, of daemon_env] v c show ?thesis by (auto simp: demo_server_def NewServer_def n r)
qed

section \<open>Events over the socket\<close>

lemma read_line_plain: "newline \<notin> set xs \<Longrightarrow> read_line buf xs = None"
  by (induction xs arbitrary: buf) auto

lemma read_line_complete: "newline \<notin> set xs \<Longrightarrow> xs \<noteq> [] \<Longrightarrow> read_line buf (xs @ newline # rest) = Some (buf @ xs, rest)"
proof (induction xs arbitrary: buf)
  case (Cons x xs)
  then show ?case by (cases "xs = []") auto
qed simp

lemma read_events_newline [simp]: "read_events u (newline # s) = read_events u s"
  by (simp add: read_events.simps [of u "newline # s"] read_events.simps [of u s])

lemma read_events_Nil [simp]: "read_events u [] = []"
  by (simp add: read_events.simps [of u "[]"])

text \<open>What the client needs of the JSON text of the events: one line, read back as the event.\<close>

definition event_json_ok :: "(ContainerEvent \<Rightarrow> string) \<Rightarrow> (string \<Rightarrow> ContainerEvent option) \<Rightarrow> ContainerEvent \<Rightarrow> bool" where
  "event_json_ok marshal unmarshal ev \<longleftrightarrow>
     marshal ev \<noteq> [] \<and> newline \<notin> set (marshal ev) \<and> unmarshal (marshal ev) = Some (wire_event ev)"

lemma read_events_line:
  assumes "newline \<notin> set l" and "l \<noteq> []"
  shows "read_events u (l @ newline # rest) =
    (case u (strip_data l) of None \<Rightarrow> read_events u rest | Some ev \<Rightarrow> ev # read_events u rest)"
  by (subst read_events.simps) (simp add: read_line_complete [OF assms])

lemma read_events_frame:
  assumes "event_json_ok marshal unmarshal ev"
  shows "read_events unmarshal ((''data: '' @ marshal ev) @ newline # rest) = wire_event ev # read_events unmarshal rest"
proof -
  have "newline \<notin> set (''data: '' @ marshal ev)" using assms by (simp add: event_json_ok_def newline_def)
  moreover have "strip_data (''data: '' @ marshal ev) = marshal ev"
    using assms by (simp add: strip_data_def event_json_ok_def)
  ultimately show ?thesis
    using assms by (subst read_events_line) (simp_all add: event_json_ok_def)
qed

lemma prefix_within: "strict_prefix t (x @ [a, b]) \<Longrightarrow> t \<noteq> x @ [a] \<Longrightarrow> prefix t x"
proof -
  assume p: "strict_prefix t (x @ [a, b])" and n: "t \<noteq> x @ [a]"
  have "x @ [a, b] = (x @ [a]) @ [b]" by simp
  with p have "prefix t (x @ [a])" unfolding strict_prefix_def by (metis prefix_snoc)
  with n show ?thesis by (metis prefix_snoc)
qed

text \<open>A beginning of the stream that ends within the first frame.\<close>

lemma read_events_cut:
  assumes "event_json_ok marshal unmarshal ev" and "strict_prefix t (sse_frame marshal ev)"
  shows "\<exists>n \<le> 1. read_events unmarshal t = take n [wire_event ev]"
proof (cases "t = (''data: '' @ marshal ev) @ [newline]")
  case True
  then show ?thesis using read_events_frame [OF assms(1), of "[]"] by (intro exI [of _ 1]) simp
next
  case False
  have "sse_frame marshal ev = (''data: '' @ marshal ev) @ [newline, newline]" by (simp add: sse_frame_def)
  with assms(2) False have "prefix t (''data: '' @ marshal ev)" by (metis prefix_within)
  then have "newline \<notin> set t" using assms(1) set_mono_prefix by (fastforce simp: event_json_ok_def newline_def)
  then show ?thesis by (intro exI [of _ 0]) (simp add: read_events.simps [of unmarshal t] read_line_plain)
qed

text \<open>
  Wherever the connection breaks, the client has received the first events in order, and among
  them every event whose text was transmitted in full; with the whole stream, all of them.
\<close>

theorem event_stream_received:
  assumes "\<forall>ev\<in>set evs. event_json_ok marshal unmarshal ev" and "prefix t (event_stream marshal evs)"
  shows "\<exists>n. read_events unmarshal t = map wire_event (take n evs) \<and>
    (\<forall>k \<le> length evs. prefix (event_stream marshal (take k evs)) t \<longrightarrow> k \<le> n)"
  using assms
proof (induction evs arbitrary: t)
  case Nil
  then show ?case by (simp add: event_stream_def)
next
  case (Cons ev evs)
  have ok: "event_json_ok marshal unmarshal ev" using Cons.prems(1) by simp
  have st: "event_stream marshal (ev # evs) = sse_frame marshal ev @ event_stream marshal evs" by (simp add: event_stream_def)
  show ?case
  proof (cases "prefix (sse_frame marshal ev) t")
    case True
    then obtain t' where t: "t = sse_frame marshal ev @ t'" by (auto simp: prefix_def)
    with Cons.prems(2) st have "prefix t' (event_stream marshal evs)" by simp
    from Cons.IH [OF _ this] Cons.prems(1) obtain n where n: "read_events unmarshal t' = map wire_event (take n evs)"
      "\<forall>k \<le> length evs. prefix (event_stream marshal (take k evs)) t' \<longrightarrow> k \<le> n"
      by (meson list.set_intros(2))
    have "read_events unmarshal t = map wire_event (take (Suc n) (ev # evs))"
      using read_events_frame [OF ok, of "newline # t'"] n(1) by (simp add: t sse_frame_def)
    moreover have "k \<le> Suc n" if "k \<le> length (ev # evs)" "prefix (event_stream marshal (take k (ev # evs))) t" for k
      using that n(2) by (cases k) (auto simp: t event_stream_def)
    ultimately show ?thesis by blast
  next
    case False
    with Cons.prems(2) st have "strict_prefix t (sse_frame marshal ev)"
      by (auto simp: strict_prefix_def prefix_append)
    from read_events_cut [OF ok this] obtain n where "n \<le> 1" "read_events unmarshal t = take n [wire_event ev]" by blast
    moreover have "k \<le> n" if "prefix (event_stream marshal (take k (ev # evs))) t" for k
      using that False by (cases k) (auto simp: event_stream_def dest: append_prefixD)
    ultimately show ?thesis by (intro exI [of _ n]) (cases n, auto)
  qed
qed

theorem event_stream_received_witness:
  "read_events (\<lambda>s. if s = ''{}'' then Some (container_event EventExited ''c'' []) else None)
     (event_stream (\<lambda>e. ''{}'') [container_event EventExited ''c'' [], container_event EventExited ''c'' []]) =
   [container_event EventExited ''c'' [], container_event EventExited ''c'' []]"
proof -
  let ?e = "container_event EventExited ''c'' []" and ?u = "\<lambda>s. if s = ''{}'' then Some (container_event EventExited ''c'' []) else None"
  have w: "wire_event ?e = ?e"
    by (simp add: wire_event_def container_event_def EventExited_def json_text_ascii)
  then have "\<forall>ev\<in>set [?e, ?e]. event_json_ok (\<lambda>e. ''{}'') ?u ev" by (simp add: event_json_ok_def newline_def)
  from event_stream_received [OF this prefix_order.refl] obtain n where
    n: "read_events ?u (event_stream (\<lambda>e. ''{}'') [?e, ?e]) = map wire_event (take n [?e, ?e])" and "2 \<le> n" by force
  then show ?thesis using w by (simp add: take_all)
qed

section \<open>Specifications made by the facade\<close>

text \<open>
  A specification for a tier is valid exactly when the name, the command and the tier are and no
  repository is empty; the lifecycle then mounts what the tier prescribes for exactly these
  repositories.
\<close>

theorem facade_tier_spec:
  "(ContainerSpec_Validate (NewSpecWithTier name cmd tier repos ws) = None \<longleftrightarrow>
     valid_name name \<and> cmd \<noteq> [] \<and> [] \<notin> set repos \<and> tier \<in> {''eco'', ''sys'', ''com'', ''mod''} \<and> (tier = ''eco'' \<longrightarrow> ws = [])) \<and>
   ([] \<notin> set repos \<and> repos \<noteq> [] \<longrightarrow>
     apply_tier (NewSpecWithTier name cmd tier repos ws) =
       (case GenerateTierMounts \<lparr>ts_Tier = tier, ts_Repos = repos, ts_WritablePaths = ws, ts_WorkspacePath = []\<rparr> of
          Inl e \<Rightarrow> Inl e
        | Inr ms \<Rightarrow> Inr ((NewSpecWithTier name cmd tier repos ws)\<lparr>spec_Mounts := ms\<rparr>)))"
proof
  show "ContainerSpec_Validate (NewSpecWithTier name cmd tier repos ws) = None \<longleftrightarrow>
     valid_name name \<and> cmd \<noteq> [] \<and> [] \<notin> set repos \<and> tier \<in> {''eco'', ''sys'', ''com'', ''mod''} \<and> (tier = ''eco'' \<longrightarrow> ws = [])"
    by (auto simp: Validate_iff valid_spec_def NewSpecWithTier_def NewSpec_def is_abs_def has_prefix_def list_all_iff valid_mount_def)
  have "[mnt_Source m. m \<leftarrow> spec_Mounts (NewSpecWithTier name cmd tier repos ws), mnt_Type m = MountTypeBind \<and> mnt_Source m \<noteq> []] = repos"
    if "[] \<notin> set repos" using that by (induction repos) (auto simp: NewSpecWithTier_def MountTypeBind_def)
  then show "[] \<notin> set repos \<and> repos \<noteq> [] \<longrightarrow>
     apply_tier (NewSpecWithTier name cmd tier repos ws) =
       (case GenerateTierMounts \<lparr>ts_Tier = tier, ts_Repos = repos, ts_WritablePaths = ws, ts_WorkspacePath = []\<rparr> of
          Inl e \<Rightarrow> Inl e
        | Inr ms \<Rightarrow> Inr ((NewSpecWithTier name cmd tier repos ws)\<lparr>spec_Mounts := ms\<rparr>))"
    by (simp add: apply_tier_def Let_def NewSpecWithTier_def cong: sum.case_cong)
qed

theorem facade_tier_spec_witness:
  "ContainerSpec_Validate (NewSpecWithTier ''a'' [''make''] ''eco'' [''/r''] []) = None \<and>
   apply_tier (NewSpecWithTier ''a'' [''make''] ''eco'' [''/r''] []) =
     (case GenerateTierMounts \<lparr>ts_Tier = ''eco'', ts_Repos = [''/r''], ts_WritablePaths = [], ts_WorkspacePath = []\<rparr> of
          Inl e \<Rightarrow> Inl e
        | Inr ms \<Rightarrow> Inr ((NewSpecWithTier ''a'' [''make''] ''eco'' [''/r''] [])\<lparr>spec_Mounts := ms\<rparr>))"
proof -
  have "valid_name ''a''" by (simp add: valid_name_def name_byte_def byte_in_def)
  then show ?thesis using facade_tier_spec [of "''a''" "[''make'']" "''eco''" "[''/r'']" "[]"] by simp
qed

end
