(* ===== verification/Event_Delivery.thy ===== *)
theory Event_Delivery
  imports Daemon_Client
begin

text \<open>
  The calls of \<open>daemon/client.go\<close> that carry a container's name in the URL (\<open>ContainerLogs\<close> and
  \<open>ContainerEvents\<close>), the handler \<open>handleContainerEvents\<close> of \<open>daemon/server.go\<close> as it runs beside the other
  users of the event bus, and what a client of the stream receives of the events that were
  published.
\<close>

section \<open>Names in URLs\<close>

text \<open>
  The client appends the name to the URL as it is.  \<open>net/url\<close> refuses control characters and a
  fragment with a malformed escape, and cuts the fragment off; a space in the query breaks the
  request line, which the server answers with status 400; and \<open>URL.Query\<close> splits at ampersands,
  skips what it cannot decode, and decodes plus signs and escapes.
\<close>

datatype url_outcome = BadURL | BadRequestLine | QueryName string

definition hex_value :: "char \<Rightarrow> nat option" where
  "hex_value c =
     (if byte_in (CHR ''0'') (CHR ''9'') c then Some (of_char c - 48)
      else if byte_in (CHR ''a'') (CHR ''f'') c then Some (of_char c - 87)
      else if byte_in (CHR ''A'') (CHR ''F'') c then Some (of_char c - 55)
      else None)"

fun query_unescape :: "string \<Rightarrow> string option" where
  "query_unescape [] = Some []"
| "query_unescape (c # s) =
     (if c = CHR ''%'' then
        (case s of
           a # b # r \<Rightarrow>
             (case (hex_value a, hex_value b) of
                (Some x, Some y) \<Rightarrow> map_option ((#) (char_of (16 * x + y))) (query_unescape r)
              | _ \<Rightarrow> None)
         | _ \<Rightarrow> None)
      else map_option ((#) (if c = CHR ''+'' then CHR '' '' else c)) (query_unescape s))"

definition query_pair :: "string \<Rightarrow> (string \<times> string) option" where
  "query_pair seg =
     (if seg = [] \<or> CHR '';'' \<in> set seg then None
      else case (query_unescape (takeWhile (\<lambda>c. c \<noteq> CHR ''='') seg), query_unescape (tl (dropWhile (\<lambda>c. c \<noteq> CHR ''='') seg))) of
             (Some k, Some v) \<Rightarrow> Some (k, v)
           | _ \<Rightarrow> None)"

definition query_get :: "string \<Rightarrow> string \<Rightarrow> string" where
  "query_get key raw =
     (case filter (\<lambda>(k, v). k = key) (List.map_filter query_pair (split_on (CHR ''&'') raw)) of
        [] \<Rightarrow> []
      | (k, v) # _ \<Rightarrow> v)"

definition ctl_byte :: "char \<Rightarrow> bool" where
  "ctl_byte c \<longleftrightarrow> (of_char c :: nat) < 32 \<or> c = CHR 0x7F"

definition name_query :: "string \<Rightarrow> url_outcome" where
  "name_query name =
     (let q = takeWhile (\<lambda>c. c \<noteq> CHR ''#'') name
      in if (\<exists>c\<in>set name. ctl_byte c) \<or> query_unescape (dropWhile (\<lambda>c. c \<noteq> CHR ''#'') name) = None then BadURL
         else if CHR '' '' \<in> set q then BadRequestLine
         else QueryName (query_get ''name'' (''name='' @ q)))"

text \<open>\<open>Client.ContainerLogs\<close>, with \<open>getJSON\<close> around it; the text of a malformed URL's error is left out.\<close>

definition Client_ContainerLogs :: "transport \<Rightarrow> string \<Rightarrow> ('p, 's, 'k) Server \<Rightarrow> go_error + (string \<times> string)" where
  "Client_ContainerLogs tr name sv =
     (case name_query name of
        BadURL \<Rightarrow> Inl ''create request''
      | BadRequestLine \<Rightarrow>
          (case (tr_dial tr, tr_recv tr) of
             (Some e, _) \<Rightarrow> Inl (''daemon request: '' @ e)
           | (None, Some e) \<Rightarrow> Inl (''daemon request: '' @ e)
           | (None, None) \<Rightarrow> Inl ''daemon: status 400'')
      | QueryName n \<Rightarrow> map_sum id (map_prod json_text json_text) (getJSON tr (\<lambda>r. handleContainerLogs r sv) n))"

section \<open>The handler of the event stream\<close>

text \<open>
  What happens while the handler runs: another user of the bus acts, the handler's \<open>select\<close> takes
  the case of its channel, or the case of the request's context, after which it returns.
\<close>

datatype stream_act = Other bus_op | Deliver | Cancelled

text \<open>
  The loop of \<open>handleContainerEvents\<close>: the text it writes, and the bus when it returns or when
  the actions end.  A receive waits while the channel is open and empty; on a closed one the
  handler returns, which runs the deferred \<open>Unsubscribe\<close>.  \<open>None\<close> is a panic.
\<close>

fun serve_events :: "(ContainerEvent \<Rightarrow> string) \<Rightarrow> string \<Rightarrow> nat \<Rightarrow> stream_act list \<Rightarrow> EventBus \<Rightarrow> (string \<times> EventBus) option" where
  "serve_events marshal name ch [] b = Some ([], b)"
| "serve_events marshal name ch (Other op # acts) b = Option.bind (bus_exec op b) (serve_events marshal name ch acts)"
| "serve_events marshal name ch (Deliver # acts) b =
     (case recv_event ch b of
        (Some ev, b') \<Rightarrow> map_option (apfst ((@) (sse_frame marshal ev))) (serve_events marshal name ch acts b')
      | (None, b') \<Rightarrow>
        if ch_closed (eb_chans b ! ch) then map_option (Pair []) (Unsubscribe name ch b)
        else serve_events marshal name ch acts b)"
| "serve_events marshal name ch (Cancelled # acts) b = map_option (Pair []) (Unsubscribe name ch b)"

definition handleContainerEvents ::
  "(ContainerEvent \<Rightarrow> string) \<Rightarrow> bool \<Rightarrow> stream_act list \<Rightarrow> string http_request \<Rightarrow> EventBus \<Rightarrow> (string reply \<times> EventBus) option" where
  "handleContainerEvents marshal flusher acts r b =
     (if hr_Method r \<noteq> ''GET'' then Some (HttpError StatusMethodNotAllowed ''GET required'', b)
      else if \<not> flusher then Some (HttpError StatusInternalServerError ''streaming not supported'', b)
      else let name = (case hr_Body r of Inl e \<Rightarrow> [] | Inr n \<Rightarrow> n)
           in case Subscribe name b of
                (ch, b0) \<Rightarrow> map_option (\<lambda>(out, b'). (OK out, b')) (serve_events marshal name ch acts b0))"

text \<open>
  \<open>Client.ContainerEvents\<close>: for the empty name the URL has no query.  The stream breaks off after \<open>bytes\<close>
  bytes; the events are those that the reader has put into the client's channel by then.
\<close>

definition Client_ContainerEvents ::
  "transport \<Rightarrow> (string \<Rightarrow> ContainerEvent option) \<Rightarrow> nat \<Rightarrow> (string http_request \<Rightarrow> EventBus \<Rightarrow> (string reply \<times> EventBus) option) \<Rightarrow>
     string \<Rightarrow> EventBus \<Rightarrow> ((go_error + ContainerEvent list) \<times> EventBus) option" where
  "Client_ContainerEvents tr unmarshal bytes handler name b =
     (case (if name = [] then QueryName [] else name_query name) of
        BadURL \<Rightarrow> Some (Inl ''create request'', b)
      | q \<Rightarrow>
        (case tr_dial tr of
           Some e \<Rightarrow> Some (Inl (''daemon request: '' @ e), b)
         | None \<Rightarrow>
           (case q of
              QueryName n \<Rightarrow>
                map_option (\<lambda>(rep, b').
                  (case tr_recv tr of
                     Some e \<Rightarrow> (Inl (''daemon request: '' @ e), b')
                   | None \<Rightarrow>
                     (case rep of
                        HttpError st msg \<Rightarrow> (Inl (''daemon: status '' @ itoa_nat st), b')
                      | OK out \<Rightarrow> (Inr (read_events unmarshal (take bytes out)), b'))))
                  (handler \<lparr>hr_Method = ''GET'', hr_Body = Inr n\<rparr> b)
            | _ \<Rightarrow> Some (Inl (case tr_recv tr of Some e \<Rightarrow> ''daemon request: '' @ e | None \<Rightarrow> ''daemon: status 400''), b))))"

section \<open>Names that arrive unchanged\<close>

lemma query_unescape_plain:
  "CHR ''%'' \<notin> set s \<Longrightarrow> CHR ''+'' \<notin> set s \<Longrightarrow> query_unescape s = Some s"
  by (induction s) auto

lemma name_bytes_plain:
  assumes "\<forall>c\<in>set n. name_byte c"
  shows "c \<in> {CHR ''%'', CHR ''+'', CHR '';'', CHR ''='', CHR ''&'', CHR ''#'', CHR '' ''} \<Longrightarrow> c \<notin> set n"
    and "c \<in> set n \<Longrightarrow> \<not> ctl_byte c"
  using assms by (auto simp: name_byte_def byte_in_def ctl_byte_def)

lemma name_query_valid:
  assumes "valid_name n"
  shows "name_query n = QueryName n"
proof -
  note plain = name_bytes_plain [of n]
  have nb: "\<forall>c\<in>set n. name_byte c" using assms by (simp add: valid_name_def)
  have no: "CHR ''%'' \<notin> set n" "CHR ''+'' \<notin> set n" "CHR '';'' \<notin> set n" "CHR ''='' \<notin> set n" "CHR ''&'' \<notin> set n"
    "CHR ''#'' \<notin> set n" "CHR '' '' \<notin> set n"
    using plain(1) [OF nb] by blast+
  have frag: "takeWhile (\<lambda>c. c \<noteq> CHR ''#'') n = n" "dropWhile (\<lambda>c. c \<noteq> CHR ''#'') n = []" using no(6) by auto
  have "query_pair (''name='' @ n) = Some (''name'', n)"
    using no by (simp add: query_pair_def query_unescape_plain)
  moreover have "split_on (CHR ''&'') (''name='' @ n) = [''name='' @ n]"
    using no(5) by (intro split_on_no_sep) simp
  ultimately have "query_get ''name'' (''name='' @ n) = n"
    by (simp only: query_get_def List.map_filter_def) simp
  then show ?thesis using no(7) plain(2) [OF nb] unfolding name_query_def frag Let_def by (simp only: query_unescape.simps) auto
qed

text \<open>Other names arrive as something else, or not at all.\<close>

lemma name_query_mangled:
  "name_query ''a&b'' = QueryName ''a''" "name_query ''a#b'' = QueryName ''a''" "name_query ''a+b'' = QueryName ''a b''"
  "name_query ''a b'' = BadRequestLine" "name_query ''a%zz'' = QueryName []"
  by code_simp+

section \<open>From the bus to the client\<close>

text \<open>The handler's actions as operations of the bus, up to the end of the request.\<close>

fun act_ops :: "nat \<Rightarrow> stream_act list \<Rightarrow> bus_op list" where
  "act_ops ch [] = []"
| "act_ops ch (Other op # acts) = op # act_ops ch acts"
| "act_ops ch (Deliver # acts) = OpReceive ch # act_ops ch acts"
| "act_ops ch (Cancelled # acts) = []"

text \<open>The handler's channel is a local variable: nobody else receives from it or gives it back.\<close>

definition foreign :: "string \<Rightarrow> nat \<Rightarrow> stream_act \<Rightarrow> bool" where
  "foreign name ch a \<longleftrightarrow> a \<noteq> Other (OpReceive ch) \<and> a \<noteq> Other (OpUnsubscribe name ch)"

lemma act_ops_foreign: "list_all (foreign name ch) acts \<Longrightarrow> OpUnsubscribe name ch \<notin> set (act_ops ch acts)"
  by (induction ch acts rule: act_ops.induct) (auto simp: foreign_def)

lemma subscribed_step:
  assumes "subscribed n ch b" and "op \<noteq> OpUnsubscribe n ch"
  obtains b' where "bus_exec op b = Some b'" and "subscribed n ch b'"
proof -
  obtain b' where b': "bus_exec op b = Some b'" "bus_ok b'" using bus_exec_ok assms(1) unfolding subscribed_def by blast
  with subscribed_exec [OF assms b'(1)] that show thesis by (auto simp: subscribed_def)
qed

text \<open>The text the handler writes is that of the events it takes from its channel.\<close>

lemma serve_events_stream:
  assumes "subscribed n ch b" and "list_all (foreign n ch) acts"
  shows "\<exists>evs b1 b'. stream_of ch (act_ops ch acts) b = Some (evs, b1) \<and> subscribed n ch b1 \<and>
    serve_events marshal n ch acts b = Some (event_stream marshal evs, b') \<and>
    (if Cancelled \<in> set acts then Unsubscribe n ch b1 = Some b' else b' = b1)"
  using assms
proof (induction acts arbitrary: b)
  case Nil
  then show ?case by (simp add: event_stream_def)
next
  case (Cons a acts)
  show ?case
  proof (cases a)
    case (Other op)
    then have op: "op \<noteq> OpUnsubscribe n ch" "op \<noteq> OpReceive ch" using Cons.prems(2) by (auto simp: foreign_def)
    obtain b2 where "bus_exec op b = Some b2" "subscribed n ch b2" using subscribed_step [OF Cons.prems(1) op(1)] .
    with Cons.IH [of b2] Cons.prems(2) op(2) Other show ?thesis by (auto simp: taken_def)
  next
    case Cancelled
    then show ?thesis using bus_ok_Unsubscribe [of b n ch] Cons.prems(1) by (auto simp: subscribed_def event_stream_def)
  next
    case Deliver
    obtain b2 where b2: "bus_exec (OpReceive ch) b = Some b2" "subscribed n ch b2"
      by (rule subscribed_step [OF Cons.prems(1), of "OpReceive ch"]) simp_all
    obtain evs b1 b' where IH: "stream_of ch (act_ops ch acts) b2 = Some (evs, b1)" "subscribed n ch b1"
        "serve_events marshal n ch acts b2 = Some (event_stream marshal evs, b')"
        "if Cancelled \<in> set acts then Unsubscribe n ch b1 = Some b' else b' = b1"
      using Cons.IH [OF b2(2)] Cons.prems(2) by auto
    show ?thesis
    proof (cases "fst (recv_event ch b)")
      case None
      then have "recv_event ch b = (None, b)" using recv_event_cases [of ch b] by auto
      moreover from this b2(1) have "b2 = b" by simp
      moreover have "\<not> ch_closed (eb_chans b ! ch)" using Cons.prems(1) by (auto simp: subscribed_def bus_ok_def)
      ultimately show ?thesis using IH Deliver by (simp add: taken_def)
    next
      case (Some ev)
      then have "recv_event ch b = (Some ev, b2)" using b2(1) by (simp add: prod_eq_iff)
      then show ?thesis using IH Deliver by (simp add: taken_def event_stream_def)
    qed
  qed
qed

lemma subseq_in_set: "subseq xs ys \<Longrightarrow> x \<in> set xs \<Longrightarrow> x \<in> set ys"
  by (induction rule: list_emb.induct) auto

lemma Subscribe_subscribed:
  assumes "bus_ok b" and "Subscribe n b = (ch, b0)"
  shows "subscribed n ch b0 \<and> buffer ch b0 = []"
  using assms bus_ok_Subscribe [OF assms(1), of n] by (auto simp: subscribed_def Subscribe_def Let_def)

lemma Unsubscribe_gone:
  assumes "bus_ok b" and "Unsubscribe n ch b = Some b'"
  shows "bus_ok b' \<and> ch \<notin> set (eb_subscribers b' n)"
proof
  show "bus_ok b'" using bus_ok_Unsubscribe [OF assms(1), of n ch] assms(2) by auto
  have "distinct (eb_subscribers b n)" using assms(1) by (simp add: bus_ok_def)
  then show "ch \<notin> set (eb_subscribers b' n)"
    using assms(2) by (auto simp: Unsubscribe_def close_chan_def Let_def split: if_splits)
qed

text \<open>
  C32: a client of the event stream, for a container with a valid name or for all containers,
  gets events that were published for it while it was subscribed, each at most once and in
  the order of their publication, however the handler's deliveries and the other users of
  the bus alternate and wherever the connection breaks.  As long as no more than 16 events
  are published and the connection neither breaks nor ends, the client has every event that
  does not still wait in its channel.  When the request ends the channel is unsubscribed.
\<close>

theorem client_event_stream:
  assumes "bus_ok b" and "Subscribe name b = (ch, b0)" and "name = [] \<or> valid_name name" and "list_all (foreign name ch) acts"
    and "\<forall>ev\<in>set (published name (act_ops ch acts)). event_json_ok marshal unmarshal ev"
  shows "\<exists>evs b'. Client_ContainerEvents \<lparr>tr_dial = None, tr_recv = None\<rparr> unmarshal bytes (handleContainerEvents marshal True acts) name b =
      Some (Inr evs, b') \<and> bus_ok b' \<and>
    subseq evs (map wire_event (published name (act_ops ch acts))) \<and>
    (if Cancelled \<in> set acts then ch \<notin> set (eb_subscribers b' name)
     else length (published name (act_ops ch acts)) \<le> 16 \<longrightarrow>
       length (event_stream marshal (published name (act_ops ch acts))) \<le> bytes \<longrightarrow>
       evs @ map wire_event (buffer ch b') = map wire_event (published name (act_ops ch acts)))"
proof -
  let ?pub = "published name (act_ops ch acts)"
  have sub: "subscribed name ch b0" "buffer ch b0 = []" using Subscribe_subscribed [OF assms(1,2)] by auto
  obtain taken' b1 b' where S: "stream_of ch (act_ops ch acts) b0 = Some (taken', b1)" "subscribed name ch b1"
      "serve_events marshal name ch acts b0 = Some (event_stream marshal taken', b')"
      "if Cancelled \<in> set acts then Unsubscribe name ch b1 = Some b' else b' = b1"
    using serve_events_stream [OF sub(1) assms(4)] by metis
  have P: "subseq (taken' @ buffer ch b1) ?pub" "length ?pub \<le> 16 \<Longrightarrow> taken' @ buffer ch b1 = ?pub"
    using stream_of_published [OF sub(1) act_ops_foreign [OF assms(4)]] S(1) sub(2) by (simp_all add: chan_cap_def)
  have json: "\<forall>ev\<in>set taken'. event_json_ok marshal unmarshal ev"
    using assms(5) subseq_in_set [OF P(1)] by auto
  let ?t = "take bytes (event_stream marshal taken')"
  obtain n where n: "read_events unmarshal ?t = map wire_event (take n taken')"
      "\<forall>k \<le> length taken'. prefix (event_stream marshal (take k taken')) ?t \<longrightarrow> k \<le> n"
    using event_stream_received [OF json take_is_prefix] by blast
  have q: "(if name = [] then QueryName [] else name_query name) = QueryName name"
    using assms(3) by (auto simp: name_query_valid)
  have "Client_ContainerEvents \<lparr>tr_dial = None, tr_recv = None\<rparr> unmarshal bytes (handleContainerEvents marshal True acts) name b =
      Some (Inr (map wire_event (take n taken')), b')"
    unfolding Client_ContainerEvents_def q by (simp add: handleContainerEvents_def assms(2) S(3) n(1))
  moreover have "subseq (map wire_event (take n taken')) (map wire_event ?pub)"
  proof (rule subseq_map)
    have "subseq (take n taken') (taken' @ buffer ch b1)" by (meson prefix_imp_subseq prefix_order.trans prefixI take_is_prefix)
    with P(1) show "subseq (take n taken') ?pub" by (rule subseq_order.order_trans [rotated])
  qed
  moreover have "bus_ok b' \<and> (Cancelled \<in> set acts \<longrightarrow> ch \<notin> set (eb_subscribers b' name))"
    using S(2,4) Unsubscribe_gone [of b1 name ch b'] by (auto simp: subscribed_def split: if_splits)
  moreover have "map wire_event (take n taken') @ map wire_event (buffer ch b') = map wire_event ?pub"
    if "Cancelled \<notin> set acts" "length ?pub \<le> 16" "length (event_stream marshal ?pub) \<le> bytes"
  proof -
    have eq: "taken' @ buffer ch b1 = ?pub" by (rule P(2) [OF that(2)])
    have "length (event_stream marshal taken') \<le> length (event_stream marshal ?pub)"
      unfolding eq [symmetric] by (simp add: event_stream_def)
    then have "?t = event_stream marshal taken'" using that(3) by simp
    then have "take n taken' = taken'" using n(2) by simp
    then show ?thesis using S(4) that(1) eq by (simp flip: map_append)
  qed
  ultimately show ?thesis by (intro exI [of _ "map wire_event (take n taken')"] exI [of _ b']) auto
qed

theorem client_event_stream_witness:
  "\<exists>b'. Client_ContainerEvents \<lparr>tr_dial = None, tr_recv = None\<rparr> (\<lambda>t. Some (demo_event\<lparr>ev_Timestamp := 7\<rparr>)) 100
       (handleContainerEvents (\<lambda>e. ''{}'') True [Other (OpPublish 7 demo_event), Deliver]) ''c'' NewEventBus =
     Some (Inr [demo_event\<lparr>ev_Timestamp := 7\<rparr>], b')"
proof -
  let ?acts = "[Other (OpPublish 7 demo_event), Deliver]" and ?e = "demo_event\<lparr>ev_Timestamp := 7\<rparr>"
  let ?client = "Client_ContainerEvents \<lparr>tr_dial = None, tr_recv = None\<rparr> (\<lambda>t. Some ?e) 100 (handleContainerEvents (\<lambda>e. ''{}'') True ?acts) ''c'' NewEventBus"
  have s: "Subscribe ''c'' NewEventBus = (0, snd (Subscribe ''c'' NewEventBus))" by (simp add: Subscribe_def NewEventBus_def)
  have v: "''c'' = [] \<or> valid_name ''c''" by (simp add: valid_name_def name_byte_def byte_in_def)
  have f: "list_all (foreign ''c'' 0) ?acts" by (simp add: foreign_def)
  have p: "published ''c'' (act_ops 0 ?acts) = [?e]" by (simp add: demo_event_def stamp_event_def)
  have w: "wire_event ?e = ?e" by (simp add: wire_event_def demo_event_def EventStarted_def json_text_ascii)
  have j: "\<forall>ev\<in>set (published ''c'' (act_ops 0 ?acts)). event_json_ok (\<lambda>e. ''{}'') (\<lambda>t. Some ?e) ev"
    unfolding p using w by (simp add: event_json_ok_def newline_def)
  obtain evs b' where c: "?client = Some (Inr evs, b')" and all: "evs @ map wire_event (buffer 0 b') = [?e]"
    using client_event_stream [OF bus_ok_new s v f j, of 100] w unfolding p by (auto simp: event_stream_def sse_frame_def)
  have "\<exists>out b1. serve_events (\<lambda>e. ''{}'') ''c'' 0 ?acts (snd (Subscribe ''c'' NewEventBus)) = Some (out, b1) \<and> buffer 0 b1 = []"
    by (simp add: Subscribe_def NewEventBus_def Publish_def Let_def stamp_event_def demo_event_def send_or_drop_def chan_cap_def recv_event_def)
  then obtain out b1 where o: "serve_events (\<lambda>e. ''{}'') ''c'' 0 ?acts (snd (Subscribe ''c'' NewEventBus)) = Some (out, b1)" "buffer 0 b1 = []"
    by blast
  have q: "(if ''c'' = [] then QueryName [] else name_query ''c'') = QueryName ''c''" using v name_query_valid by simp
  have "handleContainerEvents (\<lambda>e. ''{}'') True ?acts \<lparr>hr_Method = ''GET'', hr_Body = Inr ''c''\<rparr> NewEventBus = Some (OK out, b1)"
    using o(1) by (cases "Subscribe ''c'' NewEventBus") (use s in \<open>simp add: handleContainerEvents_def del: serve_events.simps\<close>)
  then have "b1 = b'" using c unfolding Client_ContainerEvents_def q by simp
  with c all o(2) show ?thesis by auto
qed

section \<open>The facade\<close>

definition Misbah_Logs :: "transport \<Rightarrow> string \<Rightarrow> ('p, 's, 'k) Server \<Rightarrow> go_error + (string \<times> string)" where
  "Misbah_Logs tr name sv = map_sum (\<lambda>e. ''misbah: logs: '' @ e) id (Client_ContainerLogs tr name sv)"

definition Misbah_Events ::
  "transport \<Rightarrow> (string \<Rightarrow> ContainerEvent option) \<Rightarrow> nat \<Rightarrow> (string http_request \<Rightarrow> EventBus \<Rightarrow> (string reply \<times> EventBus) option) \<Rightarrow>
     string \<Rightarrow> EventBus \<Rightarrow> ((go_error + ContainerEvent list) \<times> EventBus) option" where
  "Misbah_Events tr unmarshal bytes handler name b = Client_ContainerEvents tr unmarshal bytes handler name b"

definition Misbah_Available :: "transport \<Rightarrow> bool" where
  "Misbah_Available tr \<longleftrightarrow> tr_dial tr = None"

text \<open>A daemon that is not available answers no call with a result.\<close>

lemma unavailable_fails:
  assumes "\<not> Misbah_Available tr"
  shows "(\<exists>e. Misbah_Logs tr name sv = Inl e) \<and> (\<exists>e. Misbah_Events tr unmarshal bytes handler name b = Some (Inl e, b)) \<and>
    (\<exists>e. Misbah_Create tr env spec sv = Some (Inl e, sv))"
  using assms
  by (auto simp: Misbah_Available_def Misbah_Logs_def Misbah_Events_def Misbah_Create_def Client_ContainerLogs_def Client_ContainerEvents_def
      Client_ContainerStart_def getJSON_def split: url_outcome.splits)

end
