(* ===== verification/Daemon_Routes.thy ===== *)
theory Daemon_Routes
  imports Event_Delivery
begin

text \<open>
  The HTTP interface of the daemon: the messages of \<open>daemon/container.go\<close> and the routes that
  \<open>NewServer\<close> of \<open>daemon/server.go\<close> registers.  A request is its method, its path, the query
  parameter \<open>name\<close> and the text of its body, which a codec decodes (encoding/json).  The answer
  is the value that is encoded, or an error status.
\<close>

section \<open>Messages\<close>

record ContainerStartRequest =
  csr_Spec :: "ContainerSpec option"

record ContainerStartResponse =
  csp_ID :: string
  csp_Status :: string

record ContainerStopRequest =
  cst_Name :: string
  cst_Force :: bool

record ContainerDestroyRequest =
  cdr_Name :: string

record ContainerActionResponse =
  car_Status :: string
  car_Error :: string

record ContainerStatusRequest =
  csq_Name :: string

record ContainerExecRequest =
  cer_Name :: string
  cer_Command :: "string list"
  cer_Timeout :: i64

record ContainerExecResponse =
  cep_ExitCode :: "32 word"
  cep_Stdout :: string
  cep_Stderr :: string

record ContainerListResponse =
  clr_Containers :: "ContainerInfo list"

record ContainerLogsResponse =
  clg_Stdout :: string
  clg_Stderr :: string

record ContainerDiffRequest =
  cdq_Name :: string

record 'c ContainerDiffResponse =
  cdp_Entries :: "'c list"

record ContainerCommitRequest =
  ccr_Name :: string
  ccr_Paths :: "string list"

record message_codec =
  mc_permission :: "string \<Rightarrow> go_error + PermissionRequest"
  mc_start :: "string \<Rightarrow> go_error + ContainerStartRequest"
  mc_stop :: "string \<Rightarrow> go_error + ContainerStopRequest"
  mc_destroy :: "string \<Rightarrow> go_error + ContainerDestroyRequest"
  mc_status :: "string \<Rightarrow> go_error + ContainerStatusRequest"
  mc_exec :: "string \<Rightarrow> go_error + ContainerExecRequest"
  mc_diff :: "string \<Rightarrow> go_error + ContainerDiffRequest"
  mc_commit :: "string \<Rightarrow> go_error + ContainerCommitRequest"

record http_message =
  hm_Method :: string
  hm_Path :: string
  hm_QueryName :: string
  hm_Body :: string

text \<open>A stream of events is answered with the text written so far, none when it has just begun.\<close>

datatype 'c response =
    RPermission PermissionResponse
  | RRules "string \<rightharpoonup> string"
  | RStart ContainerStartResponse
  | RAction ContainerActionResponse
  | RList ContainerListResponse
  | RStatus ContainerInfo
  | RExec ContainerExecResponse
  | RLogs ContainerLogsResponse
  | RDiff "'c ContainerDiffResponse"
  | RStream string

section \<open>Routes\<close>

datatype route =
    PermissionRequestRoute | PermissionCheckRoute | PermissionListRoute
  | StartRoute | StopRoute | DestroyRoute | ListRoute | StatusRoute | ExecRoute
  | WhitelistLoadRoute | EventsRoute | LogsRoute | DiffRoute | CommitRoute

text \<open>The calls of \<open>mux.HandleFunc\<close>, in their order.\<close>

definition routes :: "(string \<times> route) list" where
  "routes =
     [(''/permission/request'', PermissionRequestRoute),
      (''/permission/check'', PermissionCheckRoute),
      (''/permission/list'', PermissionListRoute),
      (''/container/start'', StartRoute),
      (''/container/stop'', StopRoute),
      (''/container/destroy'', DestroyRoute),
      (''/container/list'', ListRoute),
      (''/container/status'', StatusRoute),
      (''/container/exec'', ExecRoute),
      (''/whitelist/load'', WhitelistLoadRoute),
      (''/container/events'', EventsRoute),
      (''/container/logs'', LogsRoute),
      (''/container/diff'', DiffRoute),
      (''/container/commit'', CommitRoute)]"

text \<open>
  \<open>http.ServeMux\<close>: a path that is not clean is redirected (except for CONNECT), and since all
  patterns are full paths, any other path than theirs is not found.
\<close>

definition mux_clean :: "string \<Rightarrow> string" where
  "mux_clean p =
     (if p = [] then ''/''
      else let p1 = (if is_abs p then p else CHR ''/'' # p); np = clean_path p1
           in if last p1 = CHR ''/'' \<and> np \<noteq> ''/'' then np @ ''/'' else np)"

text \<open>What the handlers of the routes need from outside.\<close>

record ('c, 'k) route_env =
  ro_codec :: message_codec
  ro_yaml :: yaml_codec
  ro_mirage :: "'c mirage"
  ro_marshal :: "ContainerEvent \<Rightarrow> string"
  ro_server :: "'k server_env"

definition action_response :: "string \<Rightarrow> 'c response" where
  "action_response status = RAction \<lparr>car_Status = status, car_Error = []\<rparr>"

definition post :: "http_message \<Rightarrow> (string \<Rightarrow> go_error + 'b) \<Rightarrow> 'b http_request" where
  "post m decode = \<lparr>hr_Method = hm_Method m, hr_Body = decode (hm_Body m)\<rparr>"

definition get :: "http_message \<Rightarrow> string http_request" where
  "get m = \<lparr>hr_Method = hm_Method m, hr_Body = Inr (hm_QueryName m)\<rparr>"

abbreviation on_broker :: "('c reply \<times> 'p broker) \<Rightarrow> ('p, 's, 'k) Server \<Rightarrow> 'c reply \<times> ('p, 's, 'k) Server" where
  "on_broker x sv \<equiv> (fst x, sv\<lparr>sv_broker := snd x\<rparr>)"

definition serve_route ::
  "('c, 'k) route_env \<Rightarrow> 'p prompter \<Rightarrow> route \<Rightarrow> http_message \<Rightarrow> ('p, 's, 'k) Server \<Rightarrow>
     ('c response reply \<times> ('p, 's, 'k) Server) option" where
  "serve_route e pr rt m sv =
     (let mc = ro_codec e; env = ro_server e
      in case rt of
        PermissionRequestRoute \<Rightarrow>
          Some (apfst (map_reply RPermission) (on_broker (handleRequest pr (ro_yaml e) (post m (mc_permission mc)) (sv_broker sv)) sv))
      | PermissionCheckRoute \<Rightarrow>
          Some (apfst (map_reply RPermission) (on_broker (handleCheck (post m (mc_permission mc)) (sv_broker sv)) sv))
      | PermissionListRoute \<Rightarrow> Some (map_reply RRules (handleList (get m) (sv_broker sv)), sv)
      | StartRoute \<Rightarrow>
          map_option (apfst (map_reply (\<lambda>(i, st). RStart \<lparr>csp_ID = i, csp_Status = st\<rparr>)))
            (handleContainerStart env (post m (map_sum id csr_Spec \<circ> mc_start mc)) sv)
      | StopRoute \<Rightarrow>
          Some (apfst (map_reply action_response)
            (handleContainerStop env (post m (map_sum id (\<lambda>q. (cst_Name q, cst_Force q)) \<circ> mc_stop mc)) sv))
      | DestroyRoute \<Rightarrow>
          Some (apfst (map_reply action_response) (handleContainerDestroy (post m (map_sum id cdr_Name \<circ> mc_destroy mc)) sv))
      | ListRoute \<Rightarrow> Some (map_reply (\<lambda>cs. RList \<lparr>clr_Containers = cs\<rparr>) (handleContainerList (get m) sv), sv)
      | StatusRoute \<Rightarrow> Some (map_reply RStatus (handleContainerStatus (post m (map_sum id csq_Name \<circ> mc_status mc)) sv), sv)
      | ExecRoute \<Rightarrow>
          Some (apfst (map_reply (\<lambda>(out, err, code). RExec \<lparr>cep_ExitCode = code, cep_Stdout = out, cep_Stderr = err\<rparr>))
            (handleContainerExec (post m (map_sum id (\<lambda>q. (cer_Name q, cer_Command q, cer_Timeout q)) \<circ> mc_exec mc)) sv))
      | WhitelistLoadRoute \<Rightarrow>
          Some (apfst (map_reply action_response)
            (on_broker (handleWhitelistLoad (ro_yaml e) (post m (map_sum id csr_Spec \<circ> mc_start mc)) (sv_broker sv)) sv))
      | EventsRoute \<Rightarrow>
          map_option (\<lambda>(rep, b). (map_reply RStream rep, sv\<lparr>sv_events := b\<rparr>))
            (handleContainerEvents (ro_marshal e) True [] (get m) (sv_events sv))
      | LogsRoute \<Rightarrow>
          Some (map_reply (\<lambda>(out, err). RLogs \<lparr>clg_Stdout = out, clg_Stderr = err\<rparr>) (handleContainerLogs (get m) sv), sv)
      | DiffRoute \<Rightarrow>
          Some (map_reply (\<lambda>es. RDiff \<lparr>cdp_Entries = es\<rparr>)
            (handleContainerDiff (ro_mirage e) (post m (map_sum id cdq_Name \<circ> mc_diff mc)) sv), sv)
      | CommitRoute \<Rightarrow>
          Some (apfst (map_reply action_response)
            (handleContainerCommit (ro_mirage e) (post m (map_sum id (\<lambda>q. (ccr_Name q, ccr_Paths q)) \<circ> mc_commit mc)) sv)))"

definition Server_ServeHTTP ::
  "('c, 'k) route_env \<Rightarrow> 'p prompter \<Rightarrow> http_message \<Rightarrow> ('p, 's, 'k) Server \<Rightarrow>
     ('c response reply \<times> ('p, 's, 'k) Server) option" where
  "Server_ServeHTTP e pr m sv =
     (let path = hm_Path m
      in if hm_Method m \<noteq> ''CONNECT'' \<and> mux_clean path \<noteq> path then Some (HttpError 301 (mux_clean path), sv)
         else case map_of routes path of
           None \<Rightarrow> Some (HttpError StatusNotFound ''404 page not found'', sv)
         | Some rt \<Rightarrow> serve_route e pr rt m sv)"

section \<open>No request makes the daemon panic\<close>

lemma handleContainerEvents_ok:
  assumes "bus_ok b"
  shows "\<exists>rep b'. handleContainerEvents marshal True [] r b = Some (rep, b') \<and> bus_ok b'"
proof (cases "hr_Method r = ''GET''")
  case True
  let ?n = "case hr_Body r of Inl e \<Rightarrow> [] | Inr n \<Rightarrow> n"
  obtain ch b0 where s: "Subscribe ?n b = (ch, b0)" by fastforce
  with bus_ok_Subscribe [OF assms, of ?n] have "bus_ok b0" by simp
  moreover have "handleContainerEvents marshal True [] r b = Some (OK [], b0)"
    unfolding handleContainerEvents_def Let_def s using True by simp
  ultimately show ?thesis by blast
qed (use assms in \<open>simp add: handleContainerEvents_def\<close>)

lemma server_ok_events: "server_ok sv \<Longrightarrow> bus_ok b \<Longrightarrow> server_ok (sv\<lparr>sv_events := b\<rparr>)"
  using flight_ok_cong [of "sv\<lparr>sv_events := b\<rparr>" sv] by (simp add: server_ok_def)

lemma server_ok_broker: "server_ok sv \<Longrightarrow> server_ok (sv\<lparr>sv_broker := b\<rparr>)"
  by (rule server_ok_frame) simp_all

lemma serve_route_ok:
  assumes "server_ok sv"
  shows "\<exists>rep sv'. serve_route e pr rt m sv = Some (rep, sv') \<and> server_ok sv'"
proof (cases rt)
  case StartRoute
  then show ?thesis using handleContainerStart_ok [OF assms] by (fastforce simp: serve_route_def Let_def)
next
  case EventsRoute
  have "bus_ok (sv_events sv)" using assms by (simp add: server_ok_def)
  with EventsRoute handleContainerEvents_ok show ?thesis
    by (fastforce simp: serve_route_def Let_def intro: server_ok_events [OF assms])
qed (use assms other_handlers_ok [OF assms] in
    \<open>auto simp: serve_route_def Let_def server_ok_broker apfst_def map_prod_def split: prod.splits\<close>)

section \<open>Which requests change the rules\<close>

text \<open>The keys that a request puts on the whitelist, and the permission request it carries.\<close>

definition listed_keys :: "('c, 'k) route_env \<Rightarrow> http_message \<Rightarrow> string set" where
  "listed_keys e m =
     (if hm_Method m = ''POST'' \<and> hm_Path m \<in> {''/container/start'', ''/whitelist/load''}
      then (case mc_start (ro_codec e) (hm_Body m) of
              Inr q \<Rightarrow> (case csr_Spec q of Some spec \<Rightarrow> spec_keys spec | None \<Rightarrow> {})
            | Inl _ \<Rightarrow> {})
      else {})"

definition carried_request :: "('c, 'k) route_env \<Rightarrow> http_message \<Rightarrow> PermissionRequest option" where
  "carried_request e m =
     (if hm_Method m = ''POST'' \<and> hm_Path m = ''/permission/request''
      then (case mc_permission (ro_codec e) (hm_Body m) of Inr req \<Rightarrow> Some req | Inl _ \<Rightarrow> None)
      else None)"

abbreviation sv_rules :: "('p, 's, 'k) Server \<Rightarrow> string \<rightharpoonup> Decision" where
  "sv_rules sv \<equiv> bk_rules (sv_broker sv)"

lemma Request_rule_change:
  assumes "bk_rules (snd (DirectChecker_Request pr y req b)) k \<noteq> bk_rules b k"
  shows "k = req_key req \<and> (\<exists>d. bk_rules (snd (DirectChecker_Request pr y req b)) k = Some d \<and> final d \<and>
    (d = DecisionAlways \<longrightarrow> fst (pr req (bk_prompt b)) = (None, DecisionAlways)))"
  using assms by (auto simp: DirectChecker_Request_def ask_user_def wl_Check_def Let_def final_def
      split: option.splits prod.splits if_splits)

lemma set_world_rules [simp]: "sv_rules (set_world w sv) = sv_rules sv"
  by (simp add: set_world_def)

lemma handlers_keep_rules:
  "sv_rules (snd (handleContainerStop env rs sv)) = sv_rules sv"
  "sv_rules (snd (handleContainerDestroy rd sv)) = sv_rules sv"
  "sv_rules (snd (handleContainerExec re sv)) = sv_rules sv"
  "sv_rules (snd (handleContainerCommit mi rc sv)) = sv_rules sv"
  by (auto simp: handleContainerStop_def handleContainerDestroy_def handleContainerExec_def handleContainerCommit_def
      with_lifecycle_def split: if_splits option.splits sum.splits prod.splits)

lemma map_sum_Inr_iff: "map_sum f g x = Inr y \<longleftrightarrow> (\<exists>z. x = Inr z \<and> y = g z)"
  by (cases x) auto

lemma inject_proxy_broker: "inject_proxy env spec sv = (r, sv') \<Longrightarrow> sv_broker sv' = sv_broker sv"
  by (auto simp: inject_proxy_def split: option.splits prod.splits sum.splits)

lemma publish_broker: "publish env ev sv = Some sv' \<Longrightarrow> sv_broker sv' = sv_broker sv"
  by (auto simp: publish_def)

lemma handleContainerStart_rules:
  assumes "handleContainerStart env r sv = Some (rep, sv')" and "sv_rules sv' k \<noteq> sv_rules sv k"
  shows "hr_Method r = ''POST'' \<and> (\<exists>spec. hr_Body r = Inr (Some spec) \<and> k \<in> spec_keys spec \<and> sv_rules sv' k = Some DecisionAlways)"
  using assms by (auto simp: handleContainerStart_def with_lifecycle_def Let_def wl_LoadFromSpec_rules
      dest!: inject_proxy_broker publish_broker split: if_splits option.splits sum.splits prod.splits)

lemma handleWhitelistLoad_rules:
  assumes "bk_rules (snd (handleWhitelistLoad y r b)) k \<noteq> bk_rules b k"
  shows "hr_Method r = ''POST'' \<and> (\<exists>spec. hr_Body r = Inr (Some spec) \<and> k \<in> spec_keys spec \<and>
    bk_rules (snd (handleWhitelistLoad y r b)) k = Some DecisionAlways)"
  using assms by (auto simp: handleWhitelistLoad_def Let_def wl_LoadFromSpec_rules split: if_splits sum.splits option.splits)

lemma handleCheck_broker: "snd (handleCheck r b) = b"
  by (simp add: handleCheck_def split: sum.splits option.splits)

lemma serve_route_rules:
  assumes "serve_route e pr rt m sv = Some (rep, sv')" and "sv_rules sv' k \<noteq> sv_rules sv k"
  shows "rt = PermissionRequestRoute \<or> rt = StartRoute \<or> rt = WhitelistLoadRoute"
proof -
  have "map_option (\<lambda>x. sv_rules (snd x)) (serve_route e pr rt m sv) = map_option (\<lambda>x. sv_rules sv) (serve_route e pr rt m sv)"
    if "rt \<notin> {PermissionRequestRoute, StartRoute, WhitelistLoadRoute}"
    using that by (cases rt) (simp_all add: serve_route_def Let_def handleCheck_broker handlers_keep_rules option.map_comp o_def split_beta)
  then show ?thesis using assms by (cases "rt \<in> {PermissionRequestRoute, StartRoute, WhitelistLoadRoute}") auto
qed

lemma routes_path:
  "map_of routes p = Some PermissionRequestRoute \<longleftrightarrow> p = ''/permission/request''"
  "map_of routes p = Some StartRoute \<longleftrightarrow> p = ''/container/start''"
  "map_of routes p = Some WhitelistLoadRoute \<longleftrightarrow> p = ''/whitelist/load''"
  by (auto simp: routes_def split: if_splits)

lemma rules_changed:
  assumes "Server_ServeHTTP e pr m sv = Some (rep, sv')" and "sv_rules sv' k \<noteq> sv_rules sv k"
  shows "k \<in> listed_keys e m \<and> sv_rules sv' k = Some DecisionAlways \<or>
    (\<exists>req d. carried_request e m = Some req \<and> k = req_key req \<and> sv_rules sv' k = Some d \<and> final d \<and>
      (d = DecisionAlways \<longrightarrow> fst (pr req (bk_prompt (sv_broker sv))) = (None, DecisionAlways)))"
proof -
  obtain rt where rt: "map_of routes (hm_Path m) = Some rt" and s: "serve_route e pr rt m sv = Some (rep, sv')"
    using assms by (auto simp: Server_ServeHTTP_def Let_def split: if_splits option.splits)
  from serve_route_rules [OF s assms(2)] show ?thesis
  proof (elim disjE)
    assume "rt = PermissionRequestRoute"
    moreover from this rt have "hm_Path m = ''/permission/request''" by (simp add: routes_path)
    moreover obtain req where "hm_Method m = ''POST''" "mc_permission (ro_codec e) (hm_Body m) = Inr req"
      using s assms(2) \<open>rt = PermissionRequestRoute\<close>
      by (auto simp: serve_route_def Let_def handleRequest_def post_def split: if_splits sum.splits)
    ultimately show ?thesis
      using s assms(2) Request_rule_change [of pr "ro_yaml e" req "sv_broker sv" k]
      by (auto simp: serve_route_def Let_def post_def handleRequest_direct as_reply_def carried_request_def split: prod.splits sum.splits)
  next
    assume "rt = StartRoute"
    moreover from this rt have "hm_Path m = ''/container/start''" by (simp add: routes_path)
    moreover obtain a where h: "handleContainerStart (ro_server e) (post m (map_sum id csr_Spec \<circ> mc_start (ro_codec e))) sv = Some (a, sv')"
      using s \<open>rt = StartRoute\<close> by (auto simp: serve_route_def Let_def)
    ultimately show ?thesis using handleContainerStart_rules [OF h assms(2)]
      by (auto simp: post_def listed_keys_def map_sum_Inr_iff split: option.splits)
  next
    assume "rt = WhitelistLoadRoute"
    moreover from this rt have "hm_Path m = ''/whitelist/load''" by (simp add: routes_path)
    moreover have "bk_rules (snd (handleWhitelistLoad (ro_yaml e) (post m (map_sum id csr_Spec \<circ> mc_start (ro_codec e))) (sv_broker sv))) k
        = sv_rules sv' k"
      using s \<open>rt = WhitelistLoadRoute\<close> by (auto simp: serve_route_def Let_def)
    ultimately show ?thesis
      using handleWhitelistLoad_rules [of "ro_yaml e" "post m (map_sum id csr_Spec \<circ> mc_start (ro_codec e))" "sv_broker sv" k] assms(2)
      by (auto simp: post_def listed_keys_def map_sum_Inr_iff split: option.splits)
  qed
qed

text \<open>
  C10: of everything that can be sent to the daemon's socket only three requests change the rules:
  starting a container and loading a whitelist set what the specification lists to ALWAYS, and a
  permission request stores a kept decision under its own key, an ALWAYS only when the prompter
  has answered so to this request.
\<close>

theorem rules_change_only_by:
  assumes "Server_ServeHTTP e pr m sv = Some (rep, sv')" and "sv_rules sv' k \<noteq> sv_rules sv k"
  shows "k \<in> listed_keys e m \<and> sv_rules sv' k = Some DecisionAlways \<or>
    (\<exists>req d. carried_request e m = Some req \<and> k = req_key req \<and> sv_rules sv' k = Some d \<and> final d \<and>
      (d = DecisionAlways \<longrightarrow> fst (pr req (bk_prompt (sv_broker sv))) = (None, DecisionAlways)))"
  by (rule rules_changed [OF assms])

text \<open>A codec that knows one specification and one permission request, and a daemon with its routes.\<close>

definition demo_codec_messages :: "ContainerSpec \<Rightarrow> message_codec" where
  "demo_codec_messages spec =
     \<lparr>mc_permission = (\<lambda>t. Inr demo_req), mc_start = (\<lambda>t. Inr \<lparr>csr_Spec = Some spec\<rparr>), mc_stop = (\<lambda>t. Inl ''no''),
      mc_destroy = (\<lambda>t. Inl ''no''), mc_status = (\<lambda>t. Inl ''no''), mc_exec = (\<lambda>t. Inl ''no''), mc_diff = (\<lambda>t. Inl ''no''),
      mc_commit = (\<lambda>t. Inl ''no'')\<rparr>"

definition demo_route_env :: "ContainerSpec \<Rightarrow> 'k server_env \<Rightarrow> (unit, 'k) route_env" where
  "demo_route_env spec env =
     \<lparr>ro_codec = demo_codec_messages spec, ro_yaml = one_rule_codec,
      ro_mirage = \<lparr>mi_DiffDirs = (\<lambda>l u h. Inr []), mi_CommitFiles = (\<lambda>l u ps h. (None, h))\<rparr>, ro_marshal = (\<lambda>e. ''{}''), ro_server = env\<rparr>"

definition message :: "string \<Rightarrow> http_message" where
  "message path = \<lparr>hm_Method = ''POST'', hm_Path = path, hm_QueryName = [], hm_Body = ''{}''\<rparr>"

lemma demo_path_clean: "mux_clean ''/permission/request'' = ''/permission/request''" "mux_clean ''/whitelist/load'' = ''/whitelist/load''"
  by code_simp+

theorem rules_change_only_by_witness:
  "\<exists>rep sv'. Server_ServeHTTP (demo_route_env demo_spec daemon_env) (\<lambda>r s. ((None, DecisionAlways), s)) (message ''/permission/request'')
     (demo_server demo_lifecycle ()) = Some (rep, sv') \<and> sv_rules sv' (req_key demo_req) = Some DecisionAlways \<and>
   carried_request (demo_route_env demo_spec daemon_env) (message ''/permission/request'') = Some demo_req"
proof -
  let ?pr = "\<lambda>r s. ((None, DecisionAlways), s :: unit)" and ?sv = "demo_server demo_lifecycle ()"
    and ?m = "message ''/permission/request''" and ?e = "demo_route_env demo_spec daemon_env"
  obtain rep sv' where s: "Server_ServeHTTP ?e ?pr ?m ?sv = Some (rep, sv')"
    and a: "sv_rules sv' (req_key demo_req) = Some DecisionAlways"
    by (auto simp: Server_ServeHTTP_def Let_def message_def demo_path_clean routes_def serve_route_def demo_route_env_def demo_codec_messages_def
        post_def handleRequest_direct as_reply_def DirectChecker_Request_def demo_server_def NewServer_def demo_broker_def wl_Check_def
        NewWhitelistStore_def ask_user_def)
  have "sv_rules ?sv (req_key demo_req) = None"
    by (simp add: demo_server_def NewServer_def demo_broker_def NewWhitelistStore_def)
  with a have "sv_rules sv' (req_key demo_req) \<noteq> sv_rules ?sv (req_key demo_req)" by simp
  from rules_change_only_by [OF s this] have "carried_request ?e ?m = Some demo_req"
    by (auto simp: listed_keys_def message_def carried_request_def demo_route_env_def demo_codec_messages_def)
  with s a show ?thesis by blast
qed

end
