(* ===== verification/Vsock_Transport.thy ===== *)
theory Vsock_Transport
  imports Proxy_Manager
begin

text \<open>
  The two ends of the vsock transport for virtual machines: the forwarder of \<open>proxy/vsock.go\<close>,
  which runs inside the machine, and the listener of \<open>daemon/vsock_listener.go\<close> on the host.
  A listener is the sequence of the answers of \<open>Accept\<close>; a connection is the bytes that each side
  sends until it closes.
\<close>

section \<open>Dialling and accepting\<close>

text \<open>
  \<open>net.Dial\<close> knows these networks, and \<open>ip\<close>, \<open>ip4\<close>, \<open>ip6\<close> with a protocol after a colon; for any
  other name it returns \<open>UnknownNetworkError\<close>.
\<close>

definition go_networks :: "string list" where
  "go_networks = [''tcp'', ''tcp4'', ''tcp6'', ''udp'', ''udp4'', ''udp6'', ''unix'', ''unixgram'', ''unixpacket'']"

definition known_network :: "string \<Rightarrow> bool" where
  "known_network n \<longleftrightarrow> n \<in> set go_networks \<or> has_prefix n ''ip:'' \<or> has_prefix n ''ip4:'' \<or> has_prefix n ''ip6:''"

definition net_Dial :: "(string \<Rightarrow> string \<Rightarrow> go_error option) \<Rightarrow> string \<Rightarrow> string \<Rightarrow> go_error option" where
  "net_Dial dial n a = (if known_network n then dial n a else Some (''dial '' @ n @ '': unknown network '' @ n))"

text \<open>An answer of \<open>Accept\<close>: a connection, or an error with whether the channel \<open>done\<close> is closed then.\<close>

datatype 'c accepted = AConn 'c | AFail go_error bool

text \<open>The connections that are handled, and the result once the loop has ended (\<open>None\<close> while it blocks).\<close>

fun accept_loop :: "string \<Rightarrow> 'c accepted list \<Rightarrow> 'c list \<times> go_error option option" where
  "accept_loop what [] = ([], None)"
| "accept_loop what (AConn c # as) = (case accept_loop what as of (cs, r) \<Rightarrow> (c # cs, r))"
| "accept_loop what (AFail e stopped # as) = ([], Some (if stopped then None else Some (what @ '': '' @ e)))"

section \<open>The forwarder inside the virtual machine\<close>

record VsockForwarder =
  fw_listenAddr :: string
  fw_upstreamNet :: string
  fw_upstreamAddr :: string
  fw_listening :: bool
  fw_done :: bool

definition NewVsockForwarder :: "string \<Rightarrow> string \<Rightarrow> string \<Rightarrow> VsockForwarder" where
  "NewVsockForwarder listenAddr upstreamNet upstreamAddr =
     \<lparr>fw_listenAddr = listenAddr, fw_upstreamNet = upstreamNet, fw_upstreamAddr = upstreamAddr, fw_listening = False, fw_done = False\<rparr>"

definition Forwarder_StartOnListener ::
  "'c accepted list \<Rightarrow> VsockForwarder \<Rightarrow> ('c list \<times> go_error option option) \<times> VsockForwarder" where
  "Forwarder_StartOnListener accepts f = (accept_loop ''accept error'' accepts, f\<lparr>fw_listening := True\<rparr>)"

definition Forwarder_Start ::
  "go_error option \<Rightarrow> 'c accepted list \<Rightarrow> VsockForwarder \<Rightarrow> ('c list \<times> go_error option option) \<times> VsockForwarder" where
  "Forwarder_Start listen accepts f =
     (case listen of
        Some e \<Rightarrow> (([], Some (Some (''failed to listen on '' @ fw_listenAddr f @ '': '' @ e))), f)
      | None \<Rightarrow> (accept_loop ''accept error'' accepts, f\<lparr>fw_listening := True\<rparr>))"

text \<open>
  \<open>main\<close> of \<open>cmd/misbah-vsock-fwd\<close>, with its flags: the connections it handles and its exit status, if it
  ends.
\<close>

record fwd_flags =
  ff_listen :: string
  ff_net :: string
  ff_upstream :: string

definition default_fwd_flags :: fwd_flags where
  "default_fwd_flags = \<lparr>ff_listen = ''127.0.0.1:'' @ itoa_nat DefaultProxyPort, ff_net = ''vsock'', ff_upstream = []\<rparr>"

definition forwarder_main :: "fwd_flags \<Rightarrow> go_error option \<Rightarrow> 'c accepted list \<Rightarrow> 'c list \<times> int option" where
  "forwarder_main fl listen accepts =
     (if ff_upstream fl = [] then ([], Some 1)
      else case fst (Forwarder_Start listen accepts (NewVsockForwarder (ff_listen fl) (ff_net fl) (ff_upstream fl))) of
        (cs, r) \<Rightarrow> (cs, map_option (\<lambda>e. if e = None then 0 else 1) r))"

text \<open>Closing the channel \<open>done\<close> a second time panics.\<close>

definition Forwarder_Stop :: "VsockForwarder \<Rightarrow> VsockForwarder option" where
  "Forwarder_Stop f = (if fw_done f then None else Some (f\<lparr>fw_done := True, fw_listening := False\<rparr>))"

text \<open>
  What a handled connection leads to: the connection to the upstream, with the bytes that go up
  and the bytes that come down.
\<close>

definition Forwarder_handleConn ::
  "(string \<Rightarrow> string \<Rightarrow> go_error option) \<Rightarrow> VsockForwarder \<Rightarrow> string \<times> string \<Rightarrow> ((string \<times> string) \<times> string \<times> string) option" where
  "Forwarder_handleConn dial f = (\<lambda>(from_client, from_upstream).
     (case net_Dial dial (fw_upstreamNet f) (fw_upstreamAddr f) of
        Some e \<Rightarrow> None
      | None \<Rightarrow> Some ((fw_upstreamNet f, fw_upstreamAddr f), from_client, from_upstream)))"

section \<open>The listener on the host\<close>

record VsockListener =
  vl_listening :: bool
  vl_done :: bool

definition NewVsockListener :: VsockListener where
  "NewVsockListener = \<lparr>vl_listening = False, vl_done = False\<rparr>"

definition VsockListener_Start ::
  "'c accepted list \<Rightarrow> VsockListener \<Rightarrow> ('c list \<times> go_error option option) \<times> VsockListener" where
  "VsockListener_Start accepts vl = (accept_loop ''vsock accept error'' accepts, vl\<lparr>vl_listening := True\<rparr>)"

definition VsockListener_Stop :: "VsockListener \<Rightarrow> VsockListener option" where
  "VsockListener_Stop vl = (if vl_done vl then None else Some (vl\<lparr>vl_done := True, vl_listening := False\<rparr>))"

text \<open>
  The proxy is the first that the iteration over the map yields: any registered one.  The
  connection goes to its address, if it has one and the dial succeeds.
\<close>

definition VsockListener_handleConn ::
  "string option \<Rightarrow> (string \<Rightarrow> string \<Rightarrow> go_error option) \<Rightarrow> string \<times> string \<Rightarrow> ((string \<times> string) \<times> string \<times> string) option" where
  "VsockListener_handleConn first dial = (\<lambda>(from_client, from_upstream).
     (case first of
        None \<Rightarrow> None
      | Some proxyAddr \<Rightarrow>
        if proxyAddr = [] then None
        else case net_Dial dial ''tcp'' proxyAddr of
               Some e \<Rightarrow> None
             | None \<Rightarrow> Some ((''tcp'', proxyAddr), from_client, from_upstream)))"

section \<open>Properties\<close>

text \<open>The connections accepted before the first error are handled, and only those.\<close>

lemma accept_loop_conns: "fst (accept_loop what as) = List.map_filter (\<lambda>a. case a of AConn c \<Rightarrow> Some c | _ \<Rightarrow> None) (takeWhile (\<lambda>a. \<exists>c. a = AConn c) as)"
  by (induction what as rule: accept_loop.induct) (auto simp: List.map_filter_simps split: prod.splits)

lemma accept_loop_result:
  "snd (accept_loop what as) = (case dropWhile (\<lambda>a. \<exists>c. a = AConn c) as of
     AFail e stopped # _ \<Rightarrow> Some (if stopped then None else Some (what @ '': '' @ e)) | _ \<Rightarrow> None)"
  by (induction what as rule: accept_loop.induct) (auto split: prod.splits)

text \<open>
  The forwarder in its default configuration forwards nothing: \<open>net.Dial\<close> does not know the network
  "vsock", so every connection is closed without an upstream, whatever the environment;
  over a Unix socket the bytes pass unchanged in both directions.
\<close>

theorem vsock_forwarder_dials_nothing:
  "Forwarder_handleConn dial (NewVsockForwarder listenAddr ''vsock'' addr) io = None \<and>
   Forwarder_handleConn (\<lambda>n a. None) (NewVsockForwarder listenAddr ''unix'' addr) io = Some ((''unix'', addr), io)"
  by (cases io) (simp add: Forwarder_handleConn_def NewVsockForwarder_def net_Dial_def known_network_def go_networks_def has_prefix_def)

text \<open>
  What arrives from a virtual machine goes, unchanged, to a proxy that serves a registered
  container; with two containers it may be the proxy of either.
\<close>

theorem vsock_conn_to_registered:
  assumes "vsock_may_route pm first" and "VsockListener_handleConn first dial io = Some (dst, sent)"
  shows "sent = io \<and> (\<exists>c mp. pm_proxies pm c = Some mp \<and> dst = (''tcp'', mp_addr mp)) \<and>
    (\<forall>c mp. pm_proxies pm c = Some mp \<longrightarrow> vsock_may_route pm (Some (mp_addr mp)))"
  using assms by (auto simp: VsockListener_handleConn_def vsock_may_route_def split: option.splits prod.splits if_splits)

end
