(* ===== verification/Daemon_Main.thy ===== *)
theory Daemon_Main
  imports Daemon_Server Config Vsock_Transport
begin

text \<open>
  How the daemon is put together: \<open>runDaemonStart\<close> of \<open>cli/daemon.go\<close>, the opening of its socket
  (\<open>Server.Start\<close>), and the clean-up on signals of \<open>runtime/cleanup.go\<close>.
\<close>

section \<open>The socket\<close>

datatype server_error = SrvMkdir os_error | SrvRemove os_error | SrvListen go_error | SrvServe go_error

text \<open>
  The surroundings of the socket: \<open>net.Listen\<close>, the group's number if there is such a group, whether
  chown and chmod work, and how serving ends (\<open>None\<close> for \<open>ErrServerClosed\<close> or no error).
\<close>

record socket_env =
  so_listen :: "go_error option"
  so_group :: "string \<Rightarrow> int option"
  so_chown :: "go_error option"
  so_chmod :: "go_error option"
  so_serve :: "go_error option"

text \<open>The owner, group and mode that are set, in the order of the calls: mode 0660 is 432.\<close>

datatype socket_op = Chown string int int | Chmod string nat

definition setSocketGroupPermissions :: "socket_env \<Rightarrow> string \<Rightarrow> string \<Rightarrow> bool \<times> socket_op list" where
  "setSocketGroupPermissions so path groupName =
     (case so_group so groupName of
        None \<Rightarrow> (False, [])
      | Some gid \<Rightarrow>
        if so_chown so \<noteq> None then (False, [])
        else if so_chmod so \<noteq> None then (False, [Chown path 0 gid])
        else (True, [Chown path 0 gid, Chmod path 432]))"

definition Server_Start :: "socket_env \<Rightarrow> string \<Rightarrow> host \<Rightarrow> (server_error option \<times> socket_op list) \<times> host" where
  "Server_Start so socketPath h =
     (case os_mkdir_all (dir_path socketPath) h of
        (Some e, h1) \<Rightarrow> ((Some (SrvMkdir e), []), h1)
      | (None, h1) \<Rightarrow>
        (case os_remove socketPath h1 of
           (r, h2) \<Rightarrow>
             if (case r of Some e \<Rightarrow> \<not> is_not_exist e | None \<Rightarrow> False) then ((Some (SrvRemove (the r)), []), h2)
             else case so_listen so of
               Some e \<Rightarrow> ((Some (SrvListen e), []), h2)
             | None \<Rightarrow>
               ((map_option SrvServe (so_serve so), snd (setSocketGroupPermissions so socketPath ''misbah'')),
                h2\<lparr>h_fs := (h_fs h2)(socketPath \<mapsto> RegFile [])\<rparr>)))"

section \<open>Clean-up on signals\<close>

record 'w CleanupHandler =
  cu_cleanups :: "('w \<Rightarrow> go_error option \<times> 'w) list"

definition NewCleanupHandler :: "'w CleanupHandler" where
  "NewCleanupHandler = \<lparr>cu_cleanups = []\<rparr>"

definition RegisterCleanup :: "('w \<Rightarrow> go_error option \<times> 'w) \<Rightarrow> 'w CleanupHandler \<Rightarrow> 'w CleanupHandler" where
  "RegisterCleanup f ch = ch\<lparr>cu_cleanups := cu_cleanups ch @ [f]\<rparr>"

definition RunCleanup :: "'w CleanupHandler \<Rightarrow> 'w \<Rightarrow> 'w" where
  "RunCleanup ch w = foldl (\<lambda>w f. snd (f w)) w (cu_cleanups ch)"

text \<open>
  \<open>SetupSignalHandlers\<close> on the signals that arrive: its goroutine takes the first of those it
  subscribed to, runs the cleanups and hands the signal on; later ones are never read.
\<close>

datatype os_signal = Interrupt | SIGTERM | OtherSignal nat

definition SetupSignalHandlers :: "'w CleanupHandler \<Rightarrow> os_signal list \<Rightarrow> 'w \<Rightarrow> os_signal option \<times> 'w" where
  "SetupSignalHandlers ch sigs w =
     (case filter (\<lambda>s. s = Interrupt \<or> s = SIGTERM) sigs of
        [] \<Rightarrow> (None, w)
      | s # _ \<Rightarrow> (Some s, RunCleanup ch w))"

section \<open>Building the daemon\<close>

text \<open>\<open>cri.NewBackend\<close>: the outcome of \<open>cri.NewClient\<close> for an endpoint is an argument.\<close>

definition NewBackend :: "(string \<Rightarrow> go_error + 'r cri_client) \<Rightarrow> KataSection \<Rightarrow> go_error + ('r Backend \<times> cri_config)" where
  "NewBackend client k =
     (case client (kt_Endpoint k) of
        Inl e \<Rightarrow> Inl e
      | Inr c \<Rightarrow> Inr (\<lparr>bd_client = c, bd_sandboxes = Map.empty, bd_containers = Map.empty\<rparr>,
                     \<lparr>cf_runtimeHandler = kt_Handler k, cf_annotations = kt_Annotations k\<rparr>))"

text \<open>
  The surroundings: the codecs of the files, git, the CRI runtime behind a client, the network's
  state, the terminal, and a backend value for a daemon that has none (it is never used).
\<close>

record ('r, 'k) boot_env =
  bo_daemonYaml :: "string \<Rightarrow> DaemonConfig \<Rightarrow> go_error + DaemonConfig"
  bo_whitelistYaml :: yaml_codec
  bo_locks :: lock_codec
  bo_git :: git_env
  bo_client :: "string \<Rightarrow> go_error + 'r cri_client"
  bo_runtime :: "'r cri_runtime"
  bo_noBackend :: "'r Backend"
  bo_net :: "'k net_state"
  bo_stdin :: reader

definition daemon_prompter :: "DaemonConfig \<Rightarrow> reader prompter" where
  "daemon_prompter cfg = (if dm_NonInteractive (dc_Daemon cfg) then AutoDenyPrompter_Prompt else TerminalPrompter_Prompt)"

definition daemon_lifecycle ::
  "('r, 'k) boot_env \<Rightarrow> DaemonConfig \<Rightarrow> host \<Rightarrow> 'r Backend Lifecycle option \<times> 'r Backend" where
  "daemon_lifecycle env cfg h =
     (case NewBackend (bo_client env) (dc_Kata cfg) of
        Inl e \<Rightarrow> (None, bo_noBackend env)
      | Inr (b, cf) \<Rightarrow>
        (Some \<lparr>lc_lockManager = NewLockManager h, lc_codec = bo_locks env, lc_git = bo_git env, lc_tempDir = GetTempDir h,
               lc_backend = CRIBackend (bo_runtime env) cf\<rparr>, b))"

datatype boot_error = BootConfig config_error | BootAudit audit_error

text \<open>
  \<open>runDaemonStart\<close> up to the point where the server listens.  An unreadable whitelist is only
  logged.  The server, and the prompter it was given.
\<close>

definition boot_daemon ::
  "('r, 'k) boot_env \<Rightarrow> string \<Rightarrow> host \<Rightarrow> (boot_error + (reader, 'r Backend, 'k) Server \<times> reader prompter) \<times> host" where
  "boot_daemon env configPath h =
     (case LoadDaemonConfig (bo_daemonYaml env) configPath h of
        Inl e \<Rightarrow> (Inl (BootConfig e), h)
      | Inr cfg \<Rightarrow>
        let whitelist = snd (wl_Load (bo_whitelistYaml env) (NewWhitelistStore (ps_Whitelist (dc_Permissions cfg))) h)
        in case NewAuditLogger (ps_AuditLog (dc_Permissions cfg)) h of
             (Inl e, h1) \<Rightarrow> (Inl (BootAudit e), h1)
           | (Inr audit, h1) \<Rightarrow>
             let b = \<lparr>bk_whitelist = whitelist, bk_prompt = bo_stdin env, bk_audit = Some audit, bk_host = h1\<rparr>;
                 proxyMgr = NewProxyManager (Some (NewNetworkIsolator (dc_Network cfg), bo_net env));
                 vsock = (if 0 < vs_Port (dc_Vsock cfg)
                          then Some \<lparr>vc_Port = vs_Port (dc_Vsock cfg), vc_BinDir = vs_BinDir (dc_Vsock cfg)\<rparr> else None)
             in case daemon_lifecycle env cfg h1 of
                  (lc, be) \<Rightarrow>
                    (Inr (NewServer b lc be (Some proxyMgr) vsock (dm_Socket (dc_Daemon cfg)), daemon_prompter cfg), h1))"

definition runDaemonStart ::
  "('r, 'k) boot_env \<Rightarrow> socket_env \<Rightarrow> string \<Rightarrow> host \<Rightarrow> (boot_error + server_error option) \<times> host" where
  "runDaemonStart env so configPath h =
     (case boot_daemon env configPath h of
        (Inl e, h1) \<Rightarrow> (Inl e, h1)
      | (Inr (sv, pr), h1) \<Rightarrow> (case Server_Start so (sv_addr sv) h1 of ((r, ops), h2) \<Rightarrow> (Inr r, h2)))"

section \<open>A daemon that has been started\<close>

definition isolating :: "('p, 's, 'k) Server \<Rightarrow> bool" where
  "isolating sv \<longleftrightarrow> (\<exists>pm. sv_proxyMgr sv = Some pm \<and> pm_isolator pm \<noteq> None)"

lemma Start_keeps_isolator:
  "ProxyManager_Start nk v6 l c pm = (r, pm') \<Longrightarrow> pm_isolator pm \<noteq> None \<Longrightarrow> pm_isolator pm' \<noteq> None"
  by (auto simp: ProxyManager_Start_def Let_def shutdown_def split: if_splits sum.splits prod.splits option.splits)

lemma Stop_keeps_isolator: "pm_isolator pm = Some (ni, n) \<Longrightarrow> \<exists>ni' n'. pm_isolator (snd (ProxyManager_Stop nk c pm)) = Some (ni', n')"
  by (auto simp: ProxyManager_Stop_def shutdown_def split: option.splits)

lemma publish_manager: "publish env ev sv = Some sv' \<Longrightarrow> sv_proxyMgr sv' = sv_proxyMgr sv"
  by (auto simp: publish_def)

lemma inject_keeps_isolating: "inject_proxy env spec sv = (r, sv') \<Longrightarrow> isolating sv \<Longrightarrow> isolating sv'"
  by (auto simp: inject_proxy_def isolating_def split: option.splits prod.splits sum.splits dest: Start_keeps_isolator)

lemma start_keeps_isolating:
  "handleContainerStart env r sv = Some (rep, sv') \<Longrightarrow> isolating sv \<Longrightarrow> isolating sv'"
  by (auto simp: handleContainerStart_def with_lifecycle_def Let_def isolating_def dest!: publish_manager inject_keeps_isolating
      split: if_splits option.splits sum.splits prod.splits)

lemma task_keeps_isolating: "run_task env i sv = Some sv' \<Longrightarrow> isolating sv \<Longrightarrow> isolating sv'"
  by (auto simp: run_task_def isolating_def intro: Stop_keeps_isolator dest!: publish_manager
      split: task.splits option.splits prod.splits lifecycle_error.splits)

lemma step_keeps_isolating: "daemon_step nk sv sv' \<Longrightarrow> isolating sv \<Longrightarrow> isolating sv'"
proof (induction rule: daemon_step.induct)
  case (step_start env r sv rep sv')
  then show ?case using start_keeps_isolating by blast
next
  case (step_task env i sv sv')
  then show ?case using task_keeps_isolating by blast
qed (auto simp: isolating_def handleContainerStop_def handleContainerDestroy_def handleContainerExec_def handleContainerCommit_def
    with_lifecycle_def split: if_splits option.splits sum.splits prod.splits)

text \<open>What a successful boot hands to the server.\<close>

lemma boot_daemonD:
  assumes "boot_daemon env path h = (Inr (sv, pr), h1)"
  obtains cfg b lc be vc where "LoadDaemonConfig (bo_daemonYaml env) path h = Inr cfg" and "pr = daemon_prompter cfg"
    and "sv = NewServer b lc be (Some (NewProxyManager (Some (NewNetworkIsolator (dc_Network cfg), bo_net env)))) vc (dm_Socket (dc_Daemon cfg))"
    and "bk_whitelist b = snd (wl_Load (bo_whitelistYaml env) (NewWhitelistStore (ps_Whitelist (dc_Permissions cfg))) h)"
  using assms by (auto simp: boot_daemon_def Let_def split: sum.splits prod.splits)

lemma boot_manager_ok: "pm_ok (NewProxyManager (Some (NewNetworkIsolator cfg, n)))"
  by (rule pm_ok_new) (simp add: NewNetworkIsolator_def)

lemma booted_ok:
  assumes "boot_daemon env path h = (Inr (sv, pr), h1)"
  shows "server_ok sv \<and> isolating sv"
proof (rule boot_daemonD [OF assms])
  fix cfg b lc be vc
  assume sv: "sv = NewServer b lc be
      (Some (NewProxyManager (Some (NewNetworkIsolator (dc_Network cfg), bo_net env)))) vc (dm_Socket (dc_Daemon cfg))"
  have "server_ok sv" unfolding sv
    by (rule NewServer_ok) (use boot_manager_ok in \<open>auto simp: NewProxyManager_def\<close>)
  then show ?thesis by (simp add: sv isolating_def NewServer_def NewProxyManager_def)
qed

lemma isolated_state:
  assumes "server_ok sv" and "isolating sv"
  shows "\<exists>pm ni n. sv_proxyMgr sv = Some pm \<and> pm_isolator pm = Some (ni, n) \<and>
    dom (ni_netns ni) = task_name ` set (sv_tasks sv) \<and> dom (pm_proxies pm) = task_name ` set (sv_tasks sv) \<and>
    (\<forall>spec. TLaunch spec \<in> set (sv_tasks sv) \<longrightarrow> (\<exists>a. pm_addrs pm (spec_name spec) = Some a \<and> knows_proxy sv a spec))"
proof -
  obtain pm ni n where pm: "sv_proxyMgr sv = Some pm" "pm_isolator pm = Some (ni, n)" using assms(2) by (auto simp: isolating_def)
  then have f: "flight_ok sv pm" using assms(1) by (simp add: server_ok_def)
  have "dom (ni_netns ni) = dom (pm_proxies pm)" using f pm(2) by (simp add: flight_ok_def pm_ok_def)
  moreover have "dom (pm_proxies pm) = task_name ` set (sv_tasks sv)" using f by (simp add: flight_ok_def pm_addrs_dom)
  ultimately show ?thesis using pm f by (simp add: flight_ok_def)
qed

lemma started_daemon_state:
  assumes "boot_daemon env path h = (Inr (sv0, pr), h1)" and "(daemon_step nk)\<^sup>*\<^sup>* sv0 sv"
  shows "\<exists>pm ni n. sv_proxyMgr sv = Some pm \<and> pm_isolator pm = Some (ni, n) \<and>
    dom (ni_netns ni) = task_name ` set (sv_tasks sv) \<and> dom (pm_proxies pm) = task_name ` set (sv_tasks sv) \<and>
    (\<forall>spec. TLaunch spec \<in> set (sv_tasks sv) \<longrightarrow> (\<exists>a. pm_addrs pm (spec_name spec) = Some a \<and> knows_proxy sv a spec))"
proof (rule isolated_state)
  have "server_ok sv \<and> isolating sv" using assms(2) booted_ok [OF assms(1)]
    by (induction rule: rtranclp_induct) (auto intro: daemon_step_ok step_keeps_isolating)
  then show "server_ok sv" "isolating sv" by simp_all
qed

text \<open>Two cleanups registered one after the other run in that order, the second one after an error of the first as well.\<close>

lemma RunCleanup_registered: "RunCleanup (RegisterCleanup f ch) w = snd (f (RunCleanup ch w))"
  by (simp add: RunCleanup_def RegisterCleanup_def)

text \<open>However many signals arrive, the cleanups run once.\<close>

lemma signals_clean_once:
  "SetupSignalHandlers ch (xs @ ys) w = (case SetupSignalHandlers ch xs w of (None, _) \<Rightarrow> SetupSignalHandlers ch ys w | r \<Rightarrow> r)"
  by (simp add: SetupSignalHandlers_def split: list.splits)

definition demo_net :: "string set net_state" where
  "demo_net = \<lparr>nw_log = [], nw_kernel = {}\<rparr>"

lemma demo_net_empty [simp]: "nw_kernel demo_net = {}"
  by (simp add: demo_net_def)

definition demo_boot :: "(unit, string set) boot_env" where
  "demo_boot =
     \<lparr>bo_daemonYaml = (\<lambda>d c. Inl ''malformed''), bo_whitelistYaml = one_rule_codec, bo_locks = pid_codec, bo_git = demo_git,
      bo_client = (\<lambda>e. Inr \<lparr>cl_log = [], cl_state = ()\<rparr>), bo_runtime = failing_runtime (\<lambda>_. False), bo_noBackend = fresh_backend,
      bo_net = demo_net, bo_stdin = typed_input []\<rparr>"

lemma demo_boot_net [simp]: "bo_net demo_boot = demo_net"
  by (simp add: demo_boot_def)

lemma demo_boots: "\<exists>sv pr h1. boot_daemon demo_boot [] demo_host = (Inr (sv, pr), h1)"
proof -
  have c: "LoadDaemonConfig (bo_daemonYaml demo_boot) [] demo_host = Inr (applyDaemonEnvOverrides demo_host (DefaultDaemonConfig demo_host))"
    by (simp add: LoadDaemonConfig_def os_read_file_def is_not_exist_def)
  have a: "ps_AuditLog (dc_Permissions (applyDaemonEnvOverrides demo_host (DefaultDaemonConfig demo_host))) = GetAuditLogPath demo_host"
    by (simp add: applyDaemonEnvOverrides_def DefaultDaemonConfig_def)
  have d: "dir_path (GetAuditLogPath demo_host) \<noteq> GetAuditLogPath demo_host" by code_simp
  then have "\<exists>al h1. NewAuditLogger (GetAuditLogPath demo_host) demo_host = (Inr al, h1)"
    by (auto simp: NewAuditLogger_def os_mkdir_all_def os_open_append_def)
  then show ?thesis by (auto simp: boot_daemon_def c a Let_def split: prod.splits)
qed

text \<open>A start on a daemon with the default network, on a network that does what it is told.\<close>

lemma default_network_start:
  assumes sv0: "sv0 = NewServer b (Some lc) be (Some (NewProxyManager (Some (NewNetworkIsolator default_network, demo_net)))) vc a"
    and ws: "spec_name ws = ''ws''" "spec_Runtime ws \<noteq> RuntimeKata"
  shows "\<exists>sv spec rep. handleContainerStart daemon_env \<lparr>hr_Method = ''POST'', hr_Body = Inr (Some ws)\<rparr> sv0 = Some (rep, sv) \<and>
    sv_tasks sv = [TLaunch spec] \<and> spec_name spec = ''ws''"
proof -
  have hp: "split_host_port ''127.0.0.1:40000'' = Inr (''127.0.0.1'', ''40000'')" by code_simp
  obtain v n' where "Isolator_Setup calm_kernel (\<lambda>_. None) ''ws'' ''127.0.0.1:40000'' (NewNetworkIsolator default_network) demo_net
      = (Inr (ns_name ''ws''), \<lparr>ni_cfg = default_network, ni_nextIP = 2, ni_netns = [''ws'' \<mapsto> v]\<rparr>, n')"
    using calm_first_setup [OF hp, of "''ws''" demo_net] by auto
  moreover have "server_ok sv0" unfolding sv0
    by (rule NewServer_ok) (use boot_manager_ok in \<open>auto simp: NewProxyManager_def\<close>)
  then obtain rep sv where "handleContainerStart daemon_env \<lparr>hr_Method = ''POST'', hr_Body = Inr (Some ws)\<rparr> sv0 = Some (rep, sv)"
    using handleContainerStart_ok by blast
  ultimately show ?thesis using ws
    by (auto simp: sv0 handleContainerStart_def with_lifecycle_def NewServer_def inject_proxy_def daemon_env_def
        ProxyManager_Start_def NewProxyManager_def Let_def publish_def add_env_def)
qed

end
