(* ===== verification/CLI_Container.thy ===== *)
theory CLI_Container
  imports Daemon_Client Config
begin

text \<open>
  The commands of \<open>cli/container.go\<close>, with the flags as a record and the text on the terminal as
  values.  \<open>misbah container start\<close> runs a container without the daemon: a proxy of its own that
  asks an in-process checker, which denies whatever the specification does not list.
\<close>

record cli_flags =
  fl_SpecFile :: string
  fl_Name :: string
  fl_Command :: "string list"
  fl_Force :: bool
  fl_Image :: string
  fl_Runtime :: string

datatype cli_error =
    CliSave spec_file_error
  | CliLoad spec_file_error
  | CliInvalid spec_error
  | CliTempDir go_error
  | CliProxy go_error
  | CliStart lifecycle_error
  | CliDaemon go_error
  | CliReadLocks os_error
  | CliNotRunning string
  | CliForceStop lock_error
  | CliStop lock_error
  | CliNoTarget

text \<open>
  The surroundings: the codecs of the files, git, the namespace runtime, the kernel's network
  functions and their state, \<open>net.Listen\<close>, \<open>os.MkdirTemp\<close>, \<open>os.ReadDir\<close> (the name of an entry and whether
  it is a directory), whether the user is root, what the polls of a forced release see, and the
  orders in which \<open>StopAll\<close> visits its maps.
\<close>

record 'k cli_env =
  ce_specs :: spec_codec
  ce_locks :: lock_codec
  ce_git :: git_env
  ce_ns :: ns_env
  ce_kernel :: "'k net_kernel"
  ce_net :: "'k net_state"
  ce_v6 :: "string \<Rightarrow> (ip_addr \<times> nat) option"
  ce_listen :: "go_error + string"
  ce_daemonYaml :: "string \<Rightarrow> DaemonConfig \<Rightarrow> go_error + DaemonConfig"
  ce_MkdirTemp :: "host \<Rightarrow> go_error + string"
  ce_ReadDir :: "string \<Rightarrow> host \<Rightarrow> os_error + (string \<times> bool) list"
  ce_root :: bool
  ce_polls :: "(int \<Rightarrow> proc_status) list"
  ce_isos :: "string list"
  ce_names :: "string list"

section \<open>Specification files\<close>

definition cli_spec :: "cli_flags \<Rightarrow> ContainerSpec" where
  "cli_spec fl =
     \<lparr>spec_Version = ''1.0'',
      spec_Metadata = \<lparr>md_Name = fl_Name fl, md_Description = ''Auto-generated container specification'', md_Labels = Map.empty\<rparr>,
      spec_Process = \<lparr>proc_Command = fl_Command fl, proc_Env = [''MISBAH_CONTAINER='' @ fl_Name fl],
        proc_Cwd = ''/container/workspace'', proc_NetNsName = []\<rparr>,
      spec_Namespaces = \<lparr>ns_User = True, ns_Mount = True, ns_PID = True, ns_Network = False, ns_IPC = False, ns_UTS = False\<rparr>,
      spec_Mounts = [\<lparr>mnt_Type = MountTypeBind, mnt_Source = ''/tmp'', mnt_Destination = ''/container/workspace'',
        mnt_Options = [''rw''], mnt_GitClone = None, mnt_Overlay = None\<rparr>],
      spec_Resources = None, spec_Image = fl_Image fl, spec_Runtime = [], spec_Network = None,
      spec_TierConfig = None, spec_Nesting = None, spec_Permissions = None, spec_VsockForwarder = None\<rparr>"

definition runContainerCreate :: "'k cli_env \<Rightarrow> cli_flags \<Rightarrow> host \<Rightarrow> cli_error option \<times> host" where
  "runContainerCreate env fl h =
     (case SaveContainerSpec (ce_specs env) (cli_spec fl) (fl_SpecFile fl) h of
        (Some e, h') \<Rightarrow> (Some (CliSave e), h')
      | (None, h') \<Rightarrow> (None, h'))"

definition runContainerValidate :: "'k cli_env \<Rightarrow> cli_flags \<Rightarrow> host \<Rightarrow> cli_error option" where
  "runContainerValidate env fl h =
     (case LoadContainerSpec (ce_specs env) (fl_SpecFile fl) h of
        Inl e \<Rightarrow> Some (CliLoad e)
      | Inr spec \<Rightarrow> map_option CliInvalid (ContainerSpec_Validate spec))"

section \<open>Starting a container\<close>

text \<open>
  Over the daemon, for Kata.  The server recovers from a panic of a handler and closes the
  connection.
\<close>

definition startViaDaemon ::
  "transport \<Rightarrow> 'k server_env \<Rightarrow> ContainerSpec \<Rightarrow> ('p, 's, 'k) Server \<Rightarrow> cli_error option \<times> ('p, 's, 'k) Server" where
  "startViaDaemon tr se spec sv =
     (case Client_ContainerStart tr se spec sv of
        None \<Rightarrow> (Some (CliDaemon ''daemon request: EOF''), sv)
      | Some (Inl e, sv') \<Rightarrow> (Some (CliDaemon e), sv')
      | Some (Inr r, sv') \<Rightarrow> (None, sv'))"

text \<open>
  The in-process checker of the command, as its prompter and the state it works on: a prompter that
  denies, the rules of the specification, and no audit log.
\<close>

definition cli_checker :: "string \<Rightarrow> ContainerSpec \<Rightarrow> host \<Rightarrow> unit prompter \<times> unit broker" where
  "cli_checker tmpDir spec h =
     (AutoDenyPrompter_Prompt,
      \<lparr>bk_whitelist = wl_LoadFromSpec spec (NewWhitelistStore (join_path [tmpDir, ''wl.yaml''])),
       bk_prompt = (), bk_audit = None, bk_host = h\<rparr>)"

text \<open>Network isolation, if the user is root and the daemon's configuration can be read.\<close>

definition cli_isolator :: "'k cli_env \<Rightarrow> host \<Rightarrow> (NetworkIsolator \<times> 'k net_state) option" where
  "cli_isolator env h =
     (if ce_root env
      then (case LoadDaemonConfig (ce_daemonYaml env) [] h of
              Inl e \<Rightarrow> None
            | Inr cfg \<Rightarrow> Some (NewNetworkIsolator (dc_Network cfg), ce_net env))
      else None)"

text \<open>What the container is told: the proxy's variables, and the namespace that was made for it.\<close>

definition cli_inject :: "string \<Rightarrow> 'k ProxyManager \<Rightarrow> host \<Rightarrow> ContainerSpec \<Rightarrow> ContainerSpec" where
  "cli_inject proxyAddr pm h spec =
     (let spec1 = add_env (ProxyEnvVars proxyAddr (GetDaemonSocket h)) spec
      in case pm_isolator pm of
           None \<Rightarrow> spec1
         | Some (ni, n) \<Rightarrow>
           let nsName = Isolator_NsName (spec_name spec) ni
           in if nsName \<noteq> [] then spec1\<lparr>spec_Process := (spec_Process spec1)\<lparr>proc_NetNsName := nsName\<rparr>\<rparr> else spec1)"

definition cli_lifecycle :: "'k cli_env \<Rightarrow> host \<Rightarrow> string list list Lifecycle" where
  "cli_lifecycle env h =
     \<lparr>lc_lockManager = NewLockManager h, lc_codec = ce_locks env, lc_git = ce_git env, lc_tempDir = GetTempDir h,
      lc_backend = NamespaceBackend (ce_ns env)\<rparr>"

definition cli_run :: "'k cli_env \<Rightarrow> ContainerSpec \<Rightarrow> host \<times> string list list \<Rightarrow> cli_error option \<times> host \<times> string list list" where
  "cli_run env spec w = apfst (map_option CliStart) (Lifecycle_Start (cli_lifecycle env (fst w)) spec w)"

text \<open>
  The command's proxies are part of its result: the checker that the manager was given, the
  manager while the container runs, and the manager that the command leaves behind.  The deferred
  calls run on every way out once they are registered, the last one first.
\<close>

record 'k cli_proxies =
  cp_checker :: "unit prompter \<times> unit broker"
  cp_running :: "'k ProxyManager"
  cp_left :: "'k ProxyManager"

definition run_proxied ::
  "'k cli_env \<Rightarrow> ContainerSpec \<Rightarrow> host \<times> string list list \<Rightarrow> cli_error option \<times> (host \<times> string list list) \<times> 'k cli_proxies option" where
  "run_proxied env spec w =
     (case ce_MkdirTemp env (fst w) of
        Inl e \<Rightarrow> (Some (CliTempDir e), w, None)
      | Inr tmpDir \<Rightarrow>
        let h1 = (fst w)\<lparr>h_fs := (h_fs (fst w))(tmpDir \<mapsto> Directory)\<rparr>;
            removed = (\<lambda>h. snd (os_remove_all tmpDir h));
            stopped = ProxyManager_StopAll (ce_kernel env) (ce_isos env) (ce_names env);
            proxies = (\<lambda>pm. Some \<lparr>cp_checker = cli_checker tmpDir spec h1, cp_running = pm, cp_left = stopped pm\<rparr>)
        in case ProxyManager_Start (ce_kernel env) (ce_v6 env) (ce_listen env) (spec_name spec) (NewProxyManager (cli_isolator env h1)) of
             (Inl e, pm) \<Rightarrow> (Some (CliProxy e), (removed h1, snd w), proxies pm)
           | (Inr proxyAddr, pm) \<Rightarrow>
             (case cli_run env (cli_inject proxyAddr pm h1 spec) (h1, snd w) of
                (e, h2, cmds) \<Rightarrow> (e, (removed h2, cmds), proxies pm)))"

definition runContainerStart ::
  "'k cli_env \<Rightarrow> (ContainerSpec \<Rightarrow> 'd \<Rightarrow> cli_error option \<times> 'd) \<Rightarrow> cli_flags \<Rightarrow> (host \<times> string list list) \<Rightarrow> 'd \<Rightarrow>
     cli_error option \<times> (host \<times> string list list) \<times> 'k cli_proxies option \<times> 'd" where
  "runContainerStart env via fl w d =
     (case LoadContainerSpec (ce_specs env) (fl_SpecFile fl) (fst w) of
        Inl e \<Rightarrow> (Some (CliLoad e), w, None, d)
      | Inr spec0 \<Rightarrow>
        let spec = (if fl_Runtime fl \<noteq> [] then spec0\<lparr>spec_Runtime := fl_Runtime fl\<rparr> else spec0)
        in if spec_Runtime spec = RuntimeKata then (case via spec d of (e, d') \<Rightarrow> (e, w, None, d'))
           else if spec_Permissions spec \<noteq> None then (case run_proxied env spec w of (e, w', px) \<Rightarrow> (e, w', px, d))
           else (case cli_run env spec w of (e, w') \<Rightarrow> (e, w', None, d)))"

section \<open>Listing, stopping, inspecting, destroying\<close>

text \<open>A line of the list: a name, and its lock with whether it is stale unless it cannot be read.\<close>

definition is_lock_file :: "string \<Rightarrow> bool" where
  "is_lock_file n \<longleftrightarrow> 5 \<le> length n \<and> drop (length n - 5) n = ''.lock''"

definition list_entry :: "'k cli_env \<Rightarrow> host \<Rightarrow> string \<Rightarrow> string \<times> (Lock \<times> bool) option" where
  "list_entry env h name =
     (name, case GetLock (ce_locks env) (NewLockManager h) name h of Inl e \<Rightarrow> None | Inr l \<Rightarrow> Some (l, IsStale l h))"

definition runContainerList :: "'k cli_env \<Rightarrow> host \<Rightarrow> cli_error + (string \<times> (Lock \<times> bool) option) list" where
  "runContainerList env h =
     (if (case os_stat (GetLocksDir h) h of Inl e \<Rightarrow> is_not_exist e | Inr n \<Rightarrow> False) then Inr []
      else case ce_ReadDir env (GetLocksDir h) h of
             Inl e \<Rightarrow> Inl (CliReadLocks e)
           | Inr entries \<Rightarrow>
             Inr [list_entry env h (take (length n - 5) n). (n, dir) \<leftarrow> entries, \<not> dir \<and> is_lock_file n])"

definition runContainerStop :: "'k cli_env \<Rightarrow> cli_flags \<Rightarrow> host \<Rightarrow> cli_error option \<times> host" where
  "runContainerStop env fl h =
     (case GetLock (ce_locks env) (NewLockManager h) (fl_Name fl) h of
        Inl e \<Rightarrow> (Some (CliNotRunning (fl_Name fl)), h)
      | Inr lock \<Rightarrow>
        if fl_Force fl
        then apfst (map_option CliForceStop) (ForceRelease (ce_locks env) (NewLockManager h) (ce_polls env) (fl_Name fl) h)
        else apfst (map_option CliStop) (ReleaseLock (ce_locks env) (NewLockManager h) (fl_Name fl) h))"

datatype inspected = ShowSpec ContainerSpec | ShowNotRunning string | ShowLock Lock bool

definition runContainerInspect :: "'k cli_env \<Rightarrow> cli_flags \<Rightarrow> host \<Rightarrow> cli_error + inspected list" where
  "runContainerInspect env fl h =
     (case (if fl_SpecFile fl \<noteq> []
            then map_sum CliLoad (\<lambda>spec. [ShowSpec spec]) (LoadContainerSpec (ce_specs env) (fl_SpecFile fl) h)
            else Inr []) of
        Inl e \<Rightarrow> Inl e
      | Inr shown \<Rightarrow>
        if fl_Name fl \<noteq> [] then
          (case GetLock (ce_locks env) (NewLockManager h) (fl_Name fl) h of
             Inl e \<Rightarrow> Inr (shown @ [ShowNotRunning (fl_Name fl)])
           | Inr lock \<Rightarrow> Inr (shown @ [ShowLock lock (IsStale lock h)]))
        else if fl_SpecFile fl = [] then Inl CliNoTarget
        else Inr shown)"

text \<open>Every error is only logged: the command always reports success.\<close>

definition runContainerDestroy :: "'k cli_env \<Rightarrow> cli_flags \<Rightarrow> host \<Rightarrow> cli_error option \<times> host" where
  "runContainerDestroy env fl h =
     (let lm = NewLockManager h;
          h1 = (case GetLock (ce_locks env) lm (fl_Name fl) h of
                  Inl e \<Rightarrow> h
                | Inr lock \<Rightarrow>
                  snd (if fl_Force fl then ForceRelease (ce_locks env) lm (ce_polls env) (fl_Name fl) h
                       else ReleaseLock (ce_locks env) lm (fl_Name fl) h));
          h2 = snd (Cgroup_Cleanup (NewCgroupManager (fl_Name fl)) h1)
      in (None, snd (os_remove (join_path [GetLocksDir h2, fl_Name fl @ ''.lock'']) h2)))"

section \<open>Specification files from the command line\<close>

lemma cli_spec_valid: "ContainerSpec_Validate (cli_spec fl) = None \<longleftrightarrow> valid_name (fl_Name fl) \<and> fl_Command fl \<noteq> []"
  by (simp add: Validate_iff valid_spec_def cli_spec_def is_abs_def has_prefix_def valid_mount_def MountTypeBind_def)

text \<open>
  What \<open>create\<close> wrote, \<open>validate\<close> accepts exactly if the name is a valid one and the command is not
  empty: \<open>create\<close> itself checks neither.
\<close>

theorem cli_create_then_validate:
  assumes "spec_codec_ok (ce_specs env)" and "runContainerCreate env fl h = (None, h')"
    and "\<not> h_fault h OpReadFile (fl_SpecFile fl)"
  shows "runContainerValidate env fl h' = None \<longleftrightarrow> valid_name (fl_Name fl) \<and> fl_Command fl \<noteq> []"
proof -
  have "SaveContainerSpec (ce_specs env) (cli_spec fl) (fl_SpecFile fl) h = (None, h')"
    using assms(2) by (auto simp: runContainerCreate_def split: prod.splits option.splits)
  from Save_then_LoadSpec [OF assms(1) this assms(3)]
  show ?thesis by (simp add: runContainerValidate_def Validate_yaml_view cli_spec_valid)
qed

section \<open>A container without the daemon reaches only what its specification lists\<close>

text \<open>The prompter that denies adds no ALWAYS rule.\<close>

lemma deny_adds_no_grant:
  "bk_rules (snd (DirectChecker_Request AutoDenyPrompter_Prompt y req b)) k = Some DecisionAlways \<Longrightarrow>
   bk_rules b k = Some DecisionAlways"
  by (auto simp: DirectChecker_Request_def ask_user_def AutoDenyPrompter_Prompt_def DecisionDeny_def DecisionAlways_def Let_def
      split: option.splits if_splits)

lemma deny_ServeHTTP_rules:
  assumes "NetworkProxy_ServeHTTP (direct_checker AutoDenyPrompter_Prompt y) env r p b = (rep, out, p', b')"
    and "bk_rules b' k = Some DecisionAlways"
  shows "bk_rules b k = Some DecisionAlways"
proof -
  obtain e d where "NetworkProxy_checkPermission (direct_checker AutoDenyPrompter_Prompt y) (checked_domain r) p b = ((e, d), p', b')"
    using ServeHTTP_checks [OF assms(1)] by blast
  from checkPermission_cached [OF this]
  have "direct.check_cached AutoDenyPrompter_Prompt y (network_request (np_container p)) (checked_domain r) (np_cache p) b = ((e, d), np_cache p', b')"
    by simp
  then show ?thesis using assms(2)
    by (cases rule: direct.check_cached_cases) (auto dest: deny_adds_no_grant)
qed

text \<open>The states that a proxy and its checker go through.\<close>

inductive cli_serves :: "'p prompter \<Rightarrow> yaml_codec \<Rightarrow> NetworkProxy \<Rightarrow> 'p broker \<Rightarrow> NetworkProxy \<Rightarrow> 'p broker \<Rightarrow> bool" for pr y p0 b0 where
  cli_begin: "cli_serves pr y p0 b0 p0 b0"
| cli_request: "cli_serves pr y p0 b0 p b \<Longrightarrow>
    NetworkProxy_ServeHTTP (direct_checker pr y) env r p b = (rep, out, p', b') \<Longrightarrow> cli_serves pr y p0 b0 p' b'"

lemma cli_serves_inv:
  assumes "cli_serves AutoDenyPrompter_Prompt y p0 b0 p b" and "proxy_coherent p0 b0"
  shows "proxy_coherent p b \<and> (\<forall>k. bk_rules b k = Some DecisionAlways \<longrightarrow> bk_rules b0 k = Some DecisionAlways)"
  using assms
proof (induction rule: cli_serves.induct)
  case (cli_request p b env r rep out p' b')
  with network_mediated [OF _ cli_request(2)] deny_ServeHTTP_rules [OF cli_request(2)] show ?case by blast
qed simp

lemma denied_unless_listed:
  assumes "cli_serves AutoDenyPrompter_Prompt y (NewNetworkProxy c a) (snd (cli_checker tmpDir spec h)) p b"
    and "NetworkProxy_ServeHTTP (direct_checker AutoDenyPrompter_Prompt y) env r p b = (rep, out, p', b')"
    and "out \<noteq> []"
  shows "ruleKey ResourceNetwork (checked_domain r) \<in> spec_keys spec"
proof -
  let ?b0 = "snd (cli_checker tmpDir spec h)"
  have "proxy_coherent (NewNetworkProxy c a) ?b0"
    by (simp add: proxy_coherent_def NewNetworkProxy_def cache_coherent_def)
  note inv = cli_serves_inv [OF assms(1) this]
  have "bk_rules b' (ruleKey ResourceNetwork (checked_domain r)) = Some DecisionAlways"
    using network_mediated [OF conjunct1 [OF inv] assms(2)] assms(3)
    by (auto simp: AutoDenyPrompter_Prompt_def DecisionDeny_def DecisionOnce_def)
  then have "bk_rules ?b0 (ruleKey ResourceNetwork (checked_domain r)) = Some DecisionAlways"
    using deny_ServeHTTP_rules [OF assms(2)] inv by blast
  then show ?thesis by (simp add: cli_checker_def wl_LoadFromSpec_rules NewWhitelistStore_def split: if_splits)
qed

text \<open>The only proxy of a new manager, and what the container is told.\<close>

lemma first_start:
  assumes "ProxyManager_Start nk v6 l c (NewProxyManager isol) = (r, pm)" and "\<forall>ni n. isol = Some (ni, n) \<longrightarrow> ni_netns ni = Map.empty"
  shows "case r of
      Inl e \<Rightarrow> pm_proxies pm = Map.empty
    | Inr a \<Rightarrow> (\<exists>mp. pm_proxies pm = [c \<mapsto> mp] \<and> mp_addr mp = a \<and> mp_proxy mp = NewNetworkProxy c a) \<and>
        (\<forall>ni n. pm_isolator pm = Some (ni, n) \<longrightarrow> Isolator_NsName c ni = ns_name c)"
  using assms
  by (auto simp: ProxyManager_Start_def NewProxyManager_def shutdown_def Isolator_Setup_def Isolator_NsName_def Let_def
      split: sum.splits option.splits prod.splits if_splits)

lemma cli_inject_told:
  assumes "\<forall>ni n. pm_isolator pm = Some (ni, n) \<longrightarrow> Isolator_NsName (spec_name spec) ni = ns_name (spec_name spec)"
  shows "spec_name (cli_inject a pm h spec) = spec_name spec \<and>
    set (ProxyEnvVars a (GetDaemonSocket h)) \<subseteq> set (proc_Env (spec_Process (cli_inject a pm h spec))) \<and>
    (pm_isolator pm \<noteq> None \<longrightarrow> proc_NetNsName (spec_Process (cli_inject a pm h spec)) = ns_name (spec_name spec))"
  using assms by (auto simp: cli_inject_def add_env_def Let_def ns_name_def split: option.split)

text \<open>
  C9: a container that \<open>misbah container start\<close> runs itself, from a specification with permissions, has one
  proxy, with a checker of the command, and is told its address (and, with network isolation, its
  namespace); nothing is run if the proxy cannot be started.  Whatever requests that proxy has
  served before, one that leaves the host through it is for a domain that the specification lists.
\<close>

theorem cli_reaches_listed_only:
  assumes "LoadContainerSpec (ce_specs env) (fl_SpecFile fl) (fst w) = Inr spec0"
    and "spec = (if fl_Runtime fl \<noteq> [] then spec0\<lparr>spec_Runtime := fl_Runtime fl\<rparr> else spec0)"
    and "spec_Runtime spec \<noteq> RuntimeKata" and "spec_Permissions spec \<noteq> None"
    and "runContainerStart env via fl w d = (e, w', pxo, d')"
  shows "case pxo of
      None \<Rightarrow> (\<exists>x. e = Some (CliTempDir x)) \<and> w' = w
    | Some px \<Rightarrow>
      (pm_proxies (cp_running px) = Map.empty \<and> (\<exists>x. e = Some (CliProxy x)) \<and> snd w' = snd w \<or>
       (\<exists>mp sp h1 h2. pm_proxies (cp_running px) = [spec_name spec \<mapsto> mp] \<and> cli_run env sp (h1, snd w) = (e, h2, snd w') \<and>
          spec_name sp = spec_name spec \<and>
          set (ProxyEnvVars (mp_addr mp) (GetDaemonSocket h1)) \<subseteq> set (proc_Env (spec_Process sp)) \<and>
          (pm_isolator (cp_running px) \<noteq> None \<longrightarrow> proc_NetNsName (spec_Process sp) = ns_name (spec_name spec)))) \<and>
      (\<forall>c mp y p b penv r rep out p' b'. pm_proxies (cp_running px) c = Some mp \<longrightarrow>
         cli_serves (fst (cp_checker px)) y (mp_proxy mp) (snd (cp_checker px)) p b \<longrightarrow>
         NetworkProxy_ServeHTTP (direct_checker (fst (cp_checker px)) y) penv r p b = (rep, out, p', b') \<longrightarrow> out \<noteq> [] \<longrightarrow>
         ruleKey ResourceNetwork (checked_domain r) \<in> spec_keys spec)"
proof -
  have r: "run_proxied env spec w = (e, w', pxo)"
    using assms by (auto simp: runContainerStart_def Let_def split: prod.splits)
  show ?thesis
  proof (cases "ce_MkdirTemp env (fst w)")
    case (Inl x)
    with r show ?thesis by (auto simp: run_proxied_def)
  next
    case (Inr tmpDir)
    define h1 where "h1 = (fst w)\<lparr>h_fs := (h_fs (fst w))(tmpDir \<mapsto> Directory)\<rparr>"
    obtain x pm where s: "ProxyManager_Start (ce_kernel env) (ce_v6 env) (ce_listen env) (spec_name spec) (NewProxyManager (cli_isolator env h1)) = (x, pm)"
      by fastforce
    have "\<forall>ni n. cli_isolator env h1 = Some (ni, n) \<longrightarrow> ni_netns ni = Map.empty"
      by (auto simp: cli_isolator_def NewNetworkIsolator_def split: if_splits sum.splits)
    note first = first_start [OF s this]
    have ck: "\<exists>px. pxo = Some px \<and> cp_checker px = cli_checker tmpDir spec h1 \<and> cp_running px = pm"
      using r Inr s by (auto simp: run_proxied_def Let_def h1_def split: sum.splits prod.splits)
    then obtain px where px: "pxo = Some px" "cp_checker px = cli_checker tmpDir spec h1" "cp_running px = pm" by blast
    have ad: "fst (cli_checker tmpDir spec h1) = AutoDenyPrompter_Prompt" by (simp add: cli_checker_def)
    have traffic: "ruleKey ResourceNetwork (checked_domain r) \<in> spec_keys spec"
      if reg: "pm_proxies pm c = Some mp" and serves: "cli_serves AutoDenyPrompter_Prompt y (mp_proxy mp) (snd (cli_checker tmpDir spec h1)) p b"
        and sent: "NetworkProxy_ServeHTTP (direct_checker AutoDenyPrompter_Prompt y) penv r p b = (rep, out, p', b')" "out \<noteq> []"
      for c mp y p b penv r rep out p' b'
    proof -
      obtain a where "mp_proxy mp = NewNetworkProxy (spec_name spec) a"
        using first reg by (auto split: sum.splits if_splits)
      with denied_unless_listed [OF _ sent] serves show ?thesis by metis
    qed
    show ?thesis
    proof (cases x)
      case e: (Inl y)
      then have "(\<exists>x. e = Some (CliProxy x)) \<and> snd w' = snd w" using r Inr s by (auto simp: run_proxied_def Let_def h1_def [symmetric])
      then show ?thesis using e first traffic by (simp add: px ad)
    next
      case a: (Inr addr)
      then obtain mp where mp: "pm_proxies pm = [spec_name spec \<mapsto> mp]" "mp_addr mp = addr"
        and told: "\<forall>ni n. pm_isolator pm = Some (ni, n) \<longrightarrow> Isolator_NsName (spec_name spec) ni = ns_name (spec_name spec)"
        using first by auto
      let ?sp = "cli_inject addr pm h1 spec"
      obtain h2 where "cli_run env ?sp (h1, snd w) = (e, h2, snd w')"
        using r Inr s a by (auto simp: run_proxied_def Let_def h1_def [symmetric] split: prod.splits)
      then show ?thesis using mp traffic cli_inject_told [OF told, of addr h1] by (auto simp: px ad)
    qed
  qed
qed

section \<open>What a start leaves behind\<close>

lemma remove_all_gone: "\<not> h_fault (snd (os_remove_all p h)) OpRemoveAll p \<Longrightarrow> h_fs (snd (os_remove_all p h)) p = None"
  by (auto simp: os_remove_all_def split: if_splits)

lemma new_manager_ok: "pm_ok (NewProxyManager (cli_isolator env h))"
  by (rule pm_ok_new) (auto simp: cli_isolator_def NewNetworkIsolator_def split: if_splits sum.splits)

lemma stop_all_serves_none:
  assumes "ProxyManager_Start nk v6 l c (NewProxyManager (cli_isolator env h)) = (r, pm)" and "c \<in> set names"
  shows "pm_serving (ProxyManager_StopAll nk isos names pm) = {} \<and> pm_proxies (ProxyManager_StopAll nk isos names pm) = Map.empty"
proof -
  have "dom (pm_addrs pm) \<subseteq> {c} \<and> pm_ok pm"
    using Start_ok [OF new_manager_ok assms(1)]
    by (auto simp: pm_addrs_def NewProxyManager_def split: sum.splits)
  then have d: "dom (pm_proxies pm) \<subseteq> {c}" and ok: "pm_ok pm" by (simp_all add: pm_addrs_dom)
  have "ran (pm_proxies pm) \<subseteq> set (List.map_filter (pm_proxies pm) names)"
    using d assms(2) by (force simp: map_filter_def ran_def dom_def)
  then show ?thesis using ok by (auto simp: ProxyManager_StopAll_def fold_shutdown pm_ok_def)
qed

text \<open>
  C33: however a start without the daemon ends, no proxy serves any more, and the directory for
  the temporary rules is gone unless its removal failed.
\<close>

theorem cli_start_cleans_up:
  assumes "LoadContainerSpec (ce_specs env) (fl_SpecFile fl) (fst w) = Inr spec" and "spec_name spec \<in> set (ce_names env)"
    and "ce_MkdirTemp env (fst w) = Inr tmpDir"
    and "runContainerStart env via fl w d = (e, w', Some px, d')"
  shows "pm_serving (cp_left px) = {} \<and> pm_proxies (cp_left px) = Map.empty \<and>
    (\<not> h_fault (fst w') OpRemoveAll tmpDir \<longrightarrow> h_fs (fst w') tmpDir = None)"
proof -
  define sp where "sp = (if fl_Runtime fl \<noteq> [] then spec\<lparr>spec_Runtime := fl_Runtime fl\<rparr> else spec)"
  have n: "spec_name sp = spec_name spec" by (simp add: sp_def)
  have r: "run_proxied env sp w = (e, w', Some px)"
    using assms(1,4) by (auto simp: runContainerStart_def sp_def Let_def split: if_splits prod.splits)
  obtain x pm0 where s: "ProxyManager_Start (ce_kernel env) (ce_v6 env) (ce_listen env) (spec_name sp)
      (NewProxyManager (cli_isolator env ((fst w)\<lparr>h_fs := (h_fs (fst w))(tmpDir \<mapsto> Directory)\<rparr>))) = (x, pm0)" by fastforce
  have p: "cp_left px = ProxyManager_StopAll (ce_kernel env) (ce_isos env) (ce_names env) pm0"
    and w: "\<exists>h2. fst w' = snd (os_remove_all tmpDir h2)"
    using r s assms(3) by (auto simp: run_proxied_def Let_def split: sum.splits prod.splits)
  from stop_all_serves_none [OF s, of "ce_names env"] assms(2) n p have "pm_serving (cp_left px) = {} \<and> pm_proxies (cp_left px) = Map.empty" by simp
  with w remove_all_gone show ?thesis by metis
qed

section \<open>Containers of another process\<close>

lemma GetLock_stat:
  assumes "GetLock k lm n h = Inr l"
  shows "(case os_stat (getLockPath lm n) h of Inl e \<Rightarrow> is_not_exist e | Inr x \<Rightarrow> False) = False"
  using assms by (auto simp: GetLock_def readLock_def os_read_file_def os_stat_def is_not_exist_def split: sum.splits option.splits if_splits)

lemma release_foreign:
  assumes "GetLock k lm n h = Inr l" and "lk_PID l \<noteq> h_pid h" and "running (lk_PID l) h"
  shows "ReleaseLock k lm n h = (Some (LkNotOwner (lk_PID l)), h)"
  using assms GetLock_stat [OF assms(1)] by (simp add: ReleaseLock_def GetLock_def Let_def)

text \<open>
  \<open>misbah container stop\<close> without \<open>--force\<close> stops no container that another process started: it
  fails with the owner's process and changes nothing, so that no signal is sent.
\<close>

theorem cli_stop_other_process:
  assumes "GetLock (ce_locks env) (NewLockManager h) (fl_Name fl) h = Inr l"
    and "lk_PID l \<noteq> h_pid h" and "running (lk_PID l) h" and "\<not> fl_Force fl"
  shows "runContainerStop env fl h = (Some (CliStop (LkNotOwner (lk_PID l))), h)"
  using assms by (simp add: runContainerStop_def release_foreign)

text \<open>
  C37: destroying such a container from the command line without \<open>--force\<close> reports success: the owner
  runs on without a signal, but its lock is gone, and with it the exclusion of a second start.
\<close>

theorem cli_destroy_drops_live_lock:
  assumes "GetLock (ce_locks env) (NewLockManager h) (fl_Name fl) h = Inr l"
    and "lk_PID l \<noteq> h_pid h" and "running (lk_PID l) h" and "\<not> fl_Force fl"
    and "\<not> h_fault h OpRemove (GetLockPath (fl_Name fl) h)"
  shows "\<exists>h'. runContainerDestroy env fl h = (None, h') \<and> running (lk_PID l) h' \<and> h_signals h' = h_signals h \<and>
    lock_owner (ce_locks env) (NewLockManager h) (fl_Name fl) h' = None"
proof -
  define h2 where "h2 = snd (Cgroup_Cleanup (NewCgroupManager (fl_Name fl)) h)"
  define h' where "h' = snd (os_remove (GetLockPath (fl_Name fl) h) h2)"
  have c: "h_fault h2 = h_fault h \<and> h_env h2 = h_env h \<and> h_signals h2 = h_signals h \<and> h_proc h2 = h_proc h"
    by (auto simp: h2_def Cgroup_Cleanup_def os_remove_def split: option.splits prod.splits)
  have l: "GetLocksDir h2 = GetLocksDir h" using c by (simp add: GetLocksDir_def GetTempDir_def env_or_def)
  have d: "runContainerDestroy env fl h = (None, h')"
    using assms(1,4) release_foreign [OF assms(1-3)]
    by (simp add: runContainerDestroy_def Let_def h2_def [symmetric] l GetLockPath_def h'_def)
  have "h_fs h' (GetLockPath (fl_Name fl) h) = None"
    unfolding h'_def using assms(5) c by (auto simp: os_remove_def split: option.splits)
  then have "lock_owner (ce_locks env) (NewLockManager h) (fl_Name fl) h' = None"
    by (intro lock_owner_none) (simp add: lock_path_agrees)
  moreover have "h_signals h' = h_signals h2" "h_proc h' = h_proc h2" by (simp_all add: h'_def)
  ultimately show ?thesis using assms(3) c d by (simp add: running_def)
qed

section \<open>Concrete runs\<close>

definition demo_cli :: "ContainerSpec \<Rightarrow> string set cli_env" where
  "demo_cli spec =
     \<lparr>ce_specs = one_spec_codec spec, ce_locks = pid_codec, ce_git = demo_git, ce_ns = demo_ns_env, ce_kernel = calm_kernel,
      ce_net = \<lparr>nw_log = [], nw_kernel = {}\<rparr>, ce_v6 = (\<lambda>s. None), ce_listen = Inr ''127.0.0.1:40000'',
      ce_daemonYaml = (\<lambda>d c. Inl ''malformed''), ce_MkdirTemp = (\<lambda>h. Inr ''/tmp/misbah-proxy-1''), ce_ReadDir = (\<lambda>d h. Inr []),
      ce_root = False, ce_polls = [], ce_isos = [], ce_names = [spec_name spec]\<rparr>"

definition demo_flags :: cli_flags where
  "demo_flags = \<lparr>fl_SpecFile = ''/tmp/s.yaml'', fl_Name = ''demo'', fl_Command = [''/bin/bash''], fl_Force = False, fl_Image = [], fl_Runtime = []\<rparr>"

theorem cli_create_then_validate_witness:
  "\<exists>h'. runContainerCreate (demo_cli (cli_spec demo_flags)) demo_flags demo_host = (None, h') \<and>
     runContainerValidate (demo_cli (cli_spec demo_flags)) demo_flags h' = None"
proof -
  let ?e = "demo_cli (cli_spec demo_flags)"
  have d: "dir_path ''/tmp/s.yaml'' = ''/tmp''" by code_simp
  have ok: "spec_codec_ok (ce_specs ?e)" by (simp add: demo_cli_def one_spec_codec_ok)
  obtain h' where c: "runContainerCreate ?e demo_flags demo_host = (None, h')"
    by (simp add: runContainerCreate_def SaveContainerSpec_def demo_cli_def one_spec_codec_def demo_flags_def d os_mkdir_all_def os_write_file_def)
  have "valid_name ''demo''" by (simp add: valid_name_def name_byte_def byte_in_def)
  with cli_create_then_validate [OF ok c] c show ?thesis by (auto simp: demo_flags_def)
qed

definition listed_get :: proxy_request where
  "listed_get = demo_get\<lparr>pr_Host := ''evil.test''\<rparr>"

lemma listing_loads:
  "LoadContainerSpec (ce_specs (demo_cli listing_spec)) (fl_SpecFile demo_flags) (demo_host\<lparr>h_fs := [''/tmp/s.yaml'' \<mapsto> RegFile ''demo'']\<rparr>) =
     Inr (yaml_view listing_spec)"
  "spec_Runtime (yaml_view listing_spec) \<noteq> RuntimeKata" "spec_Permissions (yaml_view listing_spec) \<noteq> None"
  "spec_name (yaml_view listing_spec) = spec_name listing_spec"
  by (simp_all add: LoadContainerSpec_def os_read_file_def demo_cli_def one_spec_codec_def demo_flags_def yaml_view_def
      listing_spec_def demo_spec_def RuntimeKata_def)

lemma run_proxied_manager:
  "ce_MkdirTemp env (fst w) = Inr t \<Longrightarrow> \<exists>e w' px. run_proxied env spec w = (e, w', Some px)"
  by (auto simp: run_proxied_def Let_def split: prod.splits sum.splits)

lemma run_proxied_first:
  assumes "ce_MkdirTemp env (fst w) = Inr t" and "\<not> ce_root env" and "ce_listen env = Inr a"
  shows "\<exists>q h. snd (snd (run_proxied env spec w)) = Some q \<and> cp_checker q = cli_checker t spec h \<and>
    pm_proxies (cp_running q) = [spec_name spec \<mapsto> \<lparr>mp_server = 0, mp_proxy = NewNetworkProxy (spec_name spec) a, mp_addr = a\<rparr>]"
  using assms by (auto simp: run_proxied_def ProxyManager_Start_def NewProxyManager_def cli_isolator_def Let_def split: prod.splits)

text \<open>A container whose specification lists a domain, and a request for it that leaves the host.\<close>

theorem cli_reaches_listed_only_witness:
  "\<exists>e w' px d' mp rep out p' b'. runContainerStart (demo_cli listing_spec) (\<lambda>s d. (None, d)) demo_flags
       (demo_host\<lparr>h_fs := [''/tmp/s.yaml'' \<mapsto> RegFile ''demo'']\<rparr>, []) () = (e, w', Some px, d') \<and>
     pm_proxies (cp_running px) = [spec_name listing_spec \<mapsto> mp] \<and>
     NetworkProxy_ServeHTTP (direct_checker (fst (cp_checker px)) one_rule_codec) demo_env listed_get (mp_proxy mp) (snd (cp_checker px)) =
       (rep, out, p', b') \<and> out \<noteq> [] \<and> ruleKey ResourceNetwork ''evil.test'' \<in> spec_keys (yaml_view listing_spec)"
proof -
  let ?w = "(demo_host\<lparr>h_fs := [''/tmp/s.yaml'' \<mapsto> RegFile ''demo'']\<rparr>, [])" and ?env = "demo_cli listing_spec"
  let ?spec = "yaml_view listing_spec" and ?h = "demo_host\<lparr>h_fs := [''/tmp/s.yaml'' \<mapsto> RegFile ''demo'', ''/tmp/misbah-proxy-1'' \<mapsto> Directory]\<rparr>"
  define px where "px = snd (snd (run_proxied ?env ?spec ?w))"
  obtain e w' x where "run_proxied ?env ?spec ?w = (e, w', x)" by (metis prod_cases3)
  then have s: "runContainerStart ?env (\<lambda>s d. (None, d)) demo_flags ?w () = (e, w', px, ())"
    using listing_loads by (auto simp: runContainerStart_def demo_flags_def px_def)
  define mp where "mp = \<lparr>mp_server = 0, mp_proxy = NewNetworkProxy (spec_name listing_spec) ''127.0.0.1:40000'', mp_addr = ''127.0.0.1:40000''\<rparr>"
  obtain q h where px: "px = Some q" "pm_proxies (cp_running q) = [spec_name listing_spec \<mapsto> mp]"
      and ck: "cp_checker q = cli_checker ''/tmp/misbah-proxy-1'' ?spec h"
    using run_proxied_first [of ?env ?w "''/tmp/misbah-proxy-1''" "''127.0.0.1:40000''" ?spec]
    by (auto simp: px_def demo_cli_def mp_def listing_loads(4))
  have dom: "checked_domain listed_get = ''evil.test''" "extractDomain ''evil.test'' = ''evil.test''" by code_simp+
  have "ruleKey ResourceNetwork ''evil.test'' \<in> spec_keys ?spec" by (simp add: spec_keys_def listing_spec_def yaml_view_def)
  then have c: "wl_Check ResourceNetwork ''evil.test'' (bk_whitelist (snd (cp_checker q))) = Some DecisionAlways"
    by (simp add: ck cli_checker_def wl_Check_def wl_LoadFromSpec_rules)
  obtain rep out p' b' where t: "NetworkProxy_ServeHTTP (direct_checker (fst (cp_checker q)) one_rule_codec) demo_env listed_get (mp_proxy mp) (snd (cp_checker q)) =
      (rep, out, p', b')" by (metis prod_cases4)
  have o: "out \<noteq> []"
    using t c by (auto simp: NetworkProxy_ServeHTTP_def listed_get_def demo_get_def handleHTTP_def Let_def dom demo_env_def mp_def
        NetworkProxy_checkPermission_def cached_check_def NewNetworkProxy_def DirectChecker_Check_def network_request_def split: prod.splits)
  have "pm_proxies (cp_running q) (spec_name listing_spec) = Some mp" using px(2) by simp
  have l: "LoadContainerSpec (ce_specs ?env) (fl_SpecFile demo_flags) (fst ?w) = Inr ?spec"
    "?spec = (if fl_Runtime demo_flags \<noteq> [] then ?spec\<lparr>spec_Runtime := fl_Runtime demo_flags\<rparr> else ?spec)"
    using listing_loads(1) by (simp_all add: demo_flags_def)
  note c9 = cli_reaches_listed_only [OF l listing_loads(2,3) s, unfolded px(1) option.case, THEN conjunct2]
  have "ruleKey ResourceNetwork (checked_domain listed_get) \<in> spec_keys ?spec"
    using c9 [rule_format, OF _ cli_begin t o] px(2) by simp
  with s px(1,2) t o dom(1) show ?thesis by auto
qed

theorem cli_start_cleans_up_witness:
  "\<exists>e w' px d'. runContainerStart (demo_cli listing_spec) (\<lambda>s d. (None, d)) demo_flags
       (demo_host\<lparr>h_fs := [''/tmp/s.yaml'' \<mapsto> RegFile ''demo'']\<rparr>, []) () = (e, w', Some px, d') \<and> pm_serving (cp_left px) = {}"
proof -
  let ?w = "(demo_host\<lparr>h_fs := [''/tmp/s.yaml'' \<mapsto> RegFile ''demo'']\<rparr>, [])"
  have l: "LoadContainerSpec (ce_specs (demo_cli listing_spec)) (fl_SpecFile demo_flags) (fst ?w) = Inr (yaml_view listing_spec)"
    by (simp add: LoadContainerSpec_def os_read_file_def demo_cli_def one_spec_codec_def demo_flags_def listing_spec_def demo_spec_def)
  have k: "spec_Runtime (yaml_view listing_spec) \<noteq> RuntimeKata" "spec_Permissions (yaml_view listing_spec) \<noteq> None"
    "spec_name (yaml_view listing_spec) = spec_name listing_spec"
    by (simp_all add: yaml_view_def listing_spec_def demo_spec_def RuntimeKata_def)
  obtain e w' px d' where s: "runContainerStart (demo_cli listing_spec) (\<lambda>s d. (None, d)) demo_flags ?w () = (e, w', Some px, d')"
    using l k run_proxied_manager [of "demo_cli listing_spec" ?w "''/tmp/misbah-proxy-1''" "yaml_view listing_spec"]
    by (auto simp: runContainerStart_def demo_flags_def demo_cli_def)
  have "spec_name (yaml_view listing_spec) \<in> set (ce_names (demo_cli listing_spec))" using k by (simp add: demo_cli_def)
  from cli_start_cleans_up [OF l this _ s] s show ?thesis by (auto simp: demo_cli_def)
qed

definition other_host :: host where
  "other_host = demo_host\<lparr>h_fs := [''/tmp/misbah/.locks/demo.lock'' \<mapsto> RegFile ''7''], h_proc := (\<lambda>p. OwnProcess)\<rparr>"

lemma other_host_lock: "GetLock (ce_locks (demo_cli demo_spec)) (NewLockManager other_host) (fl_Name demo_flags) other_host = Inr (pid_lock 7)"
proof -
  have "getLockPath (NewLockManager other_host) ''demo'' = ''/tmp/misbah/.locks/demo.lock''" by code_simp
  moreover have "digits_val ''7'' = 7" by code_simp
  ultimately show ?thesis
    by (simp add: GetLock_def readLock_def os_read_file_def demo_cli_def demo_flags_def pid_codec_def other_host_def)
qed

lemma other_host_facts:
  "lk_PID (pid_lock 7) \<noteq> h_pid other_host" "running (lk_PID (pid_lock 7)) other_host" "\<not> fl_Force demo_flags" "\<not> h_fault other_host op p"
  by (simp_all add: pid_lock_def other_host_def running_def demo_flags_def)

theorem cli_stop_other_process_witness:
  "runContainerStop (demo_cli demo_spec) demo_flags other_host = (Some (CliStop (LkNotOwner 7)), other_host)"
  using cli_stop_other_process [OF other_host_lock other_host_facts(1-3)] by (simp add: pid_lock_def)

theorem cli_destroy_drops_live_lock_witness:
  "\<exists>h'. runContainerDestroy (demo_cli demo_spec) demo_flags other_host = (None, h') \<and> running 7 h' \<and>
   lock_owner pid_codec (NewLockManager other_host) ''demo'' h' = None"
  using cli_destroy_drops_live_lock [OF other_host_lock other_host_facts]
  by (auto simp: pid_lock_def demo_cli_def demo_flags_def)

end
