(* ===== verification/Daemon_System.thy ===== *)
theory Daemon_System
  imports Daemon_Routes Daemon_Main CLI_Container
begin

text \<open>
  The running system: a daemon that \<open>cli/daemon.go\<close> put together, requests on its socket, the
  goroutines of its containers, the subscribers of its event bus, and the traffic that the
  containers send through the proxies of \<open>daemon/proxy_manager.go\<close>, whose checker is the
  daemon's own broker.  All of them interleave in any order.
\<close>

section \<open>Traffic\<close>

text \<open>
  A request of a container that reaches its proxy.  There is nobody to answer when the container
  has no proxy.  What leaves the host is the list of outbound actions.
\<close>

definition serve_traffic ::
  "'p prompter \<Rightarrow> yaml_codec \<Rightarrow> network_env \<Rightarrow> string \<Rightarrow> proxy_request \<Rightarrow> ('p, 's, 'k) Server \<Rightarrow>
     (proxy_reply \<times> outbound list \<times> ('p, 's, 'k) Server) option" where
  "serve_traffic pr y nenv c r sv =
     (case sv_proxyMgr sv of
        None \<Rightarrow> None
      | Some pm \<Rightarrow>
        (case pm_proxies pm c of
           None \<Rightarrow> None
         | Some mp \<Rightarrow>
           (case NetworkProxy_ServeHTTP (direct_checker pr y) nenv r (mp_proxy mp) (sv_broker sv) of
              (rep, out, p', b') \<Rightarrow>
                Some (rep, out,
                  sv\<lparr>sv_broker := b', sv_proxyMgr := Some (pm\<lparr>pm_proxies := (pm_proxies pm)(c \<mapsto> mp\<lparr>mp_proxy := p'\<rparr>)\<rparr>)\<rparr>))))"

section \<open>Runs\<close>

text \<open>What the user consents to for good when a request reaches the prompter in a state.\<close>

definition consented :: "'p prompter \<Rightarrow> PermissionRequest \<Rightarrow> ('p, 's, 'k) Server \<Rightarrow> string set" where
  "consented pr req sv = (if fst (pr req (bk_prompt (sv_broker sv))) = (None, DecisionAlways) then {req_key req} else {})"

definition traffic_request :: "string \<Rightarrow> proxy_request \<Rightarrow> PermissionRequest" where
  "traffic_request c r = network_request c (checked_domain r)"

text \<open>
  A run leads to a state, with the keys that the specifications of its requests listed and the keys
  that the user consented to.
\<close>

inductive sys_run ::
  "'p prompter \<Rightarrow> ('p, 's, 'k) Server \<Rightarrow> ('p, 's, 'k) Server \<Rightarrow> string set \<Rightarrow> string set \<Rightarrow> bool" for pr sv0 where
  sys_begin: "sys_run pr sv0 sv0 {} {}"
| sys_http: "sys_run pr sv0 sv L A \<Longrightarrow> Server_ServeHTTP (e :: (unit, 'k) route_env) pr m sv = Some (rep, sv') \<Longrightarrow>
    sys_run pr sv0 sv' (L \<union> listed_keys e m) (A \<union> (case carried_request e m of None \<Rightarrow> {} | Some req \<Rightarrow> consented pr req sv))"
| sys_task: "sys_run pr sv0 sv L A \<Longrightarrow> i < length (sv_tasks sv) \<Longrightarrow> run_task env i sv = Some sv' \<Longrightarrow> sys_run pr sv0 sv' L A"
| sys_events: "sys_run pr sv0 sv L A \<Longrightarrow> bus_exec op (sv_events sv) = Some b \<Longrightarrow> sys_run pr sv0 (sv\<lparr>sv_events := b\<rparr>) L A"
| sys_traffic: "sys_run pr sv0 sv L A \<Longrightarrow> serve_traffic pr y nenv c r sv = Some (rep, out, sv') \<Longrightarrow>
    sys_run pr sv0 sv' L (A \<union> consented pr (traffic_request c r) sv)"

section \<open>The daemon's invariant holds in every run\<close>

lemma traffic_manager_ok:
  assumes "pm_ok pm" and "pm_proxies pm c = Some mp" and "np_container p' = c"
  shows "pm_ok (pm\<lparr>pm_proxies := (pm_proxies pm)(c \<mapsto> mp\<lparr>mp_proxy := p'\<rparr>)\<rparr>)"
proof -
  define q where "q = (pm_proxies pm)(c \<mapsto> mp\<lparr>mp_proxy := p'\<rparr>)"
  have s: "map_option mp_server (q d) = map_option mp_server (pm_proxies pm d)" for d using assms(2) by (simp add: q_def)
  have srv: "\<exists>mq'. pm_proxies pm d = Some mq' \<and> mp_server mq' = mp_server mq" if "q d = Some mq" for d mq
    using s [of d] that by (auto simp: map_option_case split: option.splits if_splits)
  have srv': "\<exists>mq'. q d = Some mq' \<and> mp_server mq' = mp_server mq" if "pm_proxies pm d = Some mq" for d mq
    using that assms(2) by (auto simp: q_def)
  have img: "mp_server ` ran m1 \<subseteq> mp_server ` ran m2"
    if sub: "\<And>d mq. m1 d = Some mq \<Longrightarrow> \<exists>mq'. m2 d = Some mq' \<and> mp_server mq' = mp_server mq" for m1 m2 :: "string \<rightharpoonup> managedProxy"
  proof
    fix x
    assume "x \<in> mp_server ` ran m1"
    then obtain d mq where "m1 d = Some mq" "x = mp_server mq" by (auto simp: ran_def)
    with sub obtain mq' where "m2 d = Some mq'" "x = mp_server mq'" by metis
    then show "x \<in> mp_server ` ran m2" by (auto simp: ran_def)
  qed
  have ser: "pm_serving pm = mp_server ` ran q"
  proof -
    have "mp_server ` ran q \<subseteq> mp_server ` ran (pm_proxies pm)" by (rule img) (rule srv)
    moreover have "mp_server ` ran (pm_proxies pm) \<subseteq> mp_server ` ran q" by (rule img) (rule srv')
    moreover have "pm_serving pm = mp_server ` ran (pm_proxies pm)" using assms(1) by (simp add: pm_ok_def)
    ultimately show ?thesis by simp
  qed
  have d: "dom q = dom (pm_proxies pm)" using assms(2) by (auto simp: q_def)
  have inj: "\<forall>c d mp mq. pm_proxies pm c = Some mp \<longrightarrow> pm_proxies pm d = Some mq \<longrightarrow> mp_server mp = mp_server mq \<longrightarrow> c = d"
    using assms(1) by (simp add: pm_ok_def)
  have inj': "c1 = d1" if "q c1 = Some m1" "q d1 = Some m2" "mp_server m1 = mp_server m2" for c1 d1 m1 m2
  proof -
    note h = that
    obtain n1 n2 where "pm_proxies pm c1 = Some n1" "mp_server n1 = mp_server m1" "pm_proxies pm d1 = Some n2" "mp_server n2 = mp_server m2"
      using srv [OF h(1)] srv [OF h(2)] by blast
    with inj h(3) show ?thesis by simp
  qed
  have own: "mp_server m1 < pm_made pm \<and> np_container (mp_proxy m1) = d1" if "q d1 = Some m1" for d1 m1
    using that assms by (auto simp: q_def pm_ok_def split: if_splits)
  have "pm_ok (pm\<lparr>pm_proxies := q\<rparr>)"
    using ser d inj' own assms(1) by (simp add: pm_ok_def)
  then show ?thesis by (simp add: q_def)
qed

lemma serve_trafficD:
  assumes "serve_traffic pr y nenv c r sv = Some (rep, out, sv')"
  obtains pm mp p' b' where "sv_proxyMgr sv = Some pm" and "pm_proxies pm c = Some mp"
    and "NetworkProxy_ServeHTTP (direct_checker pr y) nenv r (mp_proxy mp) (sv_broker sv) = (rep, out, p', b')"
    and "sv' = sv\<lparr>sv_broker := b', sv_proxyMgr := Some (pm\<lparr>pm_proxies := (pm_proxies pm)(c \<mapsto> mp\<lparr>mp_proxy := p'\<rparr>)\<rparr>)\<rparr>"
  using assms by (auto simp: serve_traffic_def split: option.splits prod.splits)

lemma ServeHTTP_container:
  "NetworkProxy_ServeHTTP pc env r p s = (rep, out, p', s') \<Longrightarrow> np_container p' = np_container p"
  using ServeHTTP_checks checkPermission_cached by metis

lemma traffic_ok:
  assumes "server_ok sv" and "serve_traffic pr y nenv c r sv = Some (rep, out, sv')"
  shows "server_ok sv'"
proof (rule serve_trafficD [OF assms(2)])
  fix pm mp p' b'
  assume pm: "sv_proxyMgr sv = Some pm" "pm_proxies pm c = Some mp"
    and s: "NetworkProxy_ServeHTTP (direct_checker pr y) nenv r (mp_proxy mp) (sv_broker sv) = (rep, out, p', b')"
    and sv': "sv' = sv\<lparr>sv_broker := b', sv_proxyMgr := Some (pm\<lparr>pm_proxies := (pm_proxies pm)(c \<mapsto> mp\<lparr>mp_proxy := p'\<rparr>)\<rparr>)\<rparr>"
  have f: "flight_ok sv pm" using assms(1) pm(1) by (simp add: server_ok_def)
  then have ok: "pm_ok pm" by (simp add: flight_ok_def)
  then have "np_container (mp_proxy mp) = c" using pm(2) by (auto simp: pm_ok_def)
  then have c: "np_container p' = c" using ServeHTTP_container [OF s] by simp
  let ?pm = "pm\<lparr>pm_proxies := (pm_proxies pm)(c \<mapsto> mp\<lparr>mp_proxy := p'\<rparr>)\<rparr>"
  have a: "pm_addrs ?pm = pm_addrs pm" using pm(2) by (auto simp: pm_addrs_def)
  have t: "sv_tasks sv' = sv_tasks sv" "sv_vsockCfg sv' = sv_vsockCfg sv" "sv_addr sv' = sv_addr sv" by (simp_all add: sv')
  have "flight_ok sv ?pm" using f traffic_manager_ok [OF ok pm(2) c] by (simp add: flight_ok_def a)
  then show ?thesis using assms(1) flight_ok_cong [OF t] by (simp add: server_ok_def sv')
qed

lemma ServeHTTP_ok:
  assumes "server_ok sv" and "Server_ServeHTTP e pr m sv = Some (rep, sv')"
  shows "server_ok sv'"
proof (cases "sv' = sv")
  case False
  then obtain rt where "serve_route e pr rt m sv = Some (rep, sv')"
    using assms(2) by (auto simp: Server_ServeHTTP_def Let_def split: if_splits option.splits)
  with serve_route_ok [OF assms(1), of e pr rt m] show ?thesis by auto
qed (use assms(1) in simp)

lemma sys_run_ok: "sys_run pr sv0 sv L A \<Longrightarrow> server_ok sv0 \<Longrightarrow> server_ok sv"
proof (induction rule: sys_run.induct)
  case (sys_events sv L A op b)
  then have "bus_ok b" using bus_exec_ok [of "sv_events sv" op] by (auto simp: server_ok_def)
  with sys_events show ?case by (simp add: server_ok_events)
qed (auto intro: run_task_ok traffic_ok ServeHTTP_ok)

lemma handlers_keep_manager:
  "sv_proxyMgr (snd (handleContainerStop env rs sv)) = sv_proxyMgr sv"
  "sv_proxyMgr (snd (handleContainerDestroy rd sv)) = sv_proxyMgr sv"
  "sv_proxyMgr (snd (handleContainerExec re sv)) = sv_proxyMgr sv"
  "sv_proxyMgr (snd (handleContainerCommit mi rc sv)) = sv_proxyMgr sv"
  by (auto simp: handleContainerStop_def handleContainerDestroy_def handleContainerExec_def handleContainerCommit_def
      with_lifecycle_def set_world_def split: if_splits option.splits sum.splits prod.splits)

lemma serve_route_manager:
  assumes "serve_route e pr rt m sv = Some (rep, sv')" and "rt \<noteq> StartRoute"
  shows "sv_proxyMgr sv' = sv_proxyMgr sv"
proof -
  have "map_option (\<lambda>x. sv_proxyMgr (snd x)) (serve_route e pr rt m sv) = map_option (\<lambda>x. sv_proxyMgr sv) (serve_route e pr rt m sv)"
    using assms(2) by (cases rt) (simp_all add: serve_route_def Let_def handlers_keep_manager option.map_comp o_def split_beta)
  then show ?thesis by (simp add: assms(1))
qed

text \<open>The isolator stays, so that everything started is isolated.\<close>

lemma sys_run_isolating: "sys_run pr sv0 sv L A \<Longrightarrow> isolating sv0 \<Longrightarrow> isolating sv"
proof (induction rule: sys_run.induct)
  case (sys_http sv L A e m rep sv')
  show ?case
  proof (cases "sv' = sv")
    case False
    then obtain rt where s: "serve_route e pr rt m sv = Some (rep, sv')"
      using sys_http.hyps(2) by (auto simp: Server_ServeHTTP_def Let_def split: if_splits option.splits)
    show ?thesis
    proof (cases "rt = StartRoute")
      case True
      with s obtain r q where "handleContainerStart (ro_server e) q sv = Some (r, sv')" by (auto simp: serve_route_def Let_def)
      then show ?thesis using start_keeps_isolating sys_http by blast
    qed (use serve_route_manager [OF s] sys_http in \<open>simp add: isolating_def\<close>)
  qed (use sys_http in simp)
next
  case (sys_task sv L A i env sv')
  then show ?case using task_keeps_isolating by blast
qed (auto simp: isolating_def elim!: serve_trafficD)

text \<open>
  C4: a daemon that was started by \<open>misbah daemon start\<close> isolates every container it starts: in every
  state of every run, with requests, goroutines and traffic in any order, a container that is about
  to be launched has a proxy and a network namespace of its own, proxies and namespaces exist
  exactly for the goroutines under way, and whatever comes over the socket next is answered without
  a panic.
\<close>

theorem system_isolates:
  assumes "boot_daemon env path h = (Inr (sv0, pr), h1)" and "sys_run pr sv0 sv L A"
  shows "(\<exists>pm ni n. sv_proxyMgr sv = Some pm \<and> pm_isolator pm = Some (ni, n) \<and>
      dom (ni_netns ni) = task_name ` set (sv_tasks sv) \<and> dom (pm_proxies pm) = task_name ` set (sv_tasks sv) \<and>
      (\<forall>spec. TLaunch spec \<in> set (sv_tasks sv) \<longrightarrow> (\<exists>a. pm_addrs pm (spec_name spec) = Some a \<and> knows_proxy sv a spec))) \<and>
    (\<forall>(e :: (unit, 'k) route_env) m. Server_ServeHTTP e pr m sv \<noteq> None)"
proof -
  have ok: "server_ok sv" by (rule sys_run_ok [OF assms(2)]) (use booted_ok [OF assms(1)] in simp)
  moreover have "isolating sv" by (rule sys_run_isolating [OF assms(2)]) (use booted_ok [OF assms(1)] in simp)
  moreover have "Server_ServeHTTP e pr m sv \<noteq> None" for e :: "(unit, 'k) route_env" and m
  proof -
    have "serve_route e pr rt m sv \<noteq> None" for rt using serve_route_ok [OF ok, of e pr rt m] by force
    then show ?thesis by (simp add: Server_ServeHTTP_def Let_def split: option.split)
  qed
  ultimately show ?thesis using isolated_state [of sv] by blast
qed

section \<open>Everything granted is grounded\<close>

text \<open>The cache of a container's proxy, empty when it has none.\<close>

definition sv_cache :: "('p, 's, 'k) Server \<Rightarrow> string \<Rightarrow> cache" where
  "sv_cache sv c =
     (case sv_proxyMgr sv of
        None \<Rightarrow> Map.empty
      | Some pm \<Rightarrow> (case pm_proxies pm c of None \<Rightarrow> Map.empty | Some mp \<Rightarrow> np_cache (mp_proxy mp)))"

definition sys_grounded :: "string set \<Rightarrow> ('p, 's, 'k) Server \<Rightarrow> bool" where
  "sys_grounded G sv \<longleftrightarrow>
     (\<forall>k. sv_rules sv k = Some DecisionAlways \<longrightarrow> k \<in> G) \<and>
     (\<forall>c i d. sv_cache sv c i = Some d \<longrightarrow> final d \<and> (d = DecisionAlways \<longrightarrow> ruleKey ResourceNetwork i \<in> G))"

lemma sys_groundedD:
  assumes "sys_grounded G sv"
  shows "sv_rules sv k = Some DecisionAlways \<Longrightarrow> k \<in> G"
    and "sv_cache sv c i = Some d \<Longrightarrow> final d \<and> (d = DecisionAlways \<longrightarrow> ruleKey ResourceNetwork i \<in> G)"
  using assms by (auto simp: sys_grounded_def)

text \<open>A step that adds ALWAYS rules for new keys only and drops proxies or makes new ones.\<close>

lemma sys_grounded_step:
  assumes "sys_grounded G sv" and "\<And>k. sv_rules sv' k = Some DecisionAlways \<Longrightarrow> sv_rules sv k \<noteq> Some DecisionAlways \<Longrightarrow> k \<in> H"
    and "\<And>c. sv_cache sv' c = sv_cache sv c \<or> sv_cache sv' c = Map.empty"
  shows "sys_grounded (G \<union> H) sv'"
  unfolding sys_grounded_def
proof (intro conjI allI impI)
  show "k \<in> G \<union> H" if "sv_rules sv' k = Some DecisionAlways" for k
    using that assms(2) sys_groundedD(1) [OF assms(1)] by blast
  show "final d" "d = DecisionAlways \<Longrightarrow> ruleKey ResourceNetwork i \<in> G \<union> H" if "sv_cache sv' c i = Some d" for c i d
    using that assms(3) [of c] sys_groundedD(2) [OF assms(1), of c i d] by auto
qed

lemma Start_caches:
  "ProxyManager_Start nk v6 listen n pm = (r, pm') \<Longrightarrow>
   pm_proxies pm' c = pm_proxies pm c \<or> (\<exists>mp. pm_proxies pm' c = Some mp \<and> np_cache (mp_proxy mp) = Map.empty)"
  by (auto simp: ProxyManager_Start_def NewNetworkProxy_def shutdown_def Let_def split: if_splits option.splits sum.splits prod.splits)

lemma Stop_caches: "pm_proxies (snd (ProxyManager_Stop nk n pm)) c = pm_proxies pm c \<or> pm_proxies (snd (ProxyManager_Stop nk n pm)) c = None"
  by (simp add: ProxyManager_Stop_def shutdown_def split: option.splits)

lemma inject_proxy_caches:
  "inject_proxy env spec sv = (r, sv') \<Longrightarrow> sv_cache sv' c = sv_cache sv c \<or> sv_cache sv' c = Map.empty"
  by (auto simp: inject_proxy_def sv_cache_def split: option.splits prod.splits sum.splits dest!: Start_caches [of _ _ _ _ _ _ _ c])

lemma sv_cache_cong: "sv_proxyMgr sv' = sv_proxyMgr sv \<Longrightarrow> sv_cache sv' = sv_cache sv"
  by (simp add: sv_cache_def fun_eq_iff)

lemma run_task_caches:
  assumes "run_task env i sv = Some sv'"
  shows "sv_rules sv' = sv_rules sv \<and> (sv_cache sv' c = sv_cache sv c \<or> sv_cache sv' c = Map.empty)"
  using assms
proof (cases "sv_tasks sv ! i")
  case (TStopProxy n)
  show ?thesis
  proof (cases "sv_proxyMgr sv")
    case (Some pm)
    with assms TStopProxy Stop_caches [of "se_kernel env" n pm c] show ?thesis
      by (elim disjE) (auto simp: run_task_def sv_cache_def)
  qed (use assms TStopProxy in \<open>auto simp: run_task_def sv_cache_def\<close>)
qed (auto simp: run_task_def publish_def set_world_def sv_cache_def split: option.splits lifecycle_error.splits prod.splits)

lemma handleContainerStart_caches:
  assumes "handleContainerStart env r sv = Some (rep, sv')"
  shows "sv_cache sv' c = sv_cache sv c \<or> sv_cache sv' c = Map.empty"
proof (cases "sv' = sv")
  case False
  let ?w = "\<lambda>spec. sv\<lparr>sv_broker := (sv_broker sv)\<lparr>bk_whitelist := wl_LoadFromSpec spec (bk_whitelist (sv_broker sv))\<rparr>\<rparr>"
  obtain spec x sv2 where i: "inject_proxy env spec (?w spec) = (x, sv2)" and "sv_proxyMgr sv' = sv_proxyMgr sv2"
    using assms False by (auto simp: handleContainerStart_def with_lifecycle_def Let_def publish_def
        split: if_splits option.splits sum.splits prod.splits)
  then have "sv_cache sv' = sv_cache sv2" by (intro sv_cache_cong)
  moreover have "sv_cache (?w spec) = sv_cache sv" by (rule sv_cache_cong) simp
  ultimately show ?thesis using inject_proxy_caches [OF i, of c] by simp
qed simp

lemma ServeHTTP_caches:
  assumes "Server_ServeHTTP e pr m sv = Some (rep, sv')"
  shows "sv_cache sv' c = sv_cache sv c \<or> sv_cache sv' c = Map.empty"
proof (cases "sv' = sv")
  case False
  then obtain rt where s: "serve_route e pr rt m sv = Some (rep, sv')"
    using assms by (auto simp: Server_ServeHTTP_def Let_def split: if_splits option.splits)
  show ?thesis
  proof (cases "rt = StartRoute")
    case True
    with s show ?thesis by (auto simp: serve_route_def Let_def dest!: handleContainerStart_caches [of _ _ _ _ _ c])
  qed (use sv_cache_cong [OF serve_route_manager [OF s]] in simp)
qed simp

lemma ServeHTTP_grounded:
  assumes "sys_grounded G sv" and "Server_ServeHTTP e pr m sv = Some (rep, sv')"
  shows "sys_grounded (G \<union> (listed_keys e m \<union> (case carried_request e m of None \<Rightarrow> {} | Some req \<Rightarrow> consented pr req sv))) sv'"
proof (rule sys_grounded_step [OF assms(1) _ ServeHTTP_caches [OF assms(2)]])
  fix k
  assume a: "sv_rules sv' k = Some DecisionAlways" and "sv_rules sv k \<noteq> Some DecisionAlways"
  then have "sv_rules sv' k \<noteq> sv_rules sv k" by simp
  from rules_changed [OF assms(2) this] a
  show "k \<in> listed_keys e m \<union> (case carried_request e m of None \<Rightarrow> {} | Some req \<Rightarrow> consented pr req sv)"
    by (auto simp: consented_def)
qed

lemma final_once: "final d \<Longrightarrow> d \<noteq> DecisionOnce"
  by (auto simp: final_def DecisionOnce_def DecisionAlways_def DecisionDeny_def)

text \<open>
  What a request through a proxy does to the rules and the cache, and what has to be there for
  anything to leave the host.
\<close>

lemma mediated_request:
  assumes "NetworkProxy_ServeHTTP (direct_checker pr y) nenv r p b = (rep, out, p', b')"
    and rules: "\<And>k. bk_rules b k = Some DecisionAlways \<Longrightarrow> k \<in> G"
    and cache: "\<And>i d. np_cache p i = Some d \<Longrightarrow> final d \<and> (d = DecisionAlways \<longrightarrow> ruleKey ResourceNetwork i \<in> G)"
    and H: "\<And>k. k = ruleKey ResourceNetwork (checked_domain r) \<Longrightarrow>
      fst (pr (network_request (np_container p) (checked_domain r)) (bk_prompt b)) = (None, DecisionAlways) \<Longrightarrow> k \<in> G"
  shows "(bk_rules b' k = Some DecisionAlways \<longrightarrow> k \<in> G) \<and>
    (np_cache p' i = Some d \<longrightarrow> final d \<and> (d = DecisionAlways \<longrightarrow> ruleKey ResourceNetwork i \<in> G)) \<and>
    (out \<noteq> [] \<longrightarrow> ruleKey ResourceNetwork (checked_domain r) \<in> G \<or>
      fst (pr (network_request (np_container p) (checked_domain r)) (bk_prompt b)) = (None, DecisionOnce))"
proof -
  let ?mk = "network_request (np_container p)" and ?i = "checked_domain r"
  obtain e d0 where ck: "NetworkProxy_checkPermission (direct_checker pr y) ?i p b = ((e, d0), p', b')"
    and out: "out \<noteq> [] \<longrightarrow> e = None \<and> grants d0"
    using ServeHTTP_checks [OF assms(1)] by blast
  have cc: "direct.check_cached pr y ?mk ?i (np_cache p) b = ((e, d0), np_cache p', b')"
    using checkPermission_cached [OF ck] by simp
  have new: "k \<in> G" if "bk_rules (snd (DirectChecker_Request pr y (?mk ?i) b)) k = Some DecisionAlways" for k
    using that Request_rule_change [of pr y "?mk ?i" b k] rules [of k] H [of k]
    by (cases "bk_rules b k = Some DecisionAlways") auto
  show ?thesis using cc
  proof (cases rule: direct.check_cached_cases)
    case hit
    then show ?thesis using rules cache [of i d] cache [of ?i d0] out final_once grants_final by metis
  next
    case check_failed
    then show ?thesis using rules cache [of i d] out by simp
  next
    case known
    then show ?thesis using rules [of k] rules [of "ruleKey ResourceNetwork ?i"] cache [of i d] out grants_final [of d0] by auto
  next
    case request_failed
    then show ?thesis using new cache [of i d] out by simp
  next
    case (asked q)
    have k: "ruleKey ResourceNetwork ?i \<in> G" if "final d0" "d0 = DecisionAlways"
      using new direct.Request_files_final [OF asked(3)] asked(4,5) that by simp
    have "ruleKey ResourceNetwork ?i \<in> G \<or> fst (pr (?mk ?i) (bk_prompt b)) = (None, DecisionOnce)" if "grants d0"
      using grant_consent [OF asked(3)] that asked(4) rules [of "ruleKey ResourceNetwork ?i"] H [OF refl] by (auto simp: grants_def)
    then show ?thesis using asked new k cache [of i d] out by auto
  qed
qed

lemma traffic_grounded:
  assumes "sys_grounded G sv" and "server_ok sv" and "serve_traffic pr y nenv c r sv = Some (rep, out, sv')"
  shows "sys_grounded (G \<union> consented pr (traffic_request c r) sv) sv' \<and>
    (out \<noteq> [] \<longrightarrow> ruleKey ResourceNetwork (checked_domain r) \<in> G \<union> consented pr (traffic_request c r) sv \<or>
      fst (pr (traffic_request c r) (bk_prompt (sv_broker sv))) = (None, DecisionOnce))"
proof (rule serve_trafficD [OF assms(3)])
  fix pm mp p' b'
  assume pm: "sv_proxyMgr sv = Some pm" "pm_proxies pm c = Some mp"
    and s: "NetworkProxy_ServeHTTP (direct_checker pr y) nenv r (mp_proxy mp) (sv_broker sv) = (rep, out, p', b')"
    and sv': "sv' = sv\<lparr>sv_broker := b', sv_proxyMgr := Some (pm\<lparr>pm_proxies := (pm_proxies pm)(c \<mapsto> mp\<lparr>mp_proxy := p'\<rparr>)\<rparr>)\<rparr>"
  let ?G = "G \<union> consented pr (traffic_request c r) sv"
  have c: "np_container (mp_proxy mp) = c" using assms(2) pm by (auto simp: server_ok_def flight_ok_def pm_ok_def)
  have cache: "sv_cache sv c = np_cache (mp_proxy mp)" by (simp add: sv_cache_def pm)
  have cache': "sv_cache sv' = (sv_cache sv)(c := np_cache p')" by (auto simp: sv_cache_def pm sv')
  note D = sys_groundedD [OF assms(1)]
  have M: "(bk_rules b' k = Some DecisionAlways \<longrightarrow> k \<in> ?G) \<and>
      (np_cache p' i = Some d \<longrightarrow> final d \<and> (d = DecisionAlways \<longrightarrow> ruleKey ResourceNetwork i \<in> ?G)) \<and>
      (out \<noteq> [] \<longrightarrow> ruleKey ResourceNetwork (checked_domain r) \<in> ?G \<or>
        fst (pr (network_request (np_container (mp_proxy mp)) (checked_domain r)) (bk_prompt (sv_broker sv))) = (None, DecisionOnce))" for k i d
    by (rule mediated_request [OF s]) (use D(1) D(2) [of c] in \<open>auto simp: cache c consented_def traffic_request_def\<close>)
  have "sys_grounded ?G sv'"
    using M D(2) by (auto simp: sys_grounded_def sv' cache' [unfolded sv'] split: if_splits)
  with M show ?thesis by (simp add: c traffic_request_def)
qed

lemma sys_run_grounded:
  assumes "sys_run pr sv0 sv L A" and "sys_grounded G sv0" and "server_ok sv0"
  shows "sys_grounded (G \<union> L \<union> A) sv"
  using assms
proof (induction rule: sys_run.induct)
  case (sys_http sv L A e m rep sv')
  from ServeHTTP_grounded [OF sys_http.IH [OF sys_http.prems] sys_http.hyps(2)] show ?case by (simp add: ac_simps)
next
  case (sys_task sv L A i env sv')
  note sys_grounded_step [OF sys_task.IH [OF sys_task.prems], of sv' "{}"]
  with run_task_caches [OF sys_task.hyps(3)] show ?case by simp
next
  case (sys_events sv L A op b)
  then show ?case by (simp add: sys_grounded_def sv_cache_def)
next
  case (sys_traffic sv L A y nenv c r rep out sv')
  from traffic_grounded [OF sys_traffic.IH [OF sys_traffic.prems] sys_run_ok [OF sys_traffic.hyps(1) sys_traffic.prems(2)] sys_traffic.hyps(2)]
  show ?case by (simp add: Un_assoc)
qed simp

lemma booted_rules:
  assumes "boot_daemon env path h = (Inr (sv0, pr), h1)"
  obtains cfg where "LoadDaemonConfig (bo_daemonYaml env) path h = Inr cfg" and "pr = daemon_prompter cfg"
    and "sv_rules sv0 = wl_rules (snd (wl_Load (bo_whitelistYaml env) (NewWhitelistStore (ps_Whitelist (dc_Permissions cfg))) h))"
    and "sv_cache sv0 = (\<lambda>c. Map.empty)"
proof (rule boot_daemonD [OF assms])
  fix cfg b lc be vc
  assume c: "LoadDaemonConfig (bo_daemonYaml env) path h = Inr cfg" "pr = daemon_prompter cfg"
    and sv0: "sv0 = NewServer b lc be (Some (NewProxyManager (Some (NewNetworkIsolator (dc_Network cfg), bo_net env)))) vc (dm_Socket (dc_Daemon cfg))"
    and w: "bk_whitelist b = snd (wl_Load (bo_whitelistYaml env) (NewWhitelistStore (ps_Whitelist (dc_Permissions cfg))) h)"
  have "sv_cache sv0 = (\<lambda>c. Map.empty)" by (simp add: sv0 sv_cache_def NewServer_def NewProxyManager_def fun_eq_iff)
  moreover have "sv_rules sv0 = wl_rules (bk_whitelist b)" by (simp add: sv0 NewServer_def)
  ultimately show thesis using that c w by simp
qed

lemma booted_grounded:
  assumes "boot_daemon env path h = (Inr (sv0, pr), h1)"
  shows "sys_grounded {k. sv_rules sv0 k = Some DecisionAlways} sv0"
  by (rule booted_rules [OF assms]) (simp add: sys_grounded_def)

section \<open>What leaves the host\<close>

text \<open>
  C1: end to end, for a daemon that \<open>misbah daemon start\<close> put together and any run of it with any
  requests on its socket, any scheduling of its goroutines and any traffic of its containers:
  if a container's request leaves the host, then its domain had an ALWAYS rule when the daemon
  started, or was listed by a specification that somebody sent to the daemon, or the user
  consented to it, for good at some time of the run or now to this very request.
\<close>

theorem traffic_needs_consent:
  assumes "boot_daemon env path h = (Inr (sv0, pr), h1)" and "sys_run pr sv0 sv L A"
    and "serve_traffic pr y nenv c r sv = Some (rep, out, sv')" and "out \<noteq> []"
  shows "ruleKey ResourceNetwork (checked_domain r) \<in> {k. sv_rules sv0 k = Some DecisionAlways} \<union> L \<union> A \<or>
    fst (pr (traffic_request c r) (bk_prompt (sv_broker sv))) \<in> {(None, DecisionAlways), (None, DecisionOnce)}"
proof -
  have ok0: "server_ok sv0" using booted_ok [OF assms(1)] by simp
  note g = sys_run_grounded [OF assms(2) booted_grounded [OF assms(1)] ok0]
  from traffic_grounded [OF g sys_run_ok [OF assms(2) ok0] assms(3)] assms(4) show ?thesis
    by (auto simp: consented_def split: if_splits)
qed

lemma deny_no_consent: "consented AutoDenyPrompter_Prompt req sv = {}"
  by (simp add: consented_def AutoDenyPrompter_Prompt_def DecisionDeny_def DecisionAlways_def)

lemma deny_run_no_consent: "sys_run AutoDenyPrompter_Prompt sv0 sv L A \<Longrightarrow> A = {}"
  by (induction rule: sys_run.induct) (auto simp: deny_no_consent split: option.splits)

text \<open>
  C12: a daemon that is configured as non-interactive lets its containers reach only what was listed:
  the domain of any request that leaves the host has an ALWAYS in the whitelist file as it was
  when the daemon started, or in a specification that was sent to the daemon since.
\<close>

theorem noninteractive_reaches_listed_only:
  assumes "LoadDaemonConfig (bo_daemonYaml env) path h = Inr cfg" and "dm_NonInteractive (dc_Daemon cfg)"
    and "boot_daemon env path h = (Inr (sv0, pr), h1)" and "sys_run pr sv0 sv L A"
    and "serve_traffic pr y nenv c r sv = Some (rep, out, sv')" and "out \<noteq> []"
  shows "wl_rules (snd (wl_Load (bo_whitelistYaml env) (NewWhitelistStore (ps_Whitelist (dc_Permissions cfg))) h))
      (ruleKey ResourceNetwork (checked_domain r)) = Some DecisionAlways \<or>
    ruleKey ResourceNetwork (checked_domain r) \<in> L"
proof (rule booted_rules [OF assms(3)])
  fix cfg'
  assume c: "LoadDaemonConfig (bo_daemonYaml env) path h = Inr cfg'" and p: "pr = daemon_prompter cfg'"
    and w: "sv_rules sv0 = wl_rules (snd (wl_Load (bo_whitelistYaml env) (NewWhitelistStore (ps_Whitelist (dc_Permissions cfg'))) h))"
  have cfg: "cfg' = cfg" using c assms(1) by simp
  have pr: "pr = AutoDenyPrompter_Prompt" using p assms(2) by (simp add: cfg daemon_prompter_def)
  have ok0: "server_ok sv0" using booted_ok [OF assms(3)] by simp
  have "A = {}" using deny_run_no_consent assms(4) unfolding pr by blast
  with sys_run_grounded [OF assms(4) booted_grounded [OF assms(3)] ok0]
  have "sys_grounded ({k. sv_rules sv0 k = Some DecisionAlways} \<union> L) sv" by simp
  from traffic_grounded [OF this sys_run_ok [OF assms(4) ok0] assms(5)] assms(6) show ?thesis
    by (auto simp: pr deny_no_consent w cfg AutoDenyPrompter_Prompt_def DecisionDeny_def DecisionOnce_def)
qed

text \<open>
  Nothing that the daemon does creates a log or registers an overlay: in every run of a booted daemon
  the calls for logs, changes and commits report an error, whatever container they name.
\<close>

lemma serve_route_stores:
  fixes e :: "('c, 'k) route_env"
  assumes "serve_route e pr rt m sv = Some (rep, sv')"
  shows "sv_logs sv' = sv_logs sv \<and> sv_overlays sv' = sv_overlays sv"
proof (cases "rt = StartRoute")
  case True
  then show ?thesis using assms
    by (auto simp: serve_route_def Let_def handleContainerStart_def with_lifecycle_def publish_def inject_proxy_def
        split: if_splits option.splits sum.splits prod.splits)
next
  case False
  have h: "sv_logs (snd (handleContainerStop env rs sv)) = sv_logs sv \<and> sv_overlays (snd (handleContainerStop env rs sv)) = sv_overlays sv"
    "sv_logs (snd (handleContainerDestroy rd sv)) = sv_logs sv \<and> sv_overlays (snd (handleContainerDestroy rd sv)) = sv_overlays sv"
    "sv_logs (snd (handleContainerExec re sv)) = sv_logs sv \<and> sv_overlays (snd (handleContainerExec re sv)) = sv_overlays sv"
    "sv_logs (snd (handleContainerCommit mi rc sv)) = sv_logs sv \<and> sv_overlays (snd (handleContainerCommit mi rc sv)) = sv_overlays sv"
    for env rs rd re rc and mi :: "'c mirage"
    by (auto simp: handleContainerStop_def handleContainerDestroy_def handleContainerExec_def handleContainerCommit_def
        with_lifecycle_def set_world_def split: if_splits option.splits sum.splits prod.splits)
  have "map_option (\<lambda>x. (sv_logs (snd x), sv_overlays (snd x))) (serve_route e pr rt m sv) =
      map_option (\<lambda>x. (sv_logs sv, sv_overlays sv)) (serve_route e pr rt m sv)"
    using False by (cases rt) (simp_all add: serve_route_def Let_def h option.map_comp o_def split_beta)
  then show ?thesis by (simp add: assms)
qed

lemma sys_run_stores:
  "sys_run pr sv0 sv L A \<Longrightarrow> sv_logs sv = sv_logs sv0 \<and> sv_overlays sv = sv_overlays sv0"
proof (induction rule: sys_run.induct)
  case (sys_http sv L A e m rep sv')
  then show ?case using serve_route_stores [of e pr _ m sv rep sv']
    by (auto simp: Server_ServeHTTP_def Let_def split: if_splits option.splits)
next
  case (sys_task sv L A i env sv')
  then show ?case by (auto simp: run_task_def publish_def set_world_def split: task.splits option.splits lifecycle_error.splits prod.splits)
qed (auto elim!: serve_trafficD)

lemma logs_and_changes_unavailable:
  assumes "boot_daemon env path h = (Inr (sv0, pr), h1)" and "sys_run pr sv0 sv L A"
  shows "(\<exists>e. Misbah_Logs tr name sv = Inl e) \<and> (\<exists>e. Misbah_Diff tr mi wire name sv = Inl e) \<and>
    (\<exists>e. fst (Misbah_Commit tr mi name paths sv) = Inl e)"
proof -
  have "sv_logs sv0 = NewLogStore \<and> sv_overlays sv0 = NewOverlayStore"
    by (rule boot_daemonD [OF assms(1)]) (simp add: NewServer_def)
  with sys_run_stores [OF assms(2)] have s: "sv_logs sv = NewLogStore" "sv_overlays sv = NewOverlayStore" by simp_all
  have "\<exists>e. Misbah_Logs tr name sv = Inl e"
    by (auto simp: Misbah_Logs_def Client_ContainerLogs_def getJSON_def client_answer_def handleContainerLogs_def LogStore_Get_def NewLogStore_def s Let_def
        split: url_outcome.splits option.splits)
  moreover have "\<exists>e. Misbah_Diff tr mi wire name sv = Inl e"
    by (auto simp: Misbah_Diff_def Client_ContainerDiff_def postAny_def reading_def client_answer_def handleContainerDiff_def OverlayStore_Diff_def NewOverlayStore_def s
        split: option.splits)
  moreover have "\<exists>e. fst (Misbah_Commit tr mi name paths sv) = Inl e"
    by (auto simp: Misbah_Commit_def Client_ContainerCommit_def postAny_def client_answer_def handleContainerCommit_def OverlayStore_Commit_def NewOverlayStore_def s
        split: option.splits)
  ultimately show ?thesis by simp
qed

section \<open>Concrete runs\<close>

text \<open>A daemon on the default network, a container that is started on it over the socket, and its proxy.\<close>

lemma ws_http:
  fixes sv0 :: "('p, 's, string set) Server"
  assumes sv0: "sv0 = NewServer b (Some lc) be (Some (NewProxyManager (Some (NewNetworkIsolator default_network, demo_net)))) vc a"
    and ws: "spec_name ws = ''ws''" "spec_Runtime ws \<noteq> RuntimeKata"
  obtains sv spec rep rep' where "handleContainerStart daemon_env \<lparr>hr_Method = ''POST'', hr_Body = Inr (Some ws)\<rparr> sv0 = Some (rep, sv)"
    and "sv_tasks sv = [TLaunch spec]" and "spec_name spec = ''ws''"
    and "Server_ServeHTTP (demo_route_env ws daemon_env) pr (message ''/container/start'') sv0 = Some (rep', sv)"
proof -
  let ?e = "demo_route_env ws daemon_env" and ?m = "message ''/container/start''"
    and ?r = "\<lparr>hr_Method = ''POST'', hr_Body = Inr (Some ws)\<rparr>"
  obtain sv spec rep where s: "handleContainerStart daemon_env ?r sv0 = Some (rep, sv)"
    and t: "sv_tasks sv = [TLaunch spec]" "spec_name spec = ''ws''"
    using default_network_start [OF sv0 ws] by blast
  have p: "mux_clean ''/container/start'' = ''/container/start''" by code_simp
  have r: "post ?m (map_sum id csr_Spec \<circ> mc_start (ro_codec ?e)) = ?r"
    by (simp add: post_def message_def demo_route_env_def demo_codec_messages_def)
  have e: "ro_server ?e = daemon_env" by (simp add: demo_route_env_def)
  have "\<exists>rep'. Server_ServeHTTP ?e pr ?m sv0 = Some (rep', sv)"
    using s r by (simp add: Server_ServeHTTP_def message_def p routes_def serve_route_def Let_def e)
  with s t that show thesis by blast
qed

lemma ws_started:
  fixes sv0 :: "('p, 's, string set) Server"
  assumes sv0: "sv0 = NewServer b (Some lc) be (Some (NewProxyManager (Some (NewNetworkIsolator default_network, demo_net)))) vc a"
    and ws: "spec_name ws = ''ws''" "spec_Runtime ws \<noteq> RuntimeKata"
  obtains sv pm mp where "sys_run pr sv0 sv (spec_keys ws) {}" and "sv_proxyMgr sv = Some pm" and "pm_proxies pm ''ws'' = Some mp"
    and "np_cache (mp_proxy mp) = Map.empty" and "bk_rules (sv_broker sv) = wl_rules (wl_LoadFromSpec ws (bk_whitelist b))"
    and "bk_prompt (sv_broker sv) = bk_prompt b"
proof -
  let ?e = "demo_route_env ws daemon_env" and ?m = "message ''/container/start''"
  obtain sv spec rep rep' where s: "handleContainerStart daemon_env \<lparr>hr_Method = ''POST'', hr_Body = Inr (Some ws)\<rparr> sv0 = Some (rep, sv)"
    and t: "sv_tasks sv = [TLaunch spec]" "spec_name spec = ''ws''" and h: "Server_ServeHTTP ?e pr ?m sv0 = Some (rep', sv)"
    by (rule ws_http [OF assms])
  have k: "listed_keys ?e ?m = spec_keys ws" "carried_request ?e ?m = None"
    by (simp_all add: listed_keys_def carried_request_def message_def demo_route_env_def demo_codec_messages_def)
  from sys_http [OF sys_begin h] have run: "sys_run pr sv0 sv (spec_keys ws) {}" by (simp add: k)
  have "server_ok sv0" unfolding sv0
    by (rule NewServer_ok) (use boot_manager_ok in \<open>auto simp: NewProxyManager_def\<close>)
  then have ok: "server_ok sv" by (rule sys_run_ok [OF run])
  have "sv_proxyMgr sv \<noteq> None" using s
    by (auto simp: sv0 handleContainerStart_def with_lifecycle_def NewServer_def inject_proxy_def publish_def Let_def
        split: option.splits prod.splits sum.splits)
  then obtain pm where pm: "sv_proxyMgr sv = Some pm" by blast
  then obtain mp where mp: "pm_proxies pm ''ws'' = Some mp" using ok t by (auto simp: server_ok_def flight_ok_def pm_addrs_def)
  have "sv_cache sv ''ws'' = Map.empty"
    using ServeHTTP_caches [OF h, of "''ws''"] by (auto simp: sv0 sv_cache_def NewServer_def NewProxyManager_def)
  then have cache: "np_cache (mp_proxy mp) = Map.empty" by (simp add: sv_cache_def pm mp)
  have "sv_broker sv = b\<lparr>bk_whitelist := wl_LoadFromSpec ws (bk_whitelist b)\<rparr>"
    using s by (auto simp: sv0 handleContainerStart_def with_lifecycle_def NewServer_def Let_def
        dest!: inject_proxy_broker publish_broker split: option.splits sum.splits prod.splits)
  with that run pm mp cache show thesis by simp
qed

text \<open>A boot whose surroundings are those of \<open>demo_boot\<close> but for the configuration and the terminal.\<close>

lemma demo_booted:
  assumes "LoadDaemonConfig (bo_daemonYaml env) path h = Inr cfg" and "dc_Network cfg = default_network"
    and "NewAuditLogger (ps_AuditLog (dc_Permissions cfg)) h = (Inr al, h1)" and "bo_client env = bo_client demo_boot" and "bo_net env = demo_net"
  obtains b lc be vc a where "boot_daemon env path h =
      (Inr (NewServer b (Some lc) be (Some (NewProxyManager (Some (NewNetworkIsolator default_network, demo_net)))) vc a, daemon_prompter cfg), h1)"
    and "bk_prompt b = bo_stdin env"
    and "bk_whitelist b = snd (wl_Load (bo_whitelistYaml env) (NewWhitelistStore (ps_Whitelist (dc_Permissions cfg))) h)"
  using assms that by (auto simp: boot_daemon_def Let_def daemon_lifecycle_def NewBackend_def demo_boot_def split: prod.splits sum.splits)

lemma demo_audit:
  obtains al h1 where "NewAuditLogger (ps_AuditLog (dc_Permissions (applyDaemonEnvOverrides demo_host (DefaultDaemonConfig demo_host)))) demo_host = (Inr al, h1)"
proof -
  have "dir_path (GetAuditLogPath demo_host) \<noteq> GetAuditLogPath demo_host" by code_simp
  with that show thesis
    by (auto simp: applyDaemonEnvOverrides_def DefaultDaemonConfig_def NewAuditLogger_def os_mkdir_all_def os_open_append_def)
qed

lemma demo_boot_booted:
  obtains b lc be vc a pr h1 where "boot_daemon demo_boot [] demo_host =
      (Inr (NewServer b (Some lc) be (Some (NewProxyManager (Some (NewNetworkIsolator default_network, demo_net)))) vc a, pr), h1)"
proof -
  define cfg where "cfg = applyDaemonEnvOverrides demo_host (DefaultDaemonConfig demo_host)"
  have c: "LoadDaemonConfig (bo_daemonYaml demo_boot) [] demo_host = Inr cfg"
    by (simp add: LoadDaemonConfig_def os_read_file_def is_not_exist_def cfg_def)
  have net: "dc_Network cfg = default_network"
    by (simp add: cfg_def applyDaemonEnvOverrides_def DefaultDaemonConfig_def default_network_def)
  obtain al h1 where al: "NewAuditLogger (ps_AuditLog (dc_Permissions cfg)) demo_host = (Inr al, h1)"
    unfolding cfg_def by (rule demo_audit)
  show thesis by (rule demo_booted [OF c net al]) (use that in simp_all)
qed

theorem system_isolates_witness:
  "\<exists>sv0 (sv :: (reader, unit Backend, string set) Server) pr h1 pm ni n. boot_daemon demo_boot [] demo_host = (Inr (sv0, pr), h1) \<and>
     sys_run pr sv0 sv (spec_keys ws_spec) {} \<and> sv_proxyMgr sv = Some pm \<and> pm_isolator pm = Some (ni, n) \<and> ni_netns ni ''ws'' \<noteq> None"
proof -
  obtain b lc be vc a pr h1 where boot: "boot_daemon demo_boot [] demo_host =
      (Inr (NewServer b (Some lc) be (Some (NewProxyManager (Some (NewNetworkIsolator default_network, demo_net)))) vc a, pr), h1)"
    by (rule demo_boot_booted)
  let ?sv0 = "NewServer b (Some lc) be (Some (NewProxyManager (Some (NewNetworkIsolator default_network, demo_net)))) vc a"
  have ws: "spec_name ws_spec = ''ws''" "spec_Runtime ws_spec \<noteq> RuntimeKata"
    by (simp_all add: ws_spec_def demo_spec_def RuntimeKata_def)
  obtain sv pm mp where run: "sys_run pr ?sv0 sv (spec_keys ws_spec) {}" and pm: "sv_proxyMgr sv = Some pm" "pm_proxies pm ''ws'' = Some mp"
    by (rule ws_started [OF refl [of ?sv0] ws, where pr = pr])
  from system_isolates [OF boot run] pm obtain ni n where i: "pm_isolator pm = Some (ni, n)" "dom (ni_netns ni) = dom (pm_proxies pm)" by auto
  have "''ws'' \<in> dom (ni_netns ni)" unfolding i(2) using pm(2) by blast
  then show ?thesis using boot run pm(1) i(1) by blast
qed

text \<open>The user says \<open>o\<close> to the first question.\<close>

definition once_boot :: "(unit, string set) boot_env" where
  "once_boot = demo_boot\<lparr>bo_stdin := typed_input [''o'' @ [CHR 0x0A]]\<rparr>"

lemma served_when_granted:
  assumes "sv_proxyMgr sv = Some pm" and "pm_proxies pm c = Some mp"
    and "NetworkProxy_checkPermission (direct_checker pr y) (checked_domain r) (mp_proxy mp) (sv_broker sv) = ((None, d), p', b')" and "grants d"
    and "r \<in> {demo_get, listed_get}"
  obtains rep out sv' where "serve_traffic pr y demo_env c r sv = Some (rep, out, sv')" and "out \<noteq> []"
proof -
  obtain rep out p1 b1 where s: "NetworkProxy_ServeHTTP (direct_checker pr y) demo_env r (mp_proxy mp) (sv_broker sv) = (rep, out, p1, b1)"
    by (metis prod_cases4)
  have m: "pr_Method r \<noteq> ''CONNECT''" "pr_Host r \<noteq> []" using assms(5) by (auto simp: demo_get_def listed_get_def)
  have "out \<noteq> []" using s assms(3,4) m
    by (auto simp: NetworkProxy_ServeHTTP_def handleHTTP_def checked_domain_def Let_def demo_env_def grants_def split: prod.splits if_splits)
  moreover have "\<exists>sv'. serve_traffic pr y demo_env c r sv = Some (rep, out, sv')" using assms(1,2) s by (simp add: serve_traffic_def)
  ultimately show thesis using that by blast
qed

theorem traffic_needs_consent_witness:
  "\<exists>sv0 (sv :: (reader, unit Backend, string set) Server) pr h1 rep out sv'. boot_daemon once_boot [] demo_host = (Inr (sv0, pr), h1) \<and>
     sys_run pr sv0 sv {} {} \<and> serve_traffic pr one_rule_codec demo_env ''ws'' demo_get sv = Some (rep, out, sv') \<and> out \<noteq> [] \<and>
     fst (pr (traffic_request ''ws'' demo_get) (bk_prompt (sv_broker sv))) \<in> {(None, DecisionAlways), (None, DecisionOnce)}"
proof -
  define cfg where "cfg = applyDaemonEnvOverrides demo_host (DefaultDaemonConfig demo_host)"
  have c: "LoadDaemonConfig (bo_daemonYaml once_boot) [] demo_host = Inr cfg"
    by (simp add: LoadDaemonConfig_def os_read_file_def is_not_exist_def cfg_def)
  have net: "dc_Network cfg = default_network" and quiet: "\<not> dm_NonInteractive (dc_Daemon cfg)"
    by (simp_all add: cfg_def applyDaemonEnvOverrides_def DefaultDaemonConfig_def default_network_def)
  obtain al h1 where al: "NewAuditLogger (ps_AuditLog (dc_Permissions cfg)) demo_host = (Inr al, h1)"
    unfolding cfg_def by (rule demo_audit)
  obtain b lc be vc a where boot: "boot_daemon once_boot [] demo_host =
      (Inr (NewServer b (Some lc) be (Some (NewProxyManager (Some (NewNetworkIsolator default_network, demo_net)))) vc a, daemon_prompter cfg), h1)"
    and b: "bk_prompt b = bo_stdin once_boot"
    and w: "bk_whitelist b = snd (wl_Load (bo_whitelistYaml once_boot) (NewWhitelistStore (ps_Whitelist (dc_Permissions cfg))) demo_host)"
    by (rule demo_booted [OF c net al]) (simp_all add: once_boot_def)
  let ?sv0 = "NewServer b (Some lc) be (Some (NewProxyManager (Some (NewNetworkIsolator default_network, demo_net)))) vc a"
  have pr: "daemon_prompter cfg = TerminalPrompter_Prompt" using quiet by (simp add: daemon_prompter_def)
  have ws: "spec_Runtime ws_spec \<noteq> RuntimeKata" "spec_keys ws_spec = {}"
    by (simp_all add: ws_spec_def demo_spec_def RuntimeKata_def spec_keys_def)
  obtain sv pm mp where run: "sys_run TerminalPrompter_Prompt ?sv0 sv {} {}" and pm: "sv_proxyMgr sv = Some pm" "pm_proxies pm ''ws'' = Some mp"
    and mp: "np_cache (mp_proxy mp) = Map.empty" and rules: "bk_rules (sv_broker sv) = wl_rules (wl_LoadFromSpec ws_spec (bk_whitelist b))"
    and stdin: "bk_prompt (sv_broker sv) = bk_prompt b"
    by (rule ws_started [OF refl _ ws(1), where pr = TerminalPrompter_Prompt]) (simp_all add: ws(2))
  have none: "bk_rules (sv_broker sv) k = None" for k
    by (simp add: rules wl_LoadFromSpec_rules ws(2) w wl_Load_def os_read_file_def NewWhitelistStore_def is_not_exist_def)
  have ans: "prompt_answer ''o'' = Some DecisionOnce" by code_simp
  have once: "TerminalPrompter_Prompt q (bk_prompt (sv_broker sv)) = ((None, DecisionOnce), typed_input [[]])" for q
    by (simp add: stdin b once_boot_def TerminalPrompter_Prompt_def typed_input_def prompt_loop.simps scan_def scan_passes.simps
        scanner_defs ans)
  obtain p' b' where "NetworkProxy_checkPermission (direct_checker TerminalPrompter_Prompt one_rule_codec) (checked_domain demo_get) (mp_proxy mp)
      (sv_broker sv) = ((None, DecisionOnce), p', b')"
    by (simp add: NetworkProxy_checkPermission_def cached_check_def mp DirectChecker_Check_def wl_Check_def none DirectChecker_Request_def
        ask_user_def once Let_def)
  then obtain rep out sv' where t: "serve_traffic TerminalPrompter_Prompt one_rule_codec demo_env ''ws'' demo_get sv = Some (rep, out, sv')" "out \<noteq> []"
    by (rule served_when_granted [OF pm]) (simp_all add: grants_def)
  have "bk_rules b k = None" for k using none [of k] by (simp add: rules wl_LoadFromSpec_rules ws(2))
  with traffic_needs_consent [OF boot [unfolded pr] run t]
  have "fst (TerminalPrompter_Prompt (traffic_request ''ws'' demo_get) (bk_prompt (sv_broker sv))) \<in> {(None, DecisionAlways), (None, DecisionOnce)}"
    by (simp add: NewServer_def)
  with boot [unfolded pr] run t show ?thesis by blast
qed

text \<open>A configuration file that makes the daemon non-interactive, and a container that lists a domain.\<close>

definition quiet_boot :: "(unit, string set) boot_env" where
  "quiet_boot = demo_boot\<lparr>bo_daemonYaml := (\<lambda>d c. Inr (c\<lparr>dc_Daemon := (dc_Daemon c)\<lparr>dm_NonInteractive := True\<rparr>,
     dc_Permissions := \<lparr>ps_Whitelist = ''/w'', ps_AuditLog = ''/a/log''\<rparr>\<rparr>))\<rparr>"

definition quiet_host :: host where
  "quiet_host = demo_host\<lparr>h_fs := [''/etc/misbah/daemon.yaml'' \<mapsto> RegFile ''nonInteractive: true'']\<rparr>"

definition listing_ws :: ContainerSpec where
  "listing_ws = ws_spec\<lparr>spec_Permissions := spec_Permissions listing_spec\<rparr>"

theorem noninteractive_reaches_listed_only_witness:
  "\<exists>sv0 (sv :: (reader, unit Backend, string set) Server) pr h1 rep out sv'. boot_daemon quiet_boot [] quiet_host = (Inr (sv0, pr), h1) \<and>
     sys_run pr sv0 sv (spec_keys listing_ws) {} \<and> serve_traffic pr one_rule_codec demo_env ''ws'' listed_get sv = Some (rep, out, sv') \<and>
     out \<noteq> [] \<and> ruleKey ResourceNetwork ''evil.test'' \<in> spec_keys listing_ws"
proof -
  define cfg where "cfg = applyDaemonEnvOverrides quiet_host ((DefaultDaemonConfig quiet_host)
    \<lparr>dc_Daemon := (dc_Daemon (DefaultDaemonConfig quiet_host))\<lparr>dm_NonInteractive := True\<rparr>,
     dc_Permissions := \<lparr>ps_Whitelist = ''/w'', ps_AuditLog = ''/a/log''\<rparr>\<rparr>)"
  have c: "LoadDaemonConfig (bo_daemonYaml quiet_boot) [] quiet_host = Inr cfg"
    by (simp add: LoadDaemonConfig_def os_read_file_def quiet_host_def quiet_boot_def cfg_def Let_def)
  have net: "dc_Network cfg = default_network" and quiet: "dm_NonInteractive (dc_Daemon cfg)"
    and ps: "dc_Permissions cfg = \<lparr>ps_Whitelist = ''/w'', ps_AuditLog = ''/a/log''\<rparr>"
    by (simp_all add: cfg_def applyDaemonEnvOverrides_def DefaultDaemonConfig_def default_network_def)
  have "dir_path ''/a/log'' = ''/a''" by code_simp
  then obtain al h1 where al: "NewAuditLogger (ps_AuditLog (dc_Permissions cfg)) quiet_host = (Inr al, h1)"
    by (auto simp: ps quiet_host_def NewAuditLogger_def os_mkdir_all_def os_open_append_def)
  obtain b lc be vc a where boot: "boot_daemon quiet_boot [] quiet_host =
      (Inr (NewServer b (Some lc) be (Some (NewProxyManager (Some (NewNetworkIsolator default_network, demo_net)))) vc a, daemon_prompter cfg), h1)"
    by (rule demo_booted [OF c net al]) (simp_all add: quiet_boot_def)
  let ?sv0 = "NewServer b (Some lc) be (Some (NewProxyManager (Some (NewNetworkIsolator default_network, demo_net)))) vc a" and ?pr = "daemon_prompter cfg"
  have ws: "spec_name listing_ws = ''ws''" "spec_Runtime listing_ws \<noteq> RuntimeKata"
    by (simp_all add: listing_ws_def ws_spec_def demo_spec_def RuntimeKata_def)
  have key: "ruleKey ResourceNetwork ''evil.test'' \<in> spec_keys listing_ws" by (simp add: listing_ws_def spec_keys_def listing_spec_def)
  obtain sv pm mp where run: "sys_run ?pr ?sv0 sv (spec_keys listing_ws) {}" and pm: "sv_proxyMgr sv = Some pm" "pm_proxies pm ''ws'' = Some mp"
    and mp: "np_cache (mp_proxy mp) = Map.empty" and rules: "bk_rules (sv_broker sv) = wl_rules (wl_LoadFromSpec listing_ws (bk_whitelist b))"
    by (rule ws_started [OF refl [of ?sv0] ws, where pr = ?pr])
  have dom: "checked_domain listed_get = ''evil.test''" by code_simp
  have "bk_rules (sv_broker sv) (ruleKey ResourceNetwork ''evil.test'') = Some DecisionAlways"
    using key by (simp add: rules wl_LoadFromSpec_rules)
  then obtain p' b' where "NetworkProxy_checkPermission (direct_checker ?pr one_rule_codec) (checked_domain listed_get) (mp_proxy mp)
      (sv_broker sv) = ((None, DecisionAlways), p', b')"
    by (simp add: NetworkProxy_checkPermission_def cached_check_def mp DirectChecker_Check_def wl_Check_def dom network_request_def)
  then obtain rep out sv' where t: "serve_traffic ?pr one_rule_codec demo_env ''ws'' listed_get sv = Some (rep, out, sv')" "out \<noteq> []"
    by (rule served_when_granted [OF pm]) (simp_all add: grants_def)
  have "wl_rules (snd (wl_Load (bo_whitelistYaml quiet_boot) (NewWhitelistStore (ps_Whitelist (dc_Permissions cfg))) quiet_host)) = Map.empty"
    by (simp add: ps quiet_host_def wl_Load_def os_read_file_def NewWhitelistStore_def is_not_exist_def)
  with noninteractive_reaches_listed_only [OF c quiet boot run t] have "ruleKey ResourceNetwork ''evil.test'' \<in> spec_keys listing_ws"
    by (simp add: dom)
  with boot run t show ?thesis by blast
qed

end
