(* ===== verification/Daemon_Liveness.thy ===== *)
theory Daemon_Liveness
  imports Daemon_System
begin

text \<open>
  What a running daemon gets done: infinite runs of a daemon that \<open>cli/daemon.go\<close> put together, step by
  step as in \<open>Daemon_System\<close>, in which the goroutines of \<open>handleContainerStart\<close> (\<open>daemon/server.go\<close>) keep being
  scheduled.
\<close>

section \<open>Steps\<close>

text \<open>The daemon's calls go to one kernel, \<open>nk\<close>.\<close>

inductive sys_step :: "'k net_kernel \<Rightarrow> 'p prompter \<Rightarrow> ('p, 's, 'k) Server \<Rightarrow> ('p, 's, 'k) Server \<Rightarrow> bool" for nk pr where
  http_step: "Server_ServeHTTP (e :: (unit, 'k) route_env) pr m sv = Some (rep, sv') \<Longrightarrow> se_kernel (ro_server e) = nk \<Longrightarrow> sys_step nk pr sv sv'"
| goroutine_act: "i < length (sv_tasks sv) \<Longrightarrow> run_task env i sv = Some sv' \<Longrightarrow> se_kernel env = nk \<Longrightarrow> sys_step nk pr sv sv'"
| events_step: "bus_exec op (sv_events sv) = Some b \<Longrightarrow> sys_step nk pr sv (sv\<lparr>sv_events := b\<rparr>)"
| traffic_step: "serve_traffic pr y nenv c r sv = Some (rep, out, sv') \<Longrightarrow> sys_step nk pr sv sv'"

lemma sys_step_run: "sys_step nk pr sv sv' \<Longrightarrow> sys_run pr sv0 sv L A \<Longrightarrow> \<exists>L A. sys_run pr sv0 sv' L A"
  by (induction rule: sys_step.induct) (blast intro: sys_http sys_task sys_events sys_traffic)+

lemma sys_step_ok: "sys_step nk pr sv sv' \<Longrightarrow> server_ok sv \<Longrightarrow> server_ok sv'"
  using sys_step_run sys_begin sys_run_ok by blast

lemma serve_route_tasks:
  fixes e :: "('c, 'k) route_env"
  assumes "serve_route e pr rt m sv = Some (rep, sv')"
  shows "tasks_step sv sv'"
proof (cases "rt = StartRoute")
  case True
  with assms obtain r q where "handleContainerStart (ro_server e) q sv = Some (r, sv')" by (auto simp: serve_route_def Let_def)
  from handleContainerStart_tasks [OF this] show ?thesis unfolding tasks_step_def by blast
next
  case False
  have h: "sv_tasks (snd (handleContainerStop env rs sv)) = sv_tasks sv \<and> sv_lifecycle (snd (handleContainerStop env rs sv)) = sv_lifecycle sv"
    "sv_tasks (snd (handleContainerDestroy rd sv)) = sv_tasks sv \<and> sv_lifecycle (snd (handleContainerDestroy rd sv)) = sv_lifecycle sv"
    "sv_tasks (snd (handleContainerExec re sv)) = sv_tasks sv \<and> sv_lifecycle (snd (handleContainerExec re sv)) = sv_lifecycle sv"
    "sv_tasks (snd (handleContainerCommit mi rc sv)) = sv_tasks sv \<and> sv_lifecycle (snd (handleContainerCommit mi rc sv)) = sv_lifecycle sv"
    for env rs rd re rc and mi :: "'c mirage"
    using other_handlers_tasks by (metis prod.collapse)+
  have "map_option (\<lambda>x. (sv_tasks (snd x), sv_lifecycle (snd x))) (serve_route e pr rt m sv) =
      map_option (\<lambda>x. (sv_tasks sv, sv_lifecycle sv)) (serve_route e pr rt m sv)"
    using False by (cases rt) (simp_all add: serve_route_def Let_def h option.map_comp o_def split_beta)
  then show ?thesis by (simp add: assms tasks_step_def)
qed

lemma sys_step_tasks: "sys_step nk pr sv sv' \<Longrightarrow> tasks_step sv sv'"
proof (induction rule: sys_step.induct)
  case (http_step e m sv rep sv')
  then consider "sv' = sv" | rt where "serve_route e pr rt m sv = Some (rep, sv')"
    by (auto simp: Server_ServeHTTP_def Let_def split: if_splits option.splits)
  then show ?case by cases (simp add: tasks_step_def, erule serve_route_tasks)
next
  case (goroutine_act i sv env sv')
  then show ?case using run_task_lifecycle [OF goroutine_act(2)] unfolding tasks_step_def by blast
qed (auto simp: tasks_step_def elim!: serve_trafficD)

lemma server_ok_distinct: "server_ok sv \<Longrightarrow> sv_proxyMgr sv = Some pm \<Longrightarrow> distinct (task_names sv)"
  by (simp add: server_ok_def flight_ok_def)

section \<open>The namespaces of the host\<close>

definition sv_nets :: "('k \<Rightarrow> string set) \<Rightarrow> string set \<Rightarrow> ('p, 's, 'k) Server \<Rightarrow> bool" where
  "sv_nets named B sv \<longleftrightarrow> (\<forall>pm. sv_proxyMgr sv = Some pm \<longrightarrow> pm_nets named B pm)"

lemma sv_nets_cong: "sv_proxyMgr sv' = sv_proxyMgr sv \<Longrightarrow> sv_nets named B sv' = sv_nets named B sv"
  by (simp add: sv_nets_def)

lemma inject_nets:
  "ns_kernel (se_kernel env) named \<Longrightarrow> inject_proxy env spec sv = (r, sv') \<Longrightarrow> sv_nets named B sv \<Longrightarrow> sv_nets named B sv'"
  by (auto simp: inject_proxy_def sv_nets_def split: option.splits prod.splits sum.splits dest: Start_nets)

lemma start_nets:
  assumes "ns_kernel (se_kernel env) named" and "handleContainerStart env r sv = Some (rep, sv')" and "sv_nets named B sv"
  shows "sv_nets named B sv'"
proof -
  have b: "sv_nets named B (sv\<lparr>sv_broker := b\<rparr>) = sv_nets named B sv" for b by (rule sv_nets_cong) simp
  show ?thesis using assms
    by (auto simp: handleContainerStart_def with_lifecycle_def Let_def sv_nets_def [of _ _ "sv_tasks_update _ _"]
        dest!: publish_manager inject_nets [OF assms(1)] split: if_splits option.splits sum.splits prod.splits) (auto simp: sv_nets_def)
qed

lemma task_nets:
  assumes "ns_kernel (se_kernel env) named" and "run_task env i sv = Some sv'" and "sv_nets named B sv"
  shows "sv_nets named B sv'"
proof -
  have "pm_nets named B (snd (ProxyManager_Stop (se_kernel env) c pm))" if "pm_nets named B pm" for c pm
    using Stop_nets [OF assms(1) that, of c] by (metis prod.collapse)
  with assms(2,3) show ?thesis
    by (auto simp: run_task_def sv_nets_def dest!: publish_manager split: task.splits option.splits prod.splits lifecycle_error.splits)
qed

lemma step_nets: "sys_step nk pr sv sv' \<Longrightarrow> ns_kernel nk named \<Longrightarrow> sv_nets named B sv \<Longrightarrow> sv_nets named B sv'"
proof (induction rule: sys_step.induct)
  case (http_step e m sv rep sv')
  then consider "sv' = sv" | rt where "serve_route e pr rt m sv = Some (rep, sv')"
    by (auto simp: Server_ServeHTTP_def Let_def split: if_splits option.splits)
  then show ?case
  proof cases
    case (2 rt)
    show ?thesis
    proof (cases "rt = StartRoute")
      case True
      with 2 obtain r q where "handleContainerStart (ro_server e) q sv = Some (r, sv')" by (auto simp: serve_route_def Let_def)
      then show ?thesis using start_nets http_step by blast
    next
      case False
      then show ?thesis using sv_nets_cong [OF serve_route_manager [OF 2 False]] http_step by blast
    qed
  qed (use http_step in simp)
next
  case (goroutine_act i sv env sv')
  then show ?case using task_nets by blast
next
  case (traffic_step y nenv c r sv rep out sv')
  then show ?case by (auto simp: serve_traffic_def sv_nets_def pm_nets_def split: option.splits prod.splits)
qed (simp add: sv_nets_def)

lemma booted_nets:
  assumes "boot_daemon env path h = (Inr (sv, pr), h1)"
  shows "sv_nets named (net_names named (bo_net env)) sv"
  by (rule boot_daemonD [OF assms]) (auto simp: sv_nets_def NewServer_def NewNetworkIsolator_def intro: pm_nets_new)


text \<open>A schedule for the daemon: the only goroutine first, then requests that change nothing.\<close>

definition drain :: "('p, 's, string set) Server \<Rightarrow> ('p, 's, string set) Server" where
  "drain sv = (if sv_tasks sv = [] then sv else the (run_task daemon_env 0 sv))"

lemma nothing_clean: "mux_clean ''/nothing'' = ''/nothing''"
  by code_simp

lemma drain_step:
  assumes "server_ok sv" and "launchable sv" and "length (sv_tasks sv) \<le> 1"
  shows "sys_step calm_kernel pr sv (drain sv)" and "server_ok (drain sv)" and "launchable (drain sv)"
    and "length (sv_tasks (drain sv)) \<le> 1" and "name \<in> set (task_names sv) \<Longrightarrow> goroutine_runs name sv (drain sv)"
proof -
  have kern: "se_kernel daemon_env = calm_kernel" by (simp add: daemon_env_def)
  have idle: "sys_step calm_kernel pr sv sv"
    by (rule http_step [of "demo_route_env ws_spec daemon_env" pr "message ''/nothing''"])
      (simp_all add: Server_ServeHTTP_def message_def routes_def nothing_clean demo_route_env_def kern)
  have busy: "run_task daemon_env 0 sv = Some (drain sv)" if "sv_tasks sv \<noteq> []"
    using run_task_total [OF assms(1,2), of 0 daemon_env] that by (auto simp: drain_def)
  show s: "sys_step calm_kernel pr sv (drain sv)"
    using idle goroutine_act [OF _ busy kern] by (cases "sv_tasks sv = []") (auto simp: drain_def)
  show "server_ok (drain sv)" "launchable (drain sv)"
    by (rule sys_step_ok [OF s assms(1)] tasks_step_launchable [OF sys_step_tasks [OF s] assms(2)])+
  show "length (sv_tasks (drain sv)) \<le> 1"
    using run_task_tasks [OF busy] assms(3) by (cases "sv_tasks sv = []") (auto simp: drain_def)
  show "goroutine_runs name sv (drain sv)" if "name \<in> set (task_names sv)"
  proof -
    have "\<exists>t. sv_tasks sv = [t] \<and> task_name t = name" using that assms(3) by (cases "sv_tasks sv") auto
    then show ?thesis using busy unfolding goroutine_runs_def by (intro exI [of _ daemon_env] exI [of _ 0]) auto
  qed
qed


end
