(* ===== verification/Daemon_Shutdown.thy ===== *)
theory Daemon_Shutdown
  imports Daemon_Liveness
begin

text \<open>
  The end of a daemon: the goroutine of \<open>runDaemonStart\<close> (\<open>cli/daemon.go\<close>) that waits for a signal and calls
  \<open>Server.Stop\<close>, the deferred calls, and the goroutine of the vsock listener with \<open>cli/vsock.go\<close>.
\<close>

section \<open>The vsock listener of the daemon\<close>

text \<open>\<open>vsock.Listen\<close> is a parameter: an error, or the answers that \<open>Accept\<close> will give.\<close>

definition vsockListen :: "(32 word \<Rightarrow> go_error + 'c accepted list) \<Rightarrow> 32 word \<Rightarrow> go_error + 'c accepted list" where
  "vsockListen listen port =
     (case listen port of
        Inl e \<Rightarrow> Inl (''vsock listen on port '' @ itoa_nat (unat port) @ '': '' @ e)
      | Inr ln \<Rightarrow> Inr ln)"

text \<open>The goroutine: without a listener it ends and leaves the daemon as it is; the error of \<open>Start\<close> is logged.\<close>

definition serve_vsock ::
  "(32 word \<Rightarrow> go_error + 'c accepted list) \<Rightarrow> VsockSection \<Rightarrow> ('c list \<times> VsockListener) option" where
  "serve_vsock listen vs =
     (if vs_Port vs = 0 then None
      else case vsockListen listen (vs_Port vs) of
        Inl e \<Rightarrow> Some ([], NewVsockListener)
      | Inr ln \<Rightarrow> (case VsockListener_Start ln NewVsockListener of ((conns, r), vl) \<Rightarrow> Some (conns, vl)))"

lemma vsock_unavailable: "listen (vs_Port vs) = Inl e \<Longrightarrow> vs_Port vs \<noteq> 0 \<Longrightarrow> serve_vsock listen vs = Some ([], NewVsockListener)"
  by (simp add: serve_vsock_def vsockListen_def)

text \<open>The deferred \<open>vsockLn.Stop\<close> does not panic: nothing else stops the listener.\<close>

lemma vsock_stops: "serve_vsock listen vs = Some (conns, vl) \<Longrightarrow> VsockListener_Stop vl \<noteq> None"
  by (auto simp: serve_vsock_def VsockListener_Start_def NewVsockListener_def VsockListener_Stop_def split: if_splits sum.splits prod.splits)

section \<open>The audit file\<close>

definition NewAuditLoggerFromWriter :: "bool \<Rightarrow> AuditLogger" where
  "NewAuditLoggerFromWriter fails = \<lparr>al_entries = [], al_broken = fails\<rparr>"

text \<open>\<open>AuditLogger.Close\<close>, with whether there is a closer: writes to a closed file fail.\<close>

definition AuditLogger_Close :: "bool \<Rightarrow> AuditLogger \<Rightarrow> AuditLogger" where
  "AuditLogger_Close closer a = (if closer then a\<lparr>al_broken := True\<rparr> else a)"

section \<open>The end of a run\<close>

text \<open>
  \<open>Server.Stop\<close> stops the proxies and then calls \<open>Shutdown\<close>, upon which \<open>Serve\<close> returns at once; the
  deferred calls follow and the process ends.  Between the two the socket is still served and
  goroutines go on: the handlers that are cut off at the end are not waited for.
\<close>

datatype daemon_phase = Serving | Stopping | Closed

definition close_daemon :: "('p, 's, 'k) Server \<Rightarrow> ('p, 's, 'k) Server" where
  "close_daemon sv = sv\<lparr>sv_broker := (sv_broker sv)\<lparr>bk_audit := map_option (AuditLogger_Close True) (bk_audit (sv_broker sv))\<rparr>\<rparr>"

text \<open>
  The flag tells whether a start was accepted after the proxies had been stopped.  The calls go
  to one kernel, \<open>nk\<close>; \<open>StopAll\<close> and \<open>TeardownAll\<close> range over their maps, each in some order of its own.
\<close>

definition visits_all :: "string list \<Rightarrow> string list \<Rightarrow> ('p, 's, 'k) Server \<Rightarrow> bool" where
  "visits_all isos names sv \<longleftrightarrow> (\<forall>pm. sv_proxyMgr sv = Some pm \<longrightarrow> visits names (pm_proxies pm) \<and>
     (\<forall>ni n. pm_isolator pm = Some (ni, n) \<longrightarrow> visits isos (ni_netns ni)))"

inductive daemon_life ::
  "'k net_kernel \<Rightarrow> 'p prompter \<Rightarrow> ('p, 's, 'k) Server \<Rightarrow> daemon_phase \<Rightarrow> bool \<Rightarrow> ('p, 's, 'k) Server \<Rightarrow> bool" for nk pr sv0 where
  life_begin: "daemon_life nk pr sv0 Serving False sv0"
| life_serve: "daemon_life nk pr sv0 Serving late sv \<Longrightarrow> sys_step nk pr sv sv' \<Longrightarrow> daemon_life nk pr sv0 Serving late sv'"
| life_stop: "daemon_life nk pr sv0 Serving late sv \<Longrightarrow> visits_all isos names sv \<Longrightarrow> se_kernel env = nk \<Longrightarrow>
    daemon_life nk pr sv0 Stopping late (Server_Stop env isos names sv)"
| life_late: "daemon_life nk pr sv0 Stopping late sv \<Longrightarrow> sys_step nk pr sv sv' \<Longrightarrow>
    daemon_life nk pr sv0 Stopping (late \<or> length (sv_tasks sv) < length (sv_tasks sv')) sv'"
| life_close: "daemon_life nk pr sv0 Stopping late sv \<Longrightarrow> daemon_life nk pr sv0 Closed late (close_daemon sv)"

section \<open>What a shutdown leaves behind\<close>

definition quiet :: "('p, 's, 'k) Server \<Rightarrow> bool" where
  "quiet sv \<longleftrightarrow> (\<exists>pm ni n. sv_proxyMgr sv = Some pm \<and> pm_isolator pm = Some (ni, n) \<and>
     pm_proxies pm = Map.empty \<and> pm_serving pm = {} \<and> ni_netns ni = Map.empty)"

lemma quiet_cong: "sv_proxyMgr sv' = sv_proxyMgr sv \<Longrightarrow> quiet sv' = quiet sv"
  by (simp add: quiet_def)

lemma Stop_quiet:
  assumes "server_ok sv" and "isolating sv" and "visits_all isos names sv"
  shows "quiet (Server_Stop env isos names sv)"
proof -
  obtain pm ni n where pm: "sv_proxyMgr sv = Some pm" "pm_isolator pm = Some (ni, n)" using assms(2) by (auto simp: isolating_def)
  then have "pm_ok pm" using assms(1) by (simp add: server_ok_def flight_ok_def)
  from StopAll_ok(2) [OF this] pm assms(3) show ?thesis
    by (auto simp: quiet_def Server_Stop_def ProxyManager_StopAll_def fold_shutdown Isolator_TeardownAll_def visits_all_def visits_def)
qed

lemma Stop_sv_nets:
  assumes "ns_kernel (se_kernel env) named" and "sv_nets named B sv" and "visits_all isos names sv"
  shows "sv_nets named B (Server_Stop env isos names sv)"
proof -
  have "pm_nets named B (ProxyManager_StopAll (se_kernel env) isos names pm)" if pm: "sv_proxyMgr sv = Some pm" for pm
  proof (cases "pm_isolator pm")
    case None
    then show ?thesis by (simp add: pm_nets_def ProxyManager_StopAll_def fold_shutdown)
  next
    case (Some x)
    then obtain ni n where i: "pm_isolator pm = Some (ni, n)" by (cases x) simp
    have "pm_nets named B pm" "visits isos (ni_netns ni)" using assms(2,3) pm i by (auto simp: sv_nets_def visits_all_def)
    from StopAll_nets [OF assms(1) this(1) i this(2), of names] show ?thesis by (auto simp: pm_nets_def)
  qed
  then show ?thesis using assms(2) by (auto simp: sv_nets_def Server_Stop_def)
qed

lemma failed_start_quiet:
  assumes "inject_proxy env spec sv = (Inl e, sv')" and "quiet sv"
  shows "quiet sv'"
proof -
  obtain pm ni n where pm: "sv_proxyMgr sv = Some pm" "pm_isolator pm = Some (ni, n)" "pm_proxies pm = Map.empty" "pm_serving pm = {}"
    "ni_netns ni = Map.empty" using assms(2) by (auto simp: quiet_def)
  obtain pm' where s: "ProxyManager_Start (se_kernel env) (se_v6 env) (se_listen env) (spec_name spec) pm = (Inl e, pm')"
    "sv' = sv\<lparr>sv_proxyMgr := Some pm'\<rparr>" using assms(1) pm(1) by (auto simp: inject_proxy_def split: sum.splits prod.splits)
  have "ni_netns ni' = Map.empty" if "Isolator_Setup nk v6 c a ni n = (Inl x, ni', n')" for nk v6 c a x ni' n'
    using Setup_dom [OF that] pm(5) by simp
  with s pm show ?thesis
    by (auto simp: quiet_def ProxyManager_Start_def shutdown_def Let_def split: sum.splits prod.splits)
qed

lemma inject_quiet:
  "inject_proxy env spec sv = (r, sv') \<Longrightarrow> sv_tasks sv' = sv_tasks sv \<and> (\<forall>e. r = Inl e \<longrightarrow> quiet sv \<longrightarrow> quiet sv')"
  using inject_proxy_tasks failed_start_quiet by blast

lemma start_quiet:
  assumes "handleContainerStart env r sv = Some (rep, sv')" and "quiet sv"
  shows "quiet sv' \<or> length (sv_tasks sv) < length (sv_tasks sv')"
proof -
  have q: "quiet (sv\<lparr>sv_broker := b\<rparr>) = quiet sv" for b by (rule quiet_cong) simp
  show ?thesis using assms
    by (auto simp: handleContainerStart_def with_lifecycle_def Let_def q dest!: inject_quiet publish_frame
        split: if_splits option.splits sum.splits prod.splits)
qed

lemma task_quiet: "run_task env i sv = Some sv' \<Longrightarrow> quiet sv \<Longrightarrow> quiet sv'"
  by (auto simp: run_task_def quiet_def ProxyManager_Stop_def dest!: publish_manager
      split: task.splits option.splits prod.splits lifecycle_error.splits)

lemma step_quiet: "sys_step nk pr sv sv' \<Longrightarrow> quiet sv \<Longrightarrow> quiet sv' \<or> length (sv_tasks sv) < length (sv_tasks sv')"
proof (induction rule: sys_step.induct)
  case (http_step e m sv rep sv')
  then consider "sv' = sv" | rt where "serve_route e pr rt m sv = Some (rep, sv')"
    by (auto simp: Server_ServeHTTP_def Let_def split: if_splits option.splits)
  then show ?case
  proof cases
    case (2 rt)
    show ?thesis
    proof (cases "rt = StartRoute")
      case True
      with 2 obtain r q where "handleContainerStart (ro_server e) q sv = Some (r, sv')" by (auto simp: serve_route_def Let_def)
      then show ?thesis using start_quiet http_step(3) by blast
    next
      case False
      then show ?thesis using quiet_cong [OF serve_route_manager [OF 2 False]] http_step(3) by blast
    qed
  qed (use http_step in simp)
next
  case (goroutine_act i sv env sv')
  then show ?case using task_quiet by blast
next
  case (events_step op sv b)
  then show ?case by (simp add: quiet_def)
next
  case (traffic_step y nenv c r sv rep out sv')
  then show ?case by (auto simp: serve_traffic_def quiet_def)
qed

lemma life_serving: "daemon_life nk pr sv0 ph late sv \<Longrightarrow> ph = Serving \<Longrightarrow> \<exists>L A. sys_run pr sv0 sv L A"
  by (induction rule: daemon_life.induct) (use sys_begin sys_step_run in blast)+

lemma life_quiet:
  "daemon_life nk pr sv0 ph late sv \<Longrightarrow> server_ok sv0 \<Longrightarrow> isolating sv0 \<Longrightarrow> ph \<noteq> Serving \<Longrightarrow> \<not> late \<Longrightarrow> quiet sv"
proof (induction rule: daemon_life.induct)
  case (life_stop late sv isos names env)
  then obtain L A where "sys_run pr sv0 sv L A" using life_serving by blast
  then show ?case using Stop_quiet life_stop sys_run_ok sys_run_isolating by blast
next
  case (life_late late sv sv')
  then show ?case using step_quiet by auto
next
  case (life_close late sv)
  then show ?case using quiet_cong [of "close_daemon sv" sv] by (simp add: close_daemon_def)
qed simp_all

lemma life_nets:
  "daemon_life nk pr sv0 ph late sv \<Longrightarrow> ns_kernel nk named \<Longrightarrow> sv_nets named B sv0 \<Longrightarrow> sv_nets named B sv"
proof (induction rule: daemon_life.induct)
  case (life_stop late sv isos names env)
  then show ?case using Stop_sv_nets by blast
next
  case (life_close late sv)
  then show ?case using sv_nets_cong [of "close_daemon sv" sv] by (simp add: close_daemon_def)
qed (use step_nets in blast)+



text \<open>
  The gap is real: a start that is accepted between the stop of the proxies and the end is
  answered with success, and its network namespace and the registration of its proxy are still
  there when the daemon has ended.
\<close>

theorem late_start_leaks:
  "\<exists>(sv :: (reader, unit Backend, string set) Server) sv0 pr h1 pm ni n. boot_daemon demo_boot [] demo_host = (Inr (sv0, pr), h1) \<and>
     daemon_life calm_kernel pr sv0 Closed True sv \<and> sv_proxyMgr sv = Some pm \<and> pm_isolator pm = Some (ni, n) \<and>
     pm_proxies pm ''ws'' \<noteq> None \<and> ni_netns ni ''ws'' \<noteq> None"
proof -
  obtain b lc be vc a pr h1 where b: "boot_daemon demo_boot [] demo_host =
      (Inr (NewServer b (Some lc) be (Some (NewProxyManager (Some (NewNetworkIsolator default_network, demo_net)))) vc a, pr), h1)"
    by (rule demo_boot_booted)
  define sv0 where "sv0 = NewServer b (Some lc) be (Some (NewProxyManager (Some (NewNetworkIsolator default_network, demo_net)))) vc a"
  have b: "boot_daemon demo_boot [] demo_host = (Inr (sv0, pr), h1)" using b by (simp add: sv0_def)
  have ws: "spec_name ws_spec = ''ws''" "spec_Runtime ws_spec \<noteq> RuntimeKata"
    by (simp_all add: ws_spec_def demo_spec_def RuntimeKata_def)
  have st: "Server_Stop daemon_env [] [] sv0 = sv0"
    by (simp add: sv0_def Server_Stop_def NewServer_def NewProxyManager_def ProxyManager_StopAll_def Isolator_TeardownAll_def
        NewNetworkIsolator_def map_filter_def)
  obtain sv spec rep rep' where t: "sv_tasks sv = [TLaunch spec]" "spec_name spec = ''ws''"
    and h: "Server_ServeHTTP (demo_route_env ws_spec daemon_env) pr (message ''/container/start'') sv0 = Some (rep', sv)"
    by (rule ws_http [OF sv0_def ws])
  have s: "sys_step calm_kernel pr sv0 sv" by (rule http_step [OF h]) (simp add: demo_route_env_def daemon_env_def)
  have z: "sv_tasks sv0 = []" "visits_all [] [] sv0" "se_kernel daemon_env = calm_kernel"
    by (simp_all add: sv0_def NewServer_def NewProxyManager_def visits_all_def visits_def daemon_env_def NewNetworkIsolator_def)
  have "daemon_life calm_kernel pr sv0 Stopping False sv0" using life_stop [OF life_begin z(2,3)] by (simp add: st)
  from life_late [OF this s] have "daemon_life calm_kernel pr sv0 Stopping True sv" by (simp add: z t)
  then have l: "daemon_life calm_kernel pr sv0 Closed True (close_daemon sv)" by (rule life_close)
  have ok: "server_ok sv" "isolating sv" using booted_ok [OF b] sys_step_run [OF s sys_begin] sys_run_ok sys_run_isolating by blast+
  from isolated_state [OF this] obtain pm ni n' where pm: "sv_proxyMgr sv = Some pm" "pm_isolator pm = Some (ni, n')"
    "dom (ni_netns ni) = task_name ` set (sv_tasks sv)" "dom (pm_proxies pm) = task_name ` set (sv_tasks sv)"
    by (elim exE conjE)
  have "''ws'' \<in> dom (ni_netns ni)" "''ws'' \<in> dom (pm_proxies pm)" unfolding pm(3,4) by (simp_all add: t)
  moreover have "sv_proxyMgr (close_daemon sv) = Some pm" using pm(1) by (simp add: close_daemon_def)
  ultimately show ?thesis using b l pm(2) by blast
qed

end
