(* ===== verification/Spec2Isabelle.thy ===== *)
theory Spec2Isabelle
  imports Package_Wrapper MCP_Wire CLI_Image Logging Concurrent_Broker Concurrent_Proxies Proxy_Servers
    Daemon_Shutdown
begin

text \<open>
  A verification development of misbah, a Go program that runs AI agents in isolated containers
  and mediates what they may reach: network domains, MCP tools and packages.  Paths below are
  relative to the repository (\<open>src/\<close>).

  \<^bold>\<open>The program.\<close>  A container specification (\<open>model/container.go\<close>) is read from a file, from the command
  line (\<open>cli/\<close>), from the facade (\<open>pkg/misbah\<close>) or from an MCP tool (\<open>mcp/\<close>).  The lifecycle (\<open>runtime/\<close>)
  validates it, takes the container's lock, resolves git-clone and tier mounts and hands it to a
  backend: Linux namespaces (\<open>runtime/namespace.go\<close>) or a CRI runtime for Kata (\<open>cri/\<close>).  The daemon
  (\<open>daemon/\<close>) serves container and permission requests on a Unix socket; for each container it
  starts a proxy and a network namespace, and leaves a goroutine behind that runs the lifecycle,
  publishes events and stops the proxy.  The proxies (\<open>proxy/\<close>) ask a permission checker, in the
  process or over the socket; the checker consults the rule store, asks the user and writes the
  audit log.

  \<^bold>\<open>The theories,\<close> in the order in which they build on each other.

  \<^item> \<open>Misbah_Prelude\<close>: errors in sequence, the functions of Go's packages strings, strconv, filepath,
    net and encoding/json that the sources use, with the lemmas the components share.
  \<^item> \<open>Host_OS\<close>: files, processes, signals and the environment, with faults at every call.
  \<^item> \<open>Container_Spec\<close>, \<open>Spec_Files\<close>: the specification, its validators, which accept exactly what a
    declarative contract allows (\<open>Validate_characterised\<close>), and its files.
  \<^item> \<open>Tier_Mounts\<close> (\<open>tier/\<close>), \<open>Git_Clone\<close>, \<open>Cgroup\<close>, \<open>Shell_Quote\<close>, \<open>Namespace\<close>, \<open>Lock_Manager\<close>, \<open>Lifecycle\<close>
    (\<open>runtime/\<close>): what a container gets mounted, its resource limits, its command line through the
    shell, its lock, and the order of all this.  Locks are stated as a locale \<open>lock_service\<close>,
    interpreted on the lock manager.
  \<^item> \<open>Permission\<close>, \<open>Whitelist_Store\<close>, \<open>Prompter_IO\<close>, \<open>Proxy_Cache\<close>, \<open>Permission_Broker\<close>: permission requests, the
    rule store, the terminal with the buffered scanner under it, and the broker.  The locale
    \<open>permission_checker\<close> is the contract that the proxies rely on; it is interpreted on the
    in-process checker (\<open>direct\<close>) and on the client over the socket (\<open>over_socket\<close>).
  \<^item> \<open>Network_Proxy\<close>, \<open>MCP_Proxy\<close>, \<open>Package_Wrapper\<close> (\<open>proxy/\<close>): the three kinds of mediation.
  \<^item> \<open>Events\<close>, \<open>Container_Stores\<close>, \<open>Netns\<close>, \<open>Proxy_Manager\<close>, \<open>Vsock_Transport\<close>, \<open>Daemon_Server\<close> (\<open>daemon/\<close>): the
    event bus on Go channels, logs and overlays, network namespaces with their packet filter,
    the proxies of the containers (locale \<open>proxy_registry\<close>), the vsock transport, and the server
    as a step relation over requests and goroutines.
  \<^item> \<open>CRI_Convert\<close>, \<open>CRI_Backend\<close> (\<open>cri/\<close>): the conversion of specifications, and the calls to the runtime
    in their order, clean-up after failures included.
  \<^item> \<open>Config\<close> (\<open>config/\<close>), \<open>Daemon_Client\<close> (\<open>daemon/client.go\<close>, \<open>pkg/misbah\<close>), \<open>Daemon_Main\<close> (\<open>cli/daemon.go\<close>),
    \<open>CLI_Container\<close>, \<open>CLI_Image\<close> (\<open>cli/\<close>), \<open>MCP_Server\<close>, \<open>MCP_Wire\<close> (\<open>mcp/server.go\<close>): configuration, the client with what
    JSON does to the values on the wire, the construction of the daemon, the commands, and the
    MCP tools with the JSON of their answers.
  \<^item> \<open>Event_Delivery\<close>: names in URLs, the handler of the event stream beside the other users of the bus, and
    what arrives at the client.  \<open>Daemon_Routes\<close>: the messages of \<open>daemon/container.go\<close> and the routes of
    \<open>NewServer\<close>, so that a request is a method, a path and a body.  \<open>Daemon_System\<close>: runs of a booted daemon
    in which requests, goroutines, users of the event bus and the traffic of the containers
    interleave, and what such traffic may reach.  \<open>Daemon_Liveness\<close>: infinite runs of it, in which
    scheduled goroutines end and take the container's proxy and kernel namespace with them.  \<open>Daemon_Shutdown\<close>: the life of
    a daemon up to its end by a signal, as a step relation with three phases.
  \<^item> \<open>Concurrent_Checks\<close>: permission checks that proxies and the socket serve at the same time, as
    threads with one action per critical section.  \<open>Concurrent_Broker\<close>: such checks together with
    loads of whitelists: consent and audit under every interleaving.
    \<open>Concurrent_Proxies\<close>: starts and stops of proxies
    that overlap, section by section.  \<open>Proxy_Servers\<close>: the HTTP servers of the proxies.
    \<open>Instrumentation\<close>: metrics, timers and log levels (\<open>metrics/\<close>) and the
    set-up before a command (\<open>cli/root.go\<close>).  \<open>Logging\<close>: the loggers over zerolog, which is a parameter, and
    the defaults of the package.

  \<^bold>\<open>How the code is modelled.\<close>  Structs are records, errors are values of the components' error types
  or Go error texts, and every operation is a function from the state to the result and the new
  state.  A panic is \<open>None\<close> or an error constructor of its own.  Code outside the repository is an
  argument: the YAML package and the JSON text of locks (records of two functions), git, the
  container's process, the CRI runtime, netlink and iptables, package mirage, \<open>net.Listen\<close> and the
  like.  What the proofs need of it are named hypotheses, such as that decoding undoes encoding,
  and each of these properties has an instance that satisfies them.  Two of them recur: \<open>codec_ok\<close> asks
  of the JSON of a lock only that its process number survives (strings need not: encoding/json
  replaces invalid UTF-8), and \<open>ns_kernel\<close> is what the package netns promises of the names of network
  namespaces.  The calls to the kernel go through an arbitrary kernel state, so that theorems about
  network namespaces speak of the names the kernel has and not only of the maps that record them;
  the veth links, which vanish with their namespace, are not part of that law.  A loop over a Go
  map visits its keys once each, in an arbitrary order (\<open>visits\<close>).

  Goroutines are tasks that are interleaved with requests action by action.  A handler is a single
  step, also of a system run, and so are the check of a request to a proxy and the stop of a proxy;
  \<open>Concurrent_Checks\<close>, \<open>Concurrent_Broker\<close> and \<open>Concurrent_Proxies\<close> take these apart at every lock and show
  what remains true.  Every critical section is one action: that a goroutine waits for a mutex or
  for an answer is not modelled, so deadlocks are outside the development.  \<open>Lifecycle.Start\<close>, which
  blocks until the container exits (\<open>daemon/server.go\<close>), is one action that is taken when it returns.
  Machine integers are words where they may wrap around (memory limits, the address counter of the
  network isolator).

  \<^bold>\<open>Loops and bounds.\<close>  All functions are total.  The scanner's and the prompter's loops end because the
  input is finite; loops over accepted connections, polls of a process and reads of a stream
  run over the finite sequence of what they see, and the theorems hold for every such sequence.
  The event channels have the capacity 16 of the source.

  \<^bold>\<open>What is shown.\<close>  Mediation: nothing leaves a container through a proxy without an ALWAYS rule or a
  ONCE just given (\<open>network_mediation\<close>, \<open>mcp_mediation\<close>, \<open>package_mediation\<close>), nothing is granted without
  consent, whatever checks run at the same time (\<open>concurrent_grants_need_consent\<close>), and only three
  requests to the daemon change its rules (\<open>rules_change_only_by\<close>).  End to end, what the containers of
  a booted daemon reach was in its whitelist, was listed by a specification or was consented to
  (\<open>traffic_needs_consent\<close>), only the former two when it is not interactive
  (\<open>noninteractive_reaches_listed_only\<close>), and a container with permissions that the command line runs
  without the daemon has one proxy, which reaches only what its specification lists
  (\<open>cli_reaches_listed_only\<close>).  Persistence: kept decisions stay and survive a restart,
  and answers are audited, also when requests overlap (\<open>concurrent_answers_audited\<close>).
  Isolation: the packet filter (\<open>egress_filter\<close>), the command that is run (\<open>CreateContainer_isolates\<close>),
  the invariant of the daemon (\<open>containers_are_proxied\<close>, \<open>system_isolates\<close>) and its end-to-end
  form below; it survives starts and stops of proxies that overlap, in every phase of a stop
  (\<open>overlapping_stops_isolate\<close>).
  Resources: a lock is kept against other processes as long as they may signal its owner
  (\<open>lock_mutual_exclusion\<close>, \<open>foreign_lock_taken_over\<close>), excludes a second start (\<open>Start_excluded_while_locked\<close>)
  and is released on every way out (\<open>Start_releases_lock\<close>); in a fair run every container's proxy and
  kernel namespace are gone in the end (\<open>started_containers_wind_down\<close>), and a signal leaves the kernel with the
  namespaces it had before the daemon, unless a start slips in (\<open>shutdown_leaves_no_network\<close>,
  \<open>late_start_leaks\<close>).  Interfaces: the validators, the proxy manager against its
  abstract map, the JSON wire, the event stream from the bus to the client (\<open>client_event_stream\<close>) and
  the shell quoting.

  \<^bold>\<open>Behaviour that differs from what is documented\<close> is stated as theorems as well, for example
  \<open>LoadFromSpec_overrides_deny\<close>, \<open>overlapping_checks_disagree\<close>, \<open>table_hits_unaudited\<close>, \<open>kata_loses_proxy\<close>, \<open>cli_destroy_drops_live_lock\<close>,
  \<open>acquire_race\<close>, \<open>logs_and_changes_unavailable\<close>, \<open>mcp_smuggled_call\<close>, \<open>limits_not_enforced\<close> and \<open>vsock_forwarder_dials_nothing\<close>.  In particular the
  namespace that the daemon creates is not the one the container runs in, and the proxy listens on
  the loopback address of the host: the theorems speak about what is set up, not about packets
  reaching it.

  \<^bold>\<open>Not modelled:\<close> the text that zerolog writes, and the lines that the operations log; the declarations
  of commands, flags and JSON schemas, which only cobra, viper and the MCP clients read; text for
  the terminal other than the values in it; the HTTP and gRPC servers themselves; \<open>model/errors.go\<close>,
  whose error values are constructors of the components' error types; the test harness, which
  starts programs for the tests.
\<close>

section \<open>From the facade to the network\<close>

text \<open>
  C5: a client of the facade on a daemon that was started from the command line, in any state the
  daemon has reached: the call returns, it never makes the daemon panic, and when it reports a
  container then the container is queued for launch with a proxy and a network namespace of its
  own, under the name that was asked for.
\<close>

theorem facade_creates_isolated:
  assumes "boot_daemon be path h = (Inr (sv0, pr), h1)" and "sys_run pr sv0 sv L A"
  shows "\<exists>res sv'. Misbah_Create tr env spec sv = Some (res, sv') \<and>
    (\<forall>ident. res = Inr ident \<longrightarrow> (\<exists>pm ni n spec'. sv_proxyMgr sv' = Some pm \<and> pm_isolator pm = Some (ni, n) \<and>
       TLaunch spec' \<in> set (sv_tasks sv') \<and> spec_name spec' = json_text (spec_name spec) \<and>
       (\<exists>a. pm_addrs pm (spec_name spec') = Some a \<and> knows_proxy sv' a spec') \<and> ni_netns ni (spec_name spec') \<noteq> None))"
proof -
  have ok: "server_ok sv" using sys_run_ok [OF assms(2)] booted_ok [OF assms(1)] by blast
  have iso: "isolating sv" using sys_run_isolating [OF assms(2)] booted_ok [OF assms(1)] by blast
  obtain r sv' where c: "Client_ContainerStart tr env spec sv = Some (r, sv')"
    using handleContainerStart_ok [OF ok, of env "\<lparr>hr_Method = ''POST'', hr_Body = Inr (Some (wire_spec spec))\<rparr>"]
    by (cases "tr_dial tr") (auto simp: Client_ContainerStart_def)
  have "\<exists>pm ni n spec'. sv_proxyMgr sv' = Some pm \<and> pm_isolator pm = Some (ni, n) \<and>
       TLaunch spec' \<in> set (sv_tasks sv') \<and> spec_name spec' = json_text (spec_name spec) \<and>
       (\<exists>a. pm_addrs pm (spec_name spec') = Some a \<and> knows_proxy sv' a spec') \<and> ni_netns ni (spec_name spec') \<noteq> None"
    if "r = Inr (ident, status)" for ident status
  proof -
    from c that obtain rep where h: "handleContainerStart env \<lparr>hr_Method = ''POST'', hr_Body = Inr (Some (wire_spec spec))\<rparr> sv = Some (rep, sv')"
      by (auto simp: Client_ContainerStart_def split: option.splits)
    have "server_ok sv'" using handleContainerStart_ok [OF ok, of env "\<lparr>hr_Method = ''POST'', hr_Body = Inr (Some (wire_spec spec))\<rparr>"] h by simp
    moreover have "isolating sv'" using start_keeps_isolating h iso by blast
    ultimately have "server_ok sv'" "isolating sv'" by blast+
    from isolated_state [OF this] obtain pm ni n where pm: "sv_proxyMgr sv' = Some pm" "pm_isolator pm = Some (ni, n)"
      and d: "dom (ni_netns ni) = task_name ` set (sv_tasks sv')"
      and p: "\<forall>spec. TLaunch spec \<in> set (sv_tasks sv') \<longrightarrow> (\<exists>a. pm_addrs pm (spec_name spec) = Some a \<and> knows_proxy sv' a spec)"
      by (elim exE conjE)
    from client_start_queues [OF c [unfolded that], of env] obtain spec' where q: "sv_tasks sv' = sv_tasks sv @ [TLaunch spec']"
      and n: "spec_name spec' = json_text (spec_name spec)" by (elim exE conjE)
    then have t: "TLaunch spec' \<in> set (sv_tasks sv')" by simp
    have "spec_name spec' \<in> dom (ni_netns ni)" unfolding d using imageI [OF t, of task_name] by simp
    with pm p t n show ?thesis by blast
  qed
  then show ?thesis using c by (cases r) (auto simp: Misbah_Create_def)
qed

theorem facade_creates_isolated_witness:
  "\<exists>sv0 pr h1 res sv'. boot_daemon demo_boot [] demo_host = (Inr (sv0, pr), h1) \<and>
     Misbah_Create perfect_socket daemon_env (NewSpec ''ws'' [''sh'']) sv0 = Some (res, sv')"
proof -
  obtain sv0 pr h1 where b: "boot_daemon demo_boot [] demo_host = (Inr (sv0, pr), h1)" using demo_boots by blast
  from facade_creates_isolated [OF b sys_begin, of perfect_socket daemon_env "NewSpec ''ws'' [''sh'']"] b show ?thesis by metis
qed

end
